theory Spec2Isabelle
  imports Main "HOL-Library.Word"
begin

unbundle bit_operations_syntax

section \<open>Machine types and constants\<close>

type_synonym u8 = "8 word"
type_synonym u32 = "32 word"

text \<open>
  Status codes are C \<open>int\<close>s. The numeric values live in headers that are not part of
  the sources at hand (helper/log.h, target/target.h); only their being distinct matters.
\<close>

definition ERROR_OK :: int where
  "ERROR_OK = 0"

definition ERROR_FAIL :: int where
  "ERROR_FAIL = - 4"

definition ERROR_TARGET_UNALIGNED_ACCESS :: int where
  "ERROR_TARGET_UNALIGNED_ACCESS = - 306"

definition ERROR_TARGET_RESOURCE_NOT_AVAILABLE :: int where
  "ERROR_TARGET_RESOURCE_NOT_AVAILABLE = - 308"

text \<open>
  Modelled from the spec: the register selectors and bit layouts of arm\_adi\_v5.h, which is
  not among the sources; the values are those of section 6.4 of the specification.
\<close>

definition MEM_AP_REG_CSW :: u32 where
  "MEM_AP_REG_CSW = 0x00"

definition MEM_AP_REG_TAR :: u32 where
  "MEM_AP_REG_TAR = 0x04"

definition MEM_AP_REG_DRW :: u32 where
  "MEM_AP_REG_DRW = 0x0C"

definition MEM_AP_REG_BD0 :: u32 where
  "MEM_AP_REG_BD0 = 0x10"

definition DP_CTRL_STAT :: u32 where
  "DP_CTRL_STAT = 0x04"

definition DP_SELECT_INVALID :: u32 where
  "DP_SELECT_INVALID = 0x00FFFF00"

definition CSW_8BIT :: u32 where
  "CSW_8BIT = 0"

definition CSW_16BIT :: u32 where
  "CSW_16BIT = 1"

definition CSW_32BIT :: u32 where
  "CSW_32BIT = 2"

definition CSW_ADDRINC_MASK :: u32 where
  "CSW_ADDRINC_MASK = 0x30"

definition CSW_ADDRINC_OFF :: u32 where
  "CSW_ADDRINC_OFF = 0"

definition CSW_ADDRINC_SINGLE :: u32 where
  "CSW_ADDRINC_SINGLE = 0x10"

definition CSW_ADDRINC_PACKED :: u32 where
  "CSW_ADDRINC_PACKED = 0x20"

definition CSW_HPROT :: u32 where
  "CSW_HPROT = 0x02000000"

definition CSW_MASTER_DEBUG :: u32 where
  "CSW_MASTER_DEBUG = 0x20000000"

definition CSW_DBGSWENABLE :: u32 where
  "CSW_DBGSWENABLE = 0x80000000"

definition CORUNDETECT :: u32 where
  "CORUNDETECT = 0x00000001"

definition SSTICKYERR :: u32 where
  "SSTICKYERR = 0x00000020"

definition CDBGPWRUPREQ :: u32 where
  "CDBGPWRUPREQ = 0x10000000"

definition CDBGPWRUPACK :: u32 where
  "CDBGPWRUPACK = 0x20000000"

definition CSYSPWRUPREQ :: u32 where
  "CSYSPWRUPREQ = 0x40000000"

definition CSYSPWRUPACK :: u32 where
  "CSYSPWRUPACK = 0x80000000"

definition DAP_POWER_DOMAIN_TIMEOUT :: nat where
  "DAP_POWER_DOMAIN_TIMEOUT = 10"

section \<open>Data model\<close>

text \<open>\<open>struct adiv5_ap\<close>: one MEM-AP record. The back pointer to the DAP is left out; every
  function takes the DAP next to the AP.\<close>

record adiv5_ap =
  ap_num :: u8
  csw_value :: u32
  tar_value :: u32
  csw_default :: u32
  memaccess_tck :: u32
  tar_autoincr_block :: u32
  packed_transfers :: bool
  unaligned_access_bad :: bool

text \<open>The destination of a queued read: \<open>NULL\<close>, a numbered variable of the caller
  (\<open>value\<close>, \<open>&tar\<close>, \<open>&pid0\<close>), or word \<open>i\<close> of the block read's \<open>read_buf\<close>.\<close>

datatype slot = NoSlot | Var nat | Buf nat

datatype dap_cmd =
    DP_READ u32 slot
  | DP_WRITE u32 u32
  | AP_READ u8 u32 slot
  | AP_WRITE u8 u32 u32

text \<open>A call through the transport vtable: queueing one command, the flush, or the polling
  helper \<open>dap_dp_poll_register\<close> (register, mask, value, timeout).\<close>

datatype vcall =
    Queue dap_cmd
  | Run
  | Poll u32 u32 u32 nat

text \<open>
  Modelled from the spec: the target behind the link (sections 4.1 and 4.5; the transport
  driver is not among the sources). It is a mock with one MEM-AP over a byte-addressed
  little-endian memory: byte lane \<open>k\<close> of DRW carries the byte whose address has low bits
  \<open>k\<close>; TAR auto-increments inside a window of \<open>t_block\<close> bytes and wraps at its end.
\<close>

record target =
  t_csw :: u32
  t_tar :: u32
  t_ctrl_stat :: u32
  t_block :: u32
  t_mem :: "u32 \<Rightarrow> u8"

text \<open>\<open>struct adiv5_dap\<close> with the link it owns. \<open>replies n\<close> is the status the transport
  returns for its \<open>n\<close>-th vtable call, \<open>progress n\<close> how many journal entries a failing
  flush at call \<open>n\<close> still executed, \<open>trace\<close> every vtable call made with its status,
  \<open>malloc_ok\<close> whether the allocator succeeds, \<open>heap_junk\<close> the content of fresh heap
  words, \<open>logged\<close> the messages printed.\<close>

record adiv5_dap =
  ti_be_32_quirks :: bool
  select :: u32
  dp_ctrl_stat :: u32
  cmd_journal :: "dap_cmd list"
  replies :: "nat \<Rightarrow> int"
  progress :: "nat \<Rightarrow> nat"
  trace :: "(vcall \<times> int) list"
  tgt :: target
  malloc_ok :: bool
  heap_junk :: u32
  logged :: "string list"

section \<open>The mock target\<close>

definition lane_of :: "u32 \<Rightarrow> nat \<Rightarrow> u8" where
  "lane_of w k = ucast (drop_bit (8 * k) w)"

definition to_lane :: "u8 \<Rightarrow> nat \<Rightarrow> u32" where
  "to_lane b k = push_bit (8 * k) (ucast b)"

definition acc_bytes :: "u32 \<Rightarrow> u32 \<Rightarrow> nat" where
  "acc_bytes csw tar =
     (if csw AND CSW_ADDRINC_MASK = CSW_ADDRINC_PACKED then 4 - unat (tar AND 3)
      else if csw AND 7 = CSW_32BIT then 4
      else if csw AND 7 = CSW_16BIT then 2
      else 1)"

definition tar_inc :: "target \<Rightarrow> nat \<Rightarrow> u32" where
  "tar_inc g n =
     (if t_csw g AND CSW_ADDRINC_MASK = CSW_ADDRINC_OFF then t_tar g
      else t_tar g - (t_tar g mod t_block g) + ((t_tar g mod t_block g + of_nat n) mod t_block g))"

fun mem_store :: "(u32 \<Rightarrow> u8) \<Rightarrow> u32 \<Rightarrow> u32 \<Rightarrow> nat \<Rightarrow> (u32 \<Rightarrow> u8)" where
  "mem_store m a w 0 = m"
| "mem_store m a w (Suc n) = mem_store (m(a := lane_of w (unat (a AND 3)))) (a + 1) w n"

fun mem_load :: "(u32 \<Rightarrow> u8) \<Rightarrow> u32 \<Rightarrow> nat \<Rightarrow> u32" where
  "mem_load m a 0 = 0"
| "mem_load m a (Suc n) = to_lane (m a) (unat (a AND 3)) OR mem_load m (a + 1) n"

definition bd_addr :: "target \<Rightarrow> u32 \<Rightarrow> u32" where
  "bd_addr g reg = (t_tar g AND 0xFFFFFFF0) OR (reg AND 0xC)"

definition is_bd :: "u32 \<Rightarrow> bool" where
  "is_bd reg = (reg AND 0xF0 = MEM_AP_REG_BD0)"

definition exec_cmd :: "dap_cmd \<Rightarrow> target \<Rightarrow> target \<times> (slot \<times> u32) list" where
  "exec_cmd c g =
     (case c of
        DP_READ reg dst \<Rightarrow> (g, [(dst, if reg = DP_CTRL_STAT then t_ctrl_stat g else 0)])
      | DP_WRITE reg v \<Rightarrow> (if reg = DP_CTRL_STAT then g\<lparr>t_ctrl_stat := v\<rparr> else g, [])
      | AP_WRITE n reg v \<Rightarrow>
          (if reg = MEM_AP_REG_CSW then g\<lparr>t_csw := v\<rparr>
           else if reg = MEM_AP_REG_TAR then g\<lparr>t_tar := v\<rparr>
           else if reg = MEM_AP_REG_DRW then
             g\<lparr>t_mem := mem_store (t_mem g) (t_tar g) v (acc_bytes (t_csw g) (t_tar g)),
               t_tar := tar_inc g (acc_bytes (t_csw g) (t_tar g))\<rparr>
           else if is_bd reg then g\<lparr>t_mem := mem_store (t_mem g) (bd_addr g reg) v 4\<rparr>
           else g, [])
      | AP_READ n reg dst \<Rightarrow>
          (if reg = MEM_AP_REG_CSW then (g, [(dst, t_csw g)])
           else if reg = MEM_AP_REG_TAR then (g, [(dst, t_tar g)])
           else if reg = MEM_AP_REG_DRW then
             (g\<lparr>t_tar := tar_inc g (acc_bytes (t_csw g) (t_tar g))\<rparr>,
              [(dst, mem_load (t_mem g) (t_tar g) (acc_bytes (t_csw g) (t_tar g)))])
           else if is_bd reg then (g, [(dst, mem_load (t_mem g) (bd_addr g reg) 4)])
           else (g, [(dst, 0)])))"

fun exec_cmds :: "dap_cmd list \<Rightarrow> target \<Rightarrow> target \<times> (slot \<times> u32) list" where
  "exec_cmds [] g = (g, [])"
| "exec_cmds (c # cs) g =
     (case exec_cmd c g of (g1, r1) \<Rightarrow>
        (case exec_cmds cs g1 of (g2, r2) \<Rightarrow> (g2, r1 @ r2)))"

section \<open>The transport vtable\<close>

text \<open>
  Modelled from the spec: \<open>dap_queue_dp_read\<close>, \<open>dap_queue_dp_write\<close>,
  \<open>dap_queue_ap_read\<close>, \<open>dap_queue_ap_write\<close>, \<open>dap_run\<close> and
  \<open>dap_dp_poll_register\<close> are inline adapters in arm\_adi\_v5.h around \<open>dap->ops\<close>; neither
  is among the sources. Section 4.1: a queue call appends one operation to the journal and
  returns a status; the flush executes the journal in order and fills the read
  destinations; after any failing status the rest of the journal is discarded.
\<close>

definition next_reply :: "adiv5_dap \<Rightarrow> int" where
  "next_reply d = replies d (length (trace d))"

definition dap_queue :: "adiv5_dap \<Rightarrow> dap_cmd \<Rightarrow> int \<times> adiv5_dap" where
  "dap_queue d c =
     (next_reply d,
      d\<lparr>cmd_journal := (if next_reply d = ERROR_OK then cmd_journal d @ [c] else cmd_journal d),
        trace := trace d @ [(Queue c, next_reply d)]\<rparr>)"

definition dap_queue_dp_read :: "adiv5_dap \<Rightarrow> u32 \<Rightarrow> slot \<Rightarrow> int \<times> adiv5_dap" where
  "dap_queue_dp_read d reg dst = dap_queue d (DP_READ reg dst)"

definition dap_queue_dp_write :: "adiv5_dap \<Rightarrow> u32 \<Rightarrow> u32 \<Rightarrow> int \<times> adiv5_dap" where
  "dap_queue_dp_write d reg v = dap_queue d (DP_WRITE reg v)"

definition dap_queue_ap_read :: "adiv5_ap \<Rightarrow> adiv5_dap \<Rightarrow> u32 \<Rightarrow> slot \<Rightarrow> int \<times> adiv5_dap" where
  "dap_queue_ap_read ap d reg dst = dap_queue d (AP_READ (ap_num ap) reg dst)"

definition dap_queue_ap_write :: "adiv5_ap \<Rightarrow> adiv5_dap \<Rightarrow> u32 \<Rightarrow> u32 \<Rightarrow> int \<times> adiv5_dap" where
  "dap_queue_ap_write ap d reg v = dap_queue d (AP_WRITE (ap_num ap) reg v)"

definition flush :: "vcall \<Rightarrow> adiv5_dap \<Rightarrow> int \<times> (slot \<times> u32) list \<times> adiv5_dap" where
  "flush v d =
     (case exec_cmds
             (if next_reply d = ERROR_OK then cmd_journal d
              else take (progress d (length (trace d))) (cmd_journal d)) (tgt d) of
        (g, res) \<Rightarrow>
          (next_reply d, res,
           d\<lparr>cmd_journal := [], tgt := g, trace := trace d @ [(v, next_reply d)]\<rparr>))"

definition dap_run :: "adiv5_dap \<Rightarrow> int \<times> (slot \<times> u32) list \<times> adiv5_dap" where
  "dap_run d = flush Run d"

definition dap_dp_poll_register ::
  "adiv5_dap \<Rightarrow> u32 \<Rightarrow> u32 \<Rightarrow> u32 \<Rightarrow> nat \<Rightarrow> int \<times> adiv5_dap" where
  "dap_dp_poll_register d reg msk v timeout =
     (case flush (Poll reg msk v timeout) d of (r, res, d1) \<Rightarrow> (r, d1))"

text \<open>The word a flush delivered to a slot: the last result carrying that slot, or the
  previous content of the destination when the flush delivered none.\<close>

fun delivered :: "slot \<Rightarrow> (slot \<times> u32) list \<Rightarrow> u32 \<Rightarrow> u32" where
  "delivered s [] old = old"
| "delivered s ((s1, v) # rs) old = delivered s rs (if s1 = s then v else old)"

section \<open>MEM-AP register layer\<close>

definition max_tar_block_size :: "u32 \<Rightarrow> u32 \<Rightarrow> u32" where
  "max_tar_block_size blk address = blk - ((blk - 1) AND address)"

definition mem_ap_setup_csw :: "adiv5_ap \<Rightarrow> adiv5_dap \<Rightarrow> u32 \<Rightarrow> int \<times> adiv5_ap \<times> adiv5_dap" where
  "mem_ap_setup_csw ap d csw0 =
     (let csw = csw0 OR CSW_DBGSWENABLE OR CSW_MASTER_DEBUG OR CSW_HPROT OR csw_default ap in
      if csw \<noteq> csw_value ap then
        (case dap_queue_ap_write ap d MEM_AP_REG_CSW csw of
           (retval, d1) \<Rightarrow>
             if retval \<noteq> ERROR_OK then (retval, ap, d1)
             else (ERROR_OK, ap\<lparr>csw_value := csw\<rparr>, d1))
      else (ERROR_OK, ap, d))"

definition mem_ap_setup_tar :: "adiv5_ap \<Rightarrow> adiv5_dap \<Rightarrow> u32 \<Rightarrow> int \<times> adiv5_ap \<times> adiv5_dap" where
  "mem_ap_setup_tar ap d tar =
     (if tar \<noteq> tar_value ap \<or> csw_value ap AND CSW_ADDRINC_MASK \<noteq> 0 then
        (case dap_queue_ap_write ap d MEM_AP_REG_TAR tar of
           (retval, d1) \<Rightarrow>
             if retval \<noteq> ERROR_OK then (retval, ap, d1)
             else (ERROR_OK, ap\<lparr>tar_value := tar\<rparr>, d1))
      else (ERROR_OK, ap, d))"

definition mem_ap_setup_transfer ::
  "adiv5_ap \<Rightarrow> adiv5_dap \<Rightarrow> u32 \<Rightarrow> u32 \<Rightarrow> int \<times> adiv5_ap \<times> adiv5_dap" where
  "mem_ap_setup_transfer ap d csw tar =
     (case mem_ap_setup_csw ap d csw of
        (retval, ap1, d1) \<Rightarrow>
          if retval \<noteq> ERROR_OK then (retval, ap1, d1)
          else (case mem_ap_setup_tar ap1 d1 tar of
                  (retval2, ap2, d2) \<Rightarrow>
                    if retval2 \<noteq> ERROR_OK then (retval2, ap2, d2) else (ERROR_OK, ap2, d2)))"

section \<open>Single-word access\<close>

definition mem_ap_read_u32 ::
  "adiv5_ap \<Rightarrow> adiv5_dap \<Rightarrow> u32 \<Rightarrow> slot \<Rightarrow> int \<times> adiv5_ap \<times> adiv5_dap" where
  "mem_ap_read_u32 ap d address dst =
     (case mem_ap_setup_transfer ap d (CSW_32BIT OR CSW_ADDRINC_OFF) (address AND 0xFFFFFFF0) of
        (retval, ap1, d1) \<Rightarrow>
          if retval \<noteq> ERROR_OK then (retval, ap1, d1)
          else (case dap_queue_ap_read ap1 d1 (MEM_AP_REG_BD0 OR (address AND 0xC)) dst of
                  (retval2, d2) \<Rightarrow> (retval2, ap1, d2)))"

text \<open>The atomic read returns the status, the content of \<open>*value\<close> afterwards (\<open>old\<close> is
  its content before), and the state.\<close>

definition mem_ap_read_atomic_u32 ::
  "adiv5_ap \<Rightarrow> adiv5_dap \<Rightarrow> u32 \<Rightarrow> u32 \<Rightarrow> int \<times> u32 \<times> adiv5_ap \<times> adiv5_dap" where
  "mem_ap_read_atomic_u32 ap d address old =
     (case mem_ap_read_u32 ap d address (Var 0) of
        (retval, ap1, d1) \<Rightarrow>
          if retval \<noteq> ERROR_OK then (retval, old, ap1, d1)
          else (case dap_run d1 of
                  (retval2, res, d2) \<Rightarrow> (retval2, delivered (Var 0) res old, ap1, d2)))"

definition mem_ap_write_u32 ::
  "adiv5_ap \<Rightarrow> adiv5_dap \<Rightarrow> u32 \<Rightarrow> u32 \<Rightarrow> int \<times> adiv5_ap \<times> adiv5_dap" where
  "mem_ap_write_u32 ap d address v =
     (case mem_ap_setup_transfer ap d (CSW_32BIT OR CSW_ADDRINC_OFF) (address AND 0xFFFFFFF0) of
        (retval, ap1, d1) \<Rightarrow>
          if retval \<noteq> ERROR_OK then (retval, ap1, d1)
          else (case dap_queue_ap_write ap1 d1 (MEM_AP_REG_BD0 OR (address AND 0xC)) v of
                  (retval2, d2) \<Rightarrow> (retval2, ap1, d2)))"

definition mem_ap_write_atomic_u32 ::
  "adiv5_ap \<Rightarrow> adiv5_dap \<Rightarrow> u32 \<Rightarrow> u32 \<Rightarrow> int \<times> adiv5_ap \<times> adiv5_dap" where
  "mem_ap_write_atomic_u32 ap d address v =
     (case mem_ap_write_u32 ap d address v of
        (retval, ap1, d1) \<Rightarrow>
          if retval \<noteq> ERROR_OK then (retval, ap1, d1)
          else (case dap_run d1 of (retval2, res, d2) \<Rightarrow> (retval2, ap1, d2)))"

section \<open>Block engine: writes\<close>

text \<open>One statement \<open>outvalue |= (uint32_t)*buffer++ << 8 * lane(address++)\<close> per byte.\<close>

fun pack_lanes :: "(u32 \<Rightarrow> nat) \<Rightarrow> u8 list \<Rightarrow> u32 \<Rightarrow> u32 \<Rightarrow> u32" where
  "pack_lanes lane [] address outvalue = outvalue"
| "pack_lanes lane (b # bs) address outvalue =
     pack_lanes lane bs (address + 1) (outvalue OR push_bit (8 * lane address) (ucast b))"

definition lane_le :: "u32 \<Rightarrow> nat" where
  "lane_le address = unat (address AND 3)"

definition lane_be32 :: "u32 \<Rightarrow> u32 \<Rightarrow> u32 \<Rightarrow> nat" where
  "lane_be32 k addr_xor address = unat (k XOR (address AND 3) XOR addr_xor)"

text \<open>The two \<open>switch (this_size)\<close> statements of \<open>mem_ap_write\<close>; a value other than 4, 2
  or 1 matches no case.\<close>

definition switch_bytes :: "u32 \<Rightarrow> nat" where
  "switch_bytes this_size =
     (if this_size = 4 then 4 else if this_size = 2 then 2 else if this_size = 1 then 1 else 0)"

definition write_outvalue :: "bool \<Rightarrow> u32 \<Rightarrow> u32 \<Rightarrow> u8 list \<Rightarrow> u32 \<Rightarrow> u32" where
  "write_outvalue quirks this_size addr_xor buffer address =
     (if quirks then
        (if this_size = 4 then pack_lanes (lane_be32 3 addr_xor) (take 4 buffer) address 0
         else if this_size = 2 then pack_lanes (lane_be32 1 addr_xor) (take 2 buffer) address 0
         else if this_size = 1 then pack_lanes (lane_be32 0 addr_xor) (take 1 buffer) address 0
         else 0)
      else pack_lanes lane_le (take (switch_bytes this_size) buffer) address 0)"

text \<open>The outcome of one pass through a loop body: \<open>break\<close> with a status, the next
  pass, or a fault. A fault stands for what C leaves undefined and the callers rule out:
  the byte counter \<open>nbytes\<close> dropping below zero (it is a \<open>size_t\<close> and would wrap) with
  the accesses past the end of the buffers that follow.\<close>

datatype wstep =
    WBreak int adiv5_ap adiv5_dap
  | WNext adiv5_ap adiv5_dap "u8 list" nat u32
  | WFault

definition select_packed :: "bool \<Rightarrow> adiv5_ap \<Rightarrow> nat \<Rightarrow> u32 \<Rightarrow> bool" where
  "select_packed addrinc ap nbytes address =
     (addrinc \<and> packed_transfers ap \<and> 4 \<le> nbytes
      \<and> 4 \<le> max_tar_block_size (tar_autoincr_block ap) address)"

definition csw_addrincr :: "bool \<Rightarrow> u32" where
  "csw_addrincr addrinc = (if addrinc then CSW_ADDRINC_SINGLE else CSW_ADDRINC_OFF)"

definition write_step ::
  "bool \<Rightarrow> u32 \<Rightarrow> u32 \<Rightarrow> u32 \<Rightarrow> adiv5_ap \<Rightarrow> adiv5_dap \<Rightarrow> u8 list \<Rightarrow> nat \<Rightarrow> u32 \<Rightarrow> wstep" where
  "write_step addrinc sz csw_size addr_xor ap d buffer nbytes address =
     (let packed = select_packed addrinc ap nbytes address;
          this_size = (if packed then 4 else sz) in
      case mem_ap_setup_csw ap d
             (csw_size OR (if packed then CSW_ADDRINC_PACKED else csw_addrincr addrinc)) of
        (retval, ap1, d1) \<Rightarrow>
          if retval \<noteq> ERROR_OK then WBreak retval ap1 d1
          else if this_size = 0 \<or> nbytes < unat this_size \<or> length buffer < unat this_size
          then WFault
          else
            (case dap_queue_ap_write ap1 d1 MEM_AP_REG_DRW
                    (write_outvalue (ti_be_32_quirks d) this_size addr_xor buffer address) of
               (retval2, d2) \<Rightarrow>
                 if retval2 \<noteq> ERROR_OK then WBreak retval2 ap1 d2
                 else if addrinc \<and>
                         (addr_xor \<noteq> 0 \<or>
                          ((address + of_nat (switch_bytes this_size)) mod tar_autoincr_block ap1 < sz
                           \<and> 0 < nbytes - unat this_size))
                 then
                   (case mem_ap_setup_tar ap1 d2
                           ((address + of_nat (switch_bytes this_size)) XOR addr_xor) of
                      (retval3, ap3, d3) \<Rightarrow>
                        if retval3 \<noteq> ERROR_OK then WBreak retval3 ap3 d3
                        else WNext ap3 d3 (drop (switch_bytes this_size) buffer)
                               (nbytes - unat this_size) (address + of_nat (switch_bytes this_size)))
                 else WNext ap1 d2 (drop (switch_bytes this_size) buffer)
                        (nbytes - unat this_size) (address + of_nat (switch_bytes this_size))))"

lemma write_step_decreases:
  "write_step addrinc sz csw_size addr_xor ap d buffer nbytes address = WNext ap' d' buffer' nbytes' address'
   \<Longrightarrow> nbytes' < nbytes"
proof -
  have pos: "\<And>w :: u32. w \<noteq> 0 \<Longrightarrow> 0 < unat w"
    by (simp add: unat_gt_0)
  assume "write_step addrinc sz csw_size addr_xor ap d buffer nbytes address
            = WNext ap' d' buffer' nbytes' address'"
  then show ?thesis
    by (auto simp: write_step_def Let_def split: prod.splits if_splits dest!: pos)
qed

function write_loop ::
  "bool \<Rightarrow> u32 \<Rightarrow> u32 \<Rightarrow> u32 \<Rightarrow> adiv5_ap \<Rightarrow> adiv5_dap \<Rightarrow> u8 list \<Rightarrow> nat \<Rightarrow> u32
   \<Rightarrow> (int \<times> adiv5_ap \<times> adiv5_dap) option" where
  "write_loop addrinc sz csw_size addr_xor ap d buffer nbytes address =
     (if nbytes = 0 then Some (ERROR_OK, ap, d)
      else
        (case write_step addrinc sz csw_size addr_xor ap d buffer nbytes address of
           WBreak retval ap1 d1 \<Rightarrow> Some (retval, ap1, d1)
         | WFault \<Rightarrow> None
         | WNext ap1 d1 buffer1 nbytes1 address1 \<Rightarrow>
             write_loop addrinc sz csw_size addr_xor ap1 d1 buffer1 nbytes1 address1))"
  by pat_completeness auto
termination
  by (relation "measure (\<lambda>(addrinc, sz, csw_size, addr_xor, ap, d, buffer, nbytes, address). nbytes)")
     (auto dest: write_step_decreases)

declare write_loop.simps [simp del]

definition log_msg :: "string \<Rightarrow> adiv5_dap \<Rightarrow> adiv5_dap" where
  "log_msg s d = d\<lparr>logged := logged d @ [s]\<rparr>"

text \<open>The tail of \<open>mem_ap_write\<close>: the flush, and after any failure the attempt to read TAR
  back for the error message.\<close>

definition write_finish :: "int \<Rightarrow> adiv5_ap \<Rightarrow> adiv5_dap \<Rightarrow> int \<times> adiv5_ap \<times> adiv5_dap" where
  "write_finish retval0 ap d0 =
     (case (if retval0 = ERROR_OK then dap_run d0 else (retval0, [], d0)) of
        (retval, res, d) \<Rightarrow>
          if retval \<noteq> ERROR_OK then
            (case dap_queue_ap_read ap d MEM_AP_REG_TAR (Var 0) of
               (r1, d1) \<Rightarrow>
                 if r1 = ERROR_OK then
                   (case dap_run d1 of
                      (r2, res2, d2) \<Rightarrow>
                        if r2 = ERROR_OK then (retval, ap, log_msg ''Failed to write memory at'' d2)
                        else (retval, ap,
                              log_msg ''Failed to write memory and, additionally, failed to find out where'' d2))
                 else (retval, ap,
                       log_msg ''Failed to write memory and, additionally, failed to find out where'' d1))
          else (retval, ap, d))"

text \<open>The \<open>if\<close> chain at the head of \<open>mem_ap_write\<close>, for a size that is 4, 2 or 1.\<close>

definition csw_size_of :: "u32 \<Rightarrow> u32" where
  "csw_size_of sz = (if sz = 4 then CSW_32BIT else if sz = 2 then CSW_16BIT else CSW_8BIT)"

definition addr_xor_of :: "bool \<Rightarrow> u32 \<Rightarrow> u32" where
  "addr_xor_of quirks sz =
     (if sz = 4 then 0
      else if sz = 2 then (if quirks then 2 else 0)
      else (if quirks then 3 else 0))"

definition mem_ap_write ::
  "adiv5_ap \<Rightarrow> adiv5_dap \<Rightarrow> u8 list \<Rightarrow> u32 \<Rightarrow> u32 \<Rightarrow> u32 \<Rightarrow> bool
   \<Rightarrow> (int \<times> adiv5_ap \<times> adiv5_dap) option" where
  "mem_ap_write ap d buffer sz count address addrinc =
     (if sz \<noteq> 4 \<and> sz \<noteq> 2 \<and> sz \<noteq> 1 then Some (ERROR_TARGET_UNALIGNED_ACCESS, ap, d)
      else if unaligned_access_bad ap \<and> address mod sz \<noteq> 0
      then Some (ERROR_TARGET_UNALIGNED_ACCESS, ap, d)
      else
        (case mem_ap_setup_tar ap d (address XOR addr_xor_of (ti_be_32_quirks d) sz) of
           (retval, ap1, d1) \<Rightarrow>
             if retval \<noteq> ERROR_OK then Some (retval, ap1, d1)
             else
               (case write_loop addrinc sz (csw_size_of sz) (addr_xor_of (ti_be_32_quirks d) sz)
                       ap1 d1 buffer (unat (sz * count)) address of
                  None \<Rightarrow> None
                | Some (retval2, ap2, d2) \<Rightarrow> Some (write_finish retval2 ap2 d2))))"

section \<open>Block engine: reads\<close>

datatype rstep =
    RBreak int adiv5_ap adiv5_dap
  | RNext adiv5_ap adiv5_dap nat u32
  | RFault

text \<open>One pass of the loop that queues the DRW reads; \<open>k\<close> is the index \<open>read_ptr\<close> has
  reached in \<open>read_buf\<close>.\<close>

definition read_step ::
  "bool \<Rightarrow> u32 \<Rightarrow> u32 \<Rightarrow> adiv5_ap \<Rightarrow> adiv5_dap \<Rightarrow> nat \<Rightarrow> nat \<Rightarrow> u32 \<Rightarrow> rstep" where
  "read_step addrinc sz csw_size ap d k nbytes address =
     (let packed = select_packed addrinc ap nbytes address;
          this_size = (if packed then 4 else sz) in
      case mem_ap_setup_csw ap d
             (csw_size OR (if packed then CSW_ADDRINC_PACKED else csw_addrincr addrinc)) of
        (retval, ap1, d1) \<Rightarrow>
          if retval \<noteq> ERROR_OK then RBreak retval ap1 d1
          else
            (case dap_queue_ap_read ap1 d1 MEM_AP_REG_DRW (Buf k) of
               (retval2, d2) \<Rightarrow>
                 if retval2 \<noteq> ERROR_OK then RBreak retval2 ap1 d2
                 else if this_size = 0 \<or> nbytes < unat this_size then RFault
                 else if addrinc \<and> (address + this_size) mod tar_autoincr_block ap1 < sz
                         \<and> 0 < nbytes - unat this_size
                 then
                   (case mem_ap_setup_tar ap1 d2 (address + this_size) of
                      (retval3, ap3, d3) \<Rightarrow>
                        if retval3 \<noteq> ERROR_OK then RBreak retval3 ap3 d3
                        else RNext ap3 d3 (nbytes - unat this_size) (address + this_size))
                 else RNext ap1 d2 (nbytes - unat this_size) (address + this_size)))"

lemma read_step_decreases:
  "read_step addrinc sz csw_size ap d k nbytes address = RNext ap' d' nbytes' address'
   \<Longrightarrow> nbytes' < nbytes"
proof -
  have pos: "\<And>w :: u32. w \<noteq> 0 \<Longrightarrow> 0 < unat w"
    by (simp add: unat_gt_0)
  assume "read_step addrinc sz csw_size ap d k nbytes address = RNext ap' d' nbytes' address'"
  then show ?thesis
    by (auto simp: read_step_def Let_def split: prod.splits if_splits dest!: pos)
qed

function read_loop ::
  "bool \<Rightarrow> u32 \<Rightarrow> u32 \<Rightarrow> adiv5_ap \<Rightarrow> adiv5_dap \<Rightarrow> nat \<Rightarrow> nat \<Rightarrow> u32
   \<Rightarrow> (int \<times> adiv5_ap \<times> adiv5_dap) option" where
  "read_loop addrinc sz csw_size ap d k nbytes address =
     (if nbytes = 0 then Some (ERROR_OK, ap, d)
      else
        (case read_step addrinc sz csw_size ap d k nbytes address of
           RBreak retval ap1 d1 \<Rightarrow> Some (retval, ap1, d1)
         | RFault \<Rightarrow> None
         | RNext ap1 d1 nbytes1 address1 \<Rightarrow>
             read_loop addrinc sz csw_size ap1 d1 (Suc k) nbytes1 address1))"
  by pat_completeness auto
termination
  by (relation "measure (\<lambda>(addrinc, sz, csw_size, ap, d, k, nbytes, address). nbytes)")
     (auto dest: read_step_decreases)

declare read_loop.simps [simp del]

text \<open>A flush stores each result into the word of \<open>read_buf\<close> its slot names.\<close>

fun deliver_buf :: "(slot \<times> u32) list \<Rightarrow> u32 list \<Rightarrow> u32 list" where
  "deliver_buf [] buf = buf"
| "deliver_buf ((s, v) # rs) buf =
     deliver_buf rs (case s of Buf i \<Rightarrow> (if i < length buf then buf[i := v] else buf) | _ \<Rightarrow> buf)"

text \<open>One statement \<open>*buffer++ = *read_ptr >> 8 * lane(address++)\<close> per byte.\<close>

fun unpack_lanes :: "(u32 \<Rightarrow> nat) \<Rightarrow> nat \<Rightarrow> u32 \<Rightarrow> u32 \<Rightarrow> u8 list" where
  "unpack_lanes lane 0 w address = []"
| "unpack_lanes lane (Suc n) w address =
     ucast (drop_bit (8 * lane address) w) # unpack_lanes lane n w (address + 1)"

definition lane_be32_read :: "u32 \<Rightarrow> nat" where
  "lane_be32_read address = unat (3 - (address AND 3))"

definition read_bytes :: "bool \<Rightarrow> u32 \<Rightarrow> u32 \<Rightarrow> u32 \<Rightarrow> u8 list" where
  "read_bytes quirks this_size w address =
     (if quirks then unpack_lanes lane_be32_read (switch_bytes this_size) w address
      else unpack_lanes lane_le (switch_bytes this_size) w address)"

text \<open>The replay loop over the words of \<open>read_buf\<close> from \<open>read_ptr\<close> on; it returns the
  bytes stored through \<open>buffer\<close>, in order. Running off the end of \<open>read_buf\<close> is a
  fault, and so is the counter dropping below zero, after which the C loop runs off it.\<close>

fun replay ::
  "bool \<Rightarrow> adiv5_ap \<Rightarrow> bool \<Rightarrow> u32 \<Rightarrow> u32 list \<Rightarrow> nat \<Rightarrow> u32 \<Rightarrow> u8 list option" where
  "replay addrinc ap quirks sz [] nbytes address = (if nbytes = 0 then Some [] else None)"
| "replay addrinc ap quirks sz (w # ws) nbytes address =
     (if nbytes = 0 then Some []
      else
        (let this_size = (if select_packed addrinc ap nbytes address then 4 else sz) in
         if nbytes < unat this_size then None
         else
           (case replay addrinc ap quirks sz ws (nbytes - unat this_size)
                   (address + of_nat (switch_bytes this_size)) of
              None \<Rightarrow> None
            | Some bs \<Rightarrow> Some (read_bytes quirks this_size w address @ bs))))"

text \<open>The part of \<open>mem_ap_read\<close> after the queueing loop: the flush, the recovery of the
  byte count from TAR after a failure, and the replay.\<close>

definition read_finish ::
  "bool \<Rightarrow> u32 \<Rightarrow> u32 \<Rightarrow> u32 \<Rightarrow> int \<Rightarrow> adiv5_ap \<Rightarrow> adiv5_dap
   \<Rightarrow> (int \<times> u8 list \<times> adiv5_ap \<times> adiv5_dap) option" where
  "read_finish addrinc sz count adr retval0 ap d0 =
     (case (if retval0 = ERROR_OK then dap_run d0 else (retval0, [], d0)) of
        (retval, res, d) \<Rightarrow>
          (let read_buf = deliver_buf res (replicate (unat count) (heap_junk d0)) in
           if retval \<noteq> ERROR_OK then
             (case dap_queue_ap_read ap d MEM_AP_REG_TAR (Var 0) of
                (r1, d1) \<Rightarrow>
                  if r1 = ERROR_OK then
                    (case dap_run d1 of
                       (r2, res2, d2) \<Rightarrow>
                         if r2 = ERROR_OK then
                           (let tar = delivered (Var 0) res2 (heap_junk d0);
                                nbytes = (if unat (tar - adr) < unat (sz * count)
                                          then unat (tar - adr) else unat (sz * count)) in
                            case replay addrinc ap (ti_be_32_quirks d2) sz
                                   (deliver_buf res2 read_buf) nbytes adr of
                              None \<Rightarrow> None
                            | Some bs \<Rightarrow>
                                Some (retval, bs, ap, log_msg ''Failed to read memory at'' d2))
                         else
                           Some (retval, [], ap,
                                 log_msg ''Failed to read memory and, additionally, failed to find out where'' d2))
                  else
                    Some (retval, [], ap,
                          log_msg ''Failed to read memory and, additionally, failed to find out where'' d1))
           else
             (case replay addrinc ap (ti_be_32_quirks d) sz read_buf (unat (sz * count)) adr of
                None \<Rightarrow> None
              | Some bs \<Rightarrow> Some (retval, bs, ap, d))))"

definition mem_ap_read ::
  "adiv5_ap \<Rightarrow> adiv5_dap \<Rightarrow> u32 \<Rightarrow> u32 \<Rightarrow> u32 \<Rightarrow> bool
   \<Rightarrow> (int \<times> u8 list \<times> adiv5_ap \<times> adiv5_dap) option" where
  "mem_ap_read ap d sz count adr addrinc =
     (if sz \<noteq> 4 \<and> sz \<noteq> 2 \<and> sz \<noteq> 1 then Some (ERROR_TARGET_UNALIGNED_ACCESS, [], ap, d)
      else
        if unaligned_access_bad ap \<and> adr mod sz \<noteq> 0
        then Some (ERROR_TARGET_UNALIGNED_ACCESS, [], ap, d)
        else if \<not> malloc_ok d
        then Some (ERROR_FAIL, [], ap, log_msg ''Failed to allocate read buffer'' d)
        else
          (case mem_ap_setup_tar ap d adr of
             (retval, ap1, d1) \<Rightarrow>
               if retval \<noteq> ERROR_OK then Some (retval, [], ap1, d1)
               else
                 (case read_loop addrinc sz (csw_size_of sz) ap1 d1 0 (unat (sz * count)) adr of
                    None \<Rightarrow> None
                  | Some (retval2, ap2, d2) \<Rightarrow> read_finish addrinc sz count adr retval2 ap2 d2)))"

definition mem_ap_read_buf ::
  "adiv5_ap \<Rightarrow> adiv5_dap \<Rightarrow> u32 \<Rightarrow> u32 \<Rightarrow> u32 \<Rightarrow> (int \<times> u8 list \<times> adiv5_ap \<times> adiv5_dap) option" where
  "mem_ap_read_buf ap d sz count address = mem_ap_read ap d sz count address True"

definition mem_ap_write_buf ::
  "adiv5_ap \<Rightarrow> adiv5_dap \<Rightarrow> u8 list \<Rightarrow> u32 \<Rightarrow> u32 \<Rightarrow> u32 \<Rightarrow> (int \<times> adiv5_ap \<times> adiv5_dap) option" where
  "mem_ap_write_buf ap d buffer sz count address = mem_ap_write ap d buffer sz count address True"

definition mem_ap_read_buf_noincr ::
  "adiv5_ap \<Rightarrow> adiv5_dap \<Rightarrow> u32 \<Rightarrow> u32 \<Rightarrow> u32 \<Rightarrow> (int \<times> u8 list \<times> adiv5_ap \<times> adiv5_dap) option" where
  "mem_ap_read_buf_noincr ap d sz count address = mem_ap_read ap d sz count address False"

definition mem_ap_write_buf_noincr ::
  "adiv5_ap \<Rightarrow> adiv5_dap \<Rightarrow> u8 list \<Rightarrow> u32 \<Rightarrow> u32 \<Rightarrow> u32 \<Rightarrow> (int \<times> adiv5_ap \<times> adiv5_dap) option" where
  "mem_ap_write_buf_noincr ap d buffer sz count address = mem_ap_write ap d buffer sz count address False"

section \<open>DP initialisation\<close>

text \<open>One pass through the body of the \<open>for\<close> loop of \<open>dap_dp_init\<close>; every
  \<open>continue\<close> ends the pass with the failing status, the \<open>break\<close> ends it with
  \<open>ERROR_OK\<close>.\<close>

definition dp_init_attempt :: "adiv5_dap \<Rightarrow> int \<times> adiv5_dap" where
  "dp_init_attempt d =
     (case dap_queue_dp_read d DP_CTRL_STAT NoSlot of (r1, d1) \<Rightarrow>
      if r1 \<noteq> ERROR_OK then (r1, d1) else
     (case dap_queue_dp_write d1 DP_CTRL_STAT SSTICKYERR of (r2, d2) \<Rightarrow>
      if r2 \<noteq> ERROR_OK then (r2, d2) else
     (case dap_queue_dp_read d2 DP_CTRL_STAT NoSlot of (r3, d3) \<Rightarrow>
      if r3 \<noteq> ERROR_OK then (r3, d3) else
     (case dap_queue_dp_write (d3\<lparr>dp_ctrl_stat := CDBGPWRUPREQ OR CSYSPWRUPREQ\<rparr>)
             DP_CTRL_STAT (CDBGPWRUPREQ OR CSYSPWRUPREQ) of (r4, d4) \<Rightarrow>
      if r4 \<noteq> ERROR_OK then (r4, d4) else
     (case dap_dp_poll_register d4 DP_CTRL_STAT CDBGPWRUPACK CDBGPWRUPACK
             DAP_POWER_DOMAIN_TIMEOUT of (r5, d5) \<Rightarrow>
      if r5 \<noteq> ERROR_OK then (r5, d5) else
     (case dap_dp_poll_register d5 DP_CTRL_STAT CSYSPWRUPACK CSYSPWRUPACK
             DAP_POWER_DOMAIN_TIMEOUT of (r6, d6) \<Rightarrow>
      if r6 \<noteq> ERROR_OK then (r6, d6) else
     (case dap_queue_dp_read d6 DP_CTRL_STAT NoSlot of (r7, d7) \<Rightarrow>
      if r7 \<noteq> ERROR_OK then (r7, d7) else
     (case dap_queue_dp_write
             (d7\<lparr>dp_ctrl_stat := CDBGPWRUPREQ OR CSYSPWRUPREQ OR CORUNDETECT\<rparr>)
             DP_CTRL_STAT (CDBGPWRUPREQ OR CSYSPWRUPREQ OR CORUNDETECT) of (r8, d8) \<Rightarrow>
      if r8 \<noteq> ERROR_OK then (r8, d8) else
     (case dap_queue_dp_read d8 DP_CTRL_STAT NoSlot of (r9, d9) \<Rightarrow>
      if r9 \<noteq> ERROR_OK then (r9, d9) else
     (case dap_run d9 of (r10, res, d10) \<Rightarrow> (r10, d10)))))))))))"

text \<open>The \<open>for (size_t i = 0; i < 10; i++)\<close> loop; \<open>retval\<close> is the status of the pass
  before (not initialised before the first pass, which always runs).\<close>

function dp_init_for :: "nat \<Rightarrow> int \<Rightarrow> adiv5_dap \<Rightarrow> int \<times> adiv5_dap" where
  "dp_init_for i retval d =
     (if i < 10 then
        (case dp_init_attempt d of
           (r, d1) \<Rightarrow> if r \<noteq> ERROR_OK then dp_init_for (i + 1) r d1 else (r, d1))
      else (retval, d))"
  by pat_completeness auto
termination
  by (relation "measure (\<lambda>(i, retval, d). 10 - i)") auto

declare dp_init_for.simps [simp del]

text \<open>\<open>dap->ops\<close> is the link of the record and \<open>dap->last_read\<close> belongs to the transport
  driver; neither is a field here.\<close>

definition dap_dp_init :: "adiv5_dap \<Rightarrow> int \<times> adiv5_dap" where
  "dap_dp_init d = dp_init_for 0 ERROR_OK (d\<lparr>select := DP_SELECT_INVALID\<rparr>)"

section \<open>ROM table lookup\<close>

text \<open>\<open>int32_t\<close>: the index is only tested for zero and decremented, which is the same
  on the bit pattern.\<close>

type_synonym i32 = "32 word"

text \<open>How the \<open>do ... while\<close> loop of \<open>dap_lookup_cs_component\<close> is left: by a
  \<open>return\<close> with a status, or through \<open>break\<close> or its condition to the code after it.\<close>

datatype lexit = Return int | Leave

text \<open>What the block under \<open>if (romentry & 0x1)\<close> does to the loop.\<close>

datatype lpass = PReturn int | PBreak | PNext

text \<open>
  ROM tables may be nested without bound and the loop has no exit but a zero entry, so the
  walk need not terminate: the functions take fuel, one unit per call, and return \<open>None\<close>
  when it runs out. The results are the status, \<open>*addr\<close>, \<open>*idx\<close> and the state.
\<close>

fun dap_lookup_cs_component ::
      "nat \<Rightarrow> adiv5_ap \<Rightarrow> adiv5_dap \<Rightarrow> u32 \<Rightarrow> u8 \<Rightarrow> i32
       \<Rightarrow> (int \<times> u32 \<times> i32 \<times> adiv5_ap \<times> adiv5_dap) option"
  and lookup_loop ::
      "nat \<Rightarrow> adiv5_ap \<Rightarrow> adiv5_dap \<Rightarrow> u32 \<Rightarrow> u8 \<Rightarrow> u32 \<Rightarrow> u32 \<Rightarrow> i32
       \<Rightarrow> (lexit \<times> u32 \<times> i32 \<times> adiv5_ap \<times> adiv5_dap) option"
  and lookup_present ::
      "nat \<Rightarrow> adiv5_ap \<Rightarrow> adiv5_dap \<Rightarrow> u32 \<Rightarrow> u8 \<Rightarrow> u32 \<Rightarrow> i32
       \<Rightarrow> (lpass \<times> u32 \<times> i32 \<times> adiv5_ap \<times> adiv5_dap) option"
where
  "dap_lookup_cs_component 0 ap d dbgbase dtype idx = None"
| "dap_lookup_cs_component (Suc f) ap d dbgbase dtype idx =
     (case lookup_loop f ap d dbgbase dtype 0 0 idx of
        None \<Rightarrow> None
      | Some (Return retval, addr, idx1, ap1, d1) \<Rightarrow> Some (retval, addr, idx1, ap1, d1)
      | Some (Leave, addr, idx1, ap1, d1) \<Rightarrow>
          if addr = 0 then Some (ERROR_TARGET_RESOURCE_NOT_AVAILABLE, addr, idx1, ap1, d1)
          else Some (ERROR_OK, addr, idx1, ap1, d1))"
| "lookup_loop 0 ap d dbgbase dtype entry_offset addr idx = None"
| "lookup_loop (Suc f) ap d dbgbase dtype entry_offset addr idx =
     (case mem_ap_read_atomic_u32 ap d ((dbgbase AND 0xFFFFF000) OR entry_offset) (heap_junk d) of
        (retval, romentry, ap1, d1) \<Rightarrow>
          if retval \<noteq> ERROR_OK then Some (Return retval, addr, idx, ap1, d1)
          else
            (case (if romentry AND 1 \<noteq> 0
                   then lookup_present f ap1 d1
                          ((dbgbase AND 0xFFFFF000) + (romentry AND 0xFFFFF000)) dtype addr idx
                   else Some (PNext, addr, idx, ap1, d1)) of
               None \<Rightarrow> None
             | Some (PReturn r, addr2, idx2, ap2, d2) \<Rightarrow> Some (Return r, addr2, idx2, ap2, d2)
             | Some (PBreak, addr2, idx2, ap2, d2) \<Rightarrow> Some (Leave, addr2, idx2, ap2, d2)
             | Some (PNext, addr2, idx2, ap2, d2) \<Rightarrow>
                 if 0 < romentry
                 then lookup_loop f ap2 d2 dbgbase dtype (entry_offset + 4) addr2 idx2
                 else Some (Leave, addr2, idx2, ap2, d2)))"
| "lookup_present 0 ap d component_base dtype addr idx = None"
| "lookup_present (Suc f) ap d component_base dtype addr idx =
     (case mem_ap_read_atomic_u32 ap d (component_base OR 0xff4) (heap_junk d) of
        (retval, c_cid1, ap1, d1) \<Rightarrow>
          if retval \<noteq> ERROR_OK
          then Some (PReturn retval, addr, idx, ap1,
                     log_msg ''Can't read component, the corresponding core might be turned off'' d1)
          else
            (case (if (drop_bit 4 c_cid1) AND 0x0f = 1
                   then (case dap_lookup_cs_component f ap1 d1 component_base dtype idx of
                           None \<Rightarrow> None
                         | Some (retval2, addr2, idx2, ap2, d2) \<Rightarrow>
                             if retval2 = ERROR_OK then Some (PBreak, addr2, idx2, ap2, d2)
                             else if retval2 \<noteq> ERROR_TARGET_RESOURCE_NOT_AVAILABLE
                             then Some (PReturn retval2, addr2, idx2, ap2, d2)
                             else Some (PNext, addr2, idx2, ap2, d2))
                   else Some (PNext, addr, idx, ap1, d1)) of
               None \<Rightarrow> None
             | Some (PReturn r, st) \<Rightarrow> Some (PReturn r, st)
             | Some (PBreak, st) \<Rightarrow> Some (PBreak, st)
             | Some (PNext, addr3, idx3, ap3, d3) \<Rightarrow>
                 (case mem_ap_read_atomic_u32 ap3 d3 ((component_base AND 0xfffff000) OR 0xfcc)
                         (heap_junk d3) of
                    (retval3, devtype, ap4, d4) \<Rightarrow>
                      if retval3 \<noteq> ERROR_OK then Some (PReturn retval3, addr3, idx3, ap4, d4)
                      else if devtype AND 0xff = ucast dtype then
                        (if idx3 = 0 then Some (PBreak, component_base, idx3, ap4, d4)
                         else Some (PNext, addr3, idx3 - 1, ap4, d4))
                      else Some (PNext, addr3, idx3, ap4, d4))))"

section \<open>ROM table display\<close>

type_synonym u16 = "16 word"
type_synonym u64 = "64 word"

definition is_dap_cid_ok :: "u32 \<Rightarrow> bool" where
  "is_dap_cid_ok cid = (cid AND 0xffff0fff = 0xb105000d)"

text \<open>The nine queued reads of \<open>dap_read_part_id\<close>, in the order of the source; \<open>Var i\<close>
  is the destination of the \<open>i\<close>-th.\<close>

fun queue_id_reads ::
  "adiv5_ap \<Rightarrow> adiv5_dap \<Rightarrow> u32 \<Rightarrow> (u32 \<times> nat) list \<Rightarrow> int \<times> adiv5_ap \<times> adiv5_dap" where
  "queue_id_reads ap d component_base [] = (ERROR_OK, ap, d)"
| "queue_id_reads ap d component_base ((off, i) # rest) =
     (case mem_ap_read_u32 ap d (component_base + off) (Var i) of
        (retval, ap1, d1) \<Rightarrow>
          if retval \<noteq> ERROR_OK then (retval, ap1, d1)
          else queue_id_reads ap1 d1 component_base rest)"

definition id_regs :: "(u32 \<times> nat) list" where
  "id_regs = [(0xFE0, 0), (0xFE4, 1), (0xFE8, 2), (0xFEC, 3), (0xFD0, 4),
              (0xFF0, 5), (0xFF4, 6), (0xFF8, 7), (0xFFC, 8)]"

text \<open>The results are the status, \<open>*cid\<close>, \<open>*pid\<close> and the state; \<open>*cid\<close> and \<open>*pid\<close>
  keep their content when the function fails.\<close>

definition dap_read_part_id ::
  "adiv5_ap \<Rightarrow> adiv5_dap \<Rightarrow> u32 \<Rightarrow> u32 \<Rightarrow> u64 \<Rightarrow> int \<times> u32 \<times> u64 \<times> adiv5_ap \<times> adiv5_dap" where
  "dap_read_part_id ap d component_base cid0 pid0 =
     (case queue_id_reads ap d component_base id_regs of
        (retval, ap1, d1) \<Rightarrow>
          if retval \<noteq> ERROR_OK then (retval, cid0, pid0, ap1, d1)
          else
            (case dap_run d1 of
               (retval2, res, d2) \<Rightarrow>
                 if retval2 \<noteq> ERROR_OK then (retval2, cid0, pid0, ap1, d2)
                 else
                   (let v = (\<lambda>i. delivered (Var i) res (heap_junk d)) in
                    (ERROR_OK,
                     push_bit 24 (v 8 AND 0xff) OR push_bit 16 (v 7 AND 0xff)
                       OR push_bit 8 (v 6 AND 0xff) OR (v 5 AND 0xff),
                     push_bit 32 (ucast (v 4 AND 0xff)) OR ucast (push_bit 24 (v 3 AND 0xff))
                       OR ucast (push_bit 16 (v 2 AND 0xff)) OR ucast (push_bit 8 (v 1 AND 0xff))
                       OR ucast (v 0 AND 0xff),
                     ap1, d2))))"

text \<open>The lines \<open>command_print\<close> writes between the CID check and the class test. Only
  the fixed part of each line is recorded; the numbers and the names looked up in
  \<open>dap_partnums\<close>, \<open>class_description\<close> and the JEP106 table are left out.\<close>

definition print_ids :: "u64 \<Rightarrow> adiv5_dap \<Rightarrow> adiv5_dap" where
  "print_ids pid d =
     log_msg ''Component class is''
       (log_msg ''Part is''
          (log_msg (if (ucast (drop_bit 12 pid) :: u16) AND 0x80 \<noteq> 0
                    then ''Designer is'' else ''Designer ASCII code'')
             (log_msg ''Peripheral ID''
                (if (drop_bit 36 pid) AND 0xf \<noteq> 0 then log_msg ''Start address'' d else d))))"

text \<open>\<open>dap_rom_display\<close> and the \<open>for\<close> loop over the ROM entries inside it. The loop
  returns \<open>Return r\<close> for a \<open>return\<close> inside it and \<open>Leave\<close> when it ends.\<close>

function dap_rom_display :: "adiv5_ap \<Rightarrow> adiv5_dap \<Rightarrow> u32 \<Rightarrow> nat \<Rightarrow> int \<times> adiv5_ap \<times> adiv5_dap"
  and rom_entries :: "adiv5_ap \<Rightarrow> adiv5_dap \<Rightarrow> u32 \<Rightarrow> nat \<Rightarrow> u16 \<Rightarrow> lexit \<times> adiv5_ap \<times> adiv5_dap"
where
  "dap_rom_display ap d dbgbase depth =
     (if 16 < depth then (ERROR_FAIL, ap, log_msg ''Tables too deep'' d)
      else
        (case dap_read_part_id ap (log_msg ''Component base address'' d) (dbgbase AND 0xFFFFF000)
                (heap_junk d) (ucast (heap_junk d)) of
           (retval, cid, pid, ap1, d1) \<Rightarrow>
             if retval \<noteq> ERROR_OK
             then (ERROR_OK, ap1,
                   log_msg ''Can't read component, the corresponding core might be turned off'' d1)
             else if \<not> is_dap_cid_ok cid then (ERROR_OK, ap1, log_msg ''Invalid CID'' d1)
             else if (drop_bit 12 cid) AND 0xf = 1 then
               (case mem_ap_read_atomic_u32 ap1 (print_ids pid d1)
                       ((dbgbase AND 0xFFFFF000) OR 0xFCC) (heap_junk d) of
                  (retval2, memtype, ap2, d2) \<Rightarrow>
                    if retval2 \<noteq> ERROR_OK then (retval2, ap2, d2)
                    else
                      (case rom_entries ap2
                              (log_msg (if memtype AND 1 \<noteq> 0
                                        then ''MEMTYPE system memory present on bus''
                                        else ''MEMTYPE system memory not present: dedicated debug bus'') d2)
                              (dbgbase AND 0xFFFFF000) depth 0 of
                         (Return r, ap3, d3) \<Rightarrow> (r, ap3, d3)
                       | (Leave, ap3, d3) \<Rightarrow> (ERROR_OK, ap3, d3)))
             else if (drop_bit 12 cid) AND 0xf = 9 then
               (case mem_ap_read_atomic_u32 ap1 (print_ids pid d1)
                       ((dbgbase AND 0xFFFFF000) OR 0xFCC) (heap_junk d) of
                  (retval2, devtype, ap2, d2) \<Rightarrow>
                    if retval2 \<noteq> ERROR_OK then (retval2, ap2, d2)
                    else (ERROR_OK, ap2, log_msg ''Type is'' d2))
             else (ERROR_OK, ap1, print_ids pid d1)))"
| "rom_entries ap d base_addr depth entry_offset =
     (if entry_offset < 0xF00 then
        (case mem_ap_read_atomic_u32 ap d (base_addr OR ucast entry_offset) (heap_junk d) of
           (retval, romentry, ap1, d1) \<Rightarrow>
             if retval \<noteq> ERROR_OK then (Return retval, ap1, d1)
             else if romentry AND 1 \<noteq> 0 then
               (case dap_rom_display ap1 (log_msg ''ROMTABLE'' d1)
                       (base_addr + (romentry AND 0xFFFFF000)) (depth + 1) of
                  (retval2, ap2, d2) \<Rightarrow>
                    if retval2 \<noteq> ERROR_OK then (Return retval2, ap2, d2)
                    else rom_entries ap2 d2 base_addr depth (entry_offset + 4))
             else if romentry \<noteq> 0 then
               rom_entries ap1 (log_msg ''Component not present'' (log_msg ''ROMTABLE'' d1))
                 base_addr depth (entry_offset + 4)
             else (Leave, ap1, log_msg ''End of ROM table'' (log_msg ''ROMTABLE'' d1)))
      else (Leave, ap, d))"
  by pat_completeness auto
termination
proof (relation "measure (\<lambda>x. case x of
           Inl (ap, d, dbgbase, depth) \<Rightarrow> (17 - depth) * 4000
         | Inr (ap, d, base_addr, depth, entry_offset) \<Rightarrow>
             (16 - depth) * 4000 + 1 + (3840 - unat entry_offset))", goal_cases)
  case 1
  then show ?case by simp
next
  case (2 ap d dbgbase depth)
  then show ?case by (simp add: not_less)
next
  case (3 ap d base_addr depth entry_offset)
  then show ?case by simp
next
  case (4 ap d base_addr depth entry_offset)
  then have "unat entry_offset < 3840"
    by (simp add: word_less_nat_alt)
  moreover from this have "unat (entry_offset + 4) = unat entry_offset + 4"
    by (simp add: unat_word_ariths)
  ultimately show ?case by simp
next
  case (5 ap d base_addr depth entry_offset)
  then have "unat entry_offset < 3840"
    by (simp add: word_less_nat_alt)
  moreover from this have "unat (entry_offset + 4) = unat entry_offset + 4"
    by (simp add: unat_word_ariths)
  ultimately show ?case by simp
qed

section \<open>Concrete configurations\<close>

text \<open>An AP as \<open>dap_init\<close> leaves it, an idle target with empty memory, and a DAP over a link
  that answers its \<open>n\<close>-th call with \<open>rs n\<close>.\<close>

definition ap_default :: adiv5_ap where
  "ap_default = \<lparr>ap_num = 0, csw_value = 0, tar_value = 0, csw_default = 0, memaccess_tck = 255,
     tar_autoincr_block = 0x400, packed_transfers = False, unaligned_access_bad = False\<rparr>"

definition target_zero :: target where
  "target_zero = \<lparr>t_csw = 0, t_tar = 0, t_ctrl_stat = 0, t_block = 0x400, t_mem = (\<lambda>a. 0)\<rparr>"

definition dap_link :: "(nat \<Rightarrow> int) \<Rightarrow> adiv5_dap" where
  "dap_link rs = \<lparr>ti_be_32_quirks = False, select = 0, dp_ctrl_stat = 0, cmd_journal = [],
     replies = rs, progress = (\<lambda>n. 0), trace = [], tgt = target_zero, malloc_ok = True,
     heap_junk = 0, logged = []\<rparr>"

definition all_ok :: "nat \<Rightarrow> int" where
  "all_ok n = ERROR_OK"

definition fail_at :: "nat \<Rightarrow> nat \<Rightarrow> int" where
  "fail_at k n = (if n = k then ERROR_FAIL else ERROR_OK)"

text \<open>What a caller and the link see of a block transfer: the status, the bytes read, the
  AP record and the vtable calls made so far.\<close>

definition write_outcome ::
  "(int \<times> adiv5_ap \<times> adiv5_dap) option \<Rightarrow> (int \<times> adiv5_ap \<times> (vcall \<times> int) list) option" where
  "write_outcome res = map_option (\<lambda>(r, ap, d). (r, ap, trace d)) res"

definition read_outcome ::
  "(int \<times> u8 list \<times> adiv5_ap \<times> adiv5_dap) option
   \<Rightarrow> (int \<times> u8 list \<times> adiv5_ap \<times> (vcall \<times> int) list) option" where
  "read_outcome res = map_option (\<lambda>(r, bs, ap, d). (r, bs, ap, trace d)) res"

text \<open>Whether \<open>mem_ap_setup_tar\<close> has to write TAR.\<close>

definition tar_write_due :: "adiv5_ap \<Rightarrow> u32 \<Rightarrow> bool" where
  "tar_write_due ap tar = (tar \<noteq> tar_value ap \<or> csw_value ap AND CSW_ADDRINC_MASK \<noteq> 0)"

text \<open>The value of the last write to register \<open>reg\<close> of AP \<open>n\<close> that the queue accepted
  along a trace, or \<open>v0\<close> when there was none.\<close>

fun last_ap_write :: "u8 \<Rightarrow> u32 \<Rightarrow> (vcall \<times> int) list \<Rightarrow> u32 \<Rightarrow> u32" where
  "last_ap_write n reg [] v0 = v0"
| "last_ap_write n reg ((c, st) # tr) v0 =
     last_ap_write n reg tr
       (case c of
          Queue (AP_WRITE m r v) \<Rightarrow> (if m = n \<and> r = reg \<and> st = ERROR_OK then v else v0)
        | _ \<Rightarrow> v0)"

text \<open>\<open>tracks ap d ap' d'\<close>: the trace of \<open>d'\<close> extends that of \<open>d\<close>, and the CSW and TAR
  shadows of \<open>ap'\<close> are the last values the queue accepted for these registers in the
  extension (those of \<open>ap\<close> when it accepted none).\<close>

definition tracks :: "adiv5_ap \<Rightarrow> adiv5_dap \<Rightarrow> adiv5_ap \<Rightarrow> adiv5_dap \<Rightarrow> bool" where
  "tracks ap d ap' d' =
     (take (length (trace d)) (trace d') = trace d
      \<and> ap_num ap' = ap_num ap
      \<and> csw_value ap' =
          last_ap_write (ap_num ap) MEM_AP_REG_CSW (drop (length (trace d)) (trace d')) (csw_value ap)
      \<and> tar_value ap' =
          last_ap_write (ap_num ap) MEM_AP_REG_TAR (drop (length (trace d)) (trace d')) (tar_value ap))"

text \<open>A one-byte write without address increment whose flush (the fourth vtable call)
  fails.\<close>

definition after_failed_flush :: "int \<times> adiv5_ap \<times> adiv5_dap" where
  "after_failed_flush =
     (case mem_ap_write_buf_noincr ap_default (dap_link (fail_at 3)) [0xAA] 1 1 0x100 of
        Some x \<Rightarrow> x | None \<Rightarrow> (ERROR_OK, ap_default, dap_link all_ok))"

text \<open>The value \<open>mem_ap_setup_csw\<close> wants in CSW, and the vtable calls it makes on a link
  that accepts them.\<close>

definition csw_effective :: "adiv5_ap \<Rightarrow> u32 \<Rightarrow> u32" where
  "csw_effective ap csw0 =
     csw0 OR CSW_DBGSWENABLE OR CSW_MASTER_DEBUG OR CSW_HPROT OR csw_default ap"

definition csw_calls :: "adiv5_ap \<Rightarrow> u32 \<Rightarrow> (vcall \<times> int) list" where
  "csw_calls ap csw0 =
     (if csw_effective ap csw0 \<noteq> csw_value ap
      then [(Queue (AP_WRITE (ap_num ap) MEM_AP_REG_CSW (csw_effective ap csw0)), ERROR_OK)]
      else [])"

text \<open>The increment mode and the transfer size a pass of the block loops selects.\<close>

definition pass_mode :: "bool \<Rightarrow> adiv5_ap \<Rightarrow> nat \<Rightarrow> u32 \<Rightarrow> u32" where
  "pass_mode addrinc ap nbytes address =
     (if select_packed addrinc ap nbytes address then CSW_ADDRINC_PACKED else csw_addrincr addrinc)"

definition pass_size :: "bool \<Rightarrow> adiv5_ap \<Rightarrow> u32 \<Rightarrow> nat \<Rightarrow> u32 \<Rightarrow> u32" where
  "pass_size addrinc ap sz nbytes address =
     (if select_packed addrinc ap nbytes address then 4 else sz)"

text \<open>The trace after a pass that ran to its end.\<close>

definition wstep_trace :: "wstep \<Rightarrow> (vcall \<times> int) list option" where
  "wstep_trace w = (case w of WNext ap d b n a \<Rightarrow> Some (trace d) | _ \<Rightarrow> None)"

definition rstep_trace :: "rstep \<Rightarrow> (vcall \<times> int) list option" where
  "rstep_trace w = (case w of RNext ap d n a \<Rightarrow> Some (trace d) | _ \<Rightarrow> None)"

text \<open>A DAP with the TI BE-32 quirk switched on, over a link that never fails.\<close>

definition dap_be32 :: adiv5_dap where
  "dap_be32 = (dap_link all_ok)\<lparr>ti_be_32_quirks := True\<rparr>"

text \<open>The first \<open>n\<close> vtable calls on record after a block write.\<close>

definition first_calls :: "nat \<Rightarrow> (int \<times> adiv5_ap \<times> adiv5_dap) option \<Rightarrow> (vcall \<times> int) list" where
  "first_calls n res = (case res of Some (r, ap, d) \<Rightarrow> take n (trace d) | None \<Rightarrow> [])"

text \<open>The DAP after \<open>k\<close> passes of the initialisation loop, the last \<open>n\<close> vtable calls on
  record, and a link that refuses every call.\<close>

fun after_attempts :: "nat \<Rightarrow> adiv5_dap \<Rightarrow> adiv5_dap" where
  "after_attempts 0 d = d"
| "after_attempts (Suc k) d = after_attempts k (snd (dp_init_attempt d))"

definition last_calls :: "nat \<Rightarrow> adiv5_dap \<Rightarrow> (vcall \<times> int) list" where
  "last_calls n d = drop (length (trace d) - n) (trace d)"

definition all_fail :: "nat \<Rightarrow> int" where
  "all_fail n = ERROR_FAIL"

text \<open>Sequencing of two steps that stops at the first failing status.\<close>

definition then_ok :: "int \<times> 'a \<Rightarrow> ('a \<Rightarrow> int \<times> 'a) \<Rightarrow> int \<times> 'a" where
  "then_ok x g = (case x of (r, d1) \<Rightarrow> if r \<noteq> ERROR_OK then (r, d1) else g d1)"

text \<open>What holds of \<open>*addr\<close> when the lookup loop is left, and after the block for a present
  entry.\<close>

definition ret_ok :: "lexit \<Rightarrow> u32 \<Rightarrow> bool" where
  "ret_ok x addr = (case x of Return r \<Rightarrow> r \<noteq> ERROR_OK \<and> addr = 0 | Leave \<Rightarrow> True)"

definition pass_ok :: "lpass \<Rightarrow> u32 \<Rightarrow> bool" where
  "pass_ok y addr = (case y of PReturn r \<Rightarrow> r \<noteq> ERROR_OK \<and> addr = 0 | PBreak \<Rightarrow> True | PNext \<Rightarrow> addr = 0)"

text \<open>A ROM table at address 0 whose first entry is present with offset 0, so that the
  component it names has base address 0; the component is not a ROM table and its device
  type is \<open>0x15\<close>. \<open>dap_over rs m\<close> is a DAP over a link answering \<open>rs\<close> and a target with
  memory \<open>m\<close>.\<close>

definition rom_self :: "u32 \<Rightarrow> u8" where
  "rom_self a = (if a = 0 then 1 else if a = 0xFF4 then 0x90 else if a = 0xFCC then 0x15 else 0)"

definition dap_over :: "(nat \<Rightarrow> int) \<Rightarrow> (u32 \<Rightarrow> u8) \<Rightarrow> adiv5_dap" where
  "dap_over rs m = (dap_link rs)\<lparr>tgt := target_zero\<lparr>t_mem := m\<rparr>\<rparr>"

definition lookup_outcome ::
  "(int \<times> u32 \<times> i32 \<times> adiv5_ap \<times> adiv5_dap) option \<Rightarrow> (int \<times> u32 \<times> i32) option" where
  "lookup_outcome res = map_option (\<lambda>(r, addr, idx, ap, d). (r, addr, idx)) res"

text \<open>The vtable calls a block transfer of zero units is expected to make, given the
  statuses \<open>rs\<close> of the link and the index \<open>k\<close> of its next call: the TAR write of
  \<open>mem_ap_setup_tar\<close>; the flush, followed after a failing status by the read of TAR for the
  error message and, when that read is accepted, by one more flush. \<open>zero_count_outcome\<close>
  is the status, the AP record and the trace expected of the transfer: without a TAR
  write when none is due; ending at the TAR write when the link refuses it; the status
  that of the first flush otherwise.\<close>

definition tar_write_call :: "u8 \<Rightarrow> u32 \<Rightarrow> int \<Rightarrow> vcall \<times> int" where
  "tar_write_call n tar st = (Queue (AP_WRITE n MEM_AP_REG_TAR tar), st)"

definition tar_readback_calls :: "u8 \<Rightarrow> (nat \<Rightarrow> int) \<Rightarrow> nat \<Rightarrow> (vcall \<times> int) list" where
  "tar_readback_calls n rs k =
     (Queue (AP_READ n MEM_AP_REG_TAR (Var 0)), rs k)
     # (if rs k = ERROR_OK then [(Run, rs (Suc k))] else [])"

definition flush_calls :: "u8 \<Rightarrow> (nat \<Rightarrow> int) \<Rightarrow> nat \<Rightarrow> (vcall \<times> int) list" where
  "flush_calls n rs k =
     (Run, rs k) # (if rs k = ERROR_OK then [] else tar_readback_calls n rs (Suc k))"

definition zero_count_outcome ::
  "adiv5_ap \<Rightarrow> adiv5_dap \<Rightarrow> u32 \<Rightarrow> (int \<times> adiv5_ap \<times> (vcall \<times> int) list)" where
  "zero_count_outcome ap d tar =
     (let n = length (trace d) in
      if tar_write_due ap tar then
        (if replies d n = ERROR_OK
         then (replies d (Suc n), ap\<lparr>tar_value := tar\<rparr>,
               trace d @ tar_write_call (ap_num ap) tar ERROR_OK # flush_calls (ap_num ap) (replies d) (Suc n))
         else (replies d n, ap, trace d @ [tar_write_call (ap_num ap) tar (replies d n)]))
      else (replies d n, ap, trace d @ flush_calls (ap_num ap) (replies d) n))"

text \<open>The registers the target will observe once the journal is flushed with success;
  a four-byte write with address increment over a link that never fails; and the
  invariant that on such a link the CSW the target will observe is the CSW shadow.\<close>

definition observed :: "adiv5_dap \<Rightarrow> target" where
  "observed d = fst (exec_cmds (cmd_journal d) (tgt d))"

definition after_block_write :: "int \<times> adiv5_ap \<times> adiv5_dap" where
  "after_block_write =
     (case mem_ap_write_buf ap_default (dap_link all_ok) [0x11, 0x22, 0x33, 0x44] 4 1 0x100 of
        Some x \<Rightarrow> x | None \<Rightarrow> (ERROR_OK, ap_default, dap_link all_ok))"

definition csw_in_step :: "adiv5_ap \<Rightarrow> adiv5_dap \<Rightarrow> bool" where
  "csw_in_step ap d = ((\<forall>n. replies d n = ERROR_OK) \<and> t_csw (observed d) = csw_value ap)"

definition keeps_csw :: "adiv5_ap \<Rightarrow> adiv5_dap \<Rightarrow> adiv5_ap \<Rightarrow> adiv5_dap \<Rightarrow> bool" where
  "keeps_csw ap d ap' d' = (csw_in_step ap d \<longrightarrow> csw_in_step ap' d')"

text \<open>A memory in which every aligned word reads \<open>0x00000003\<close>: as a ROM table, every
  entry is present and non-zero. A DAP is \<open>steady\<close> over a memory when its link never
  fails, nothing is queued and the target holds that memory; it is \<open>calm\<close> when the journal
  holds CSW and TAR writes only.\<close>

definition rom_all3 :: "u32 \<Rightarrow> u8" where
  "rom_all3 a = (if a AND 3 = 0 then 3 else 0)"

definition steady :: "(u32 \<Rightarrow> u8) \<Rightarrow> adiv5_dap \<Rightarrow> bool" where
  "steady m d = ((\<forall>n. replies d n = ERROR_OK) \<and> cmd_journal d = [] \<and> t_mem (tgt d) = m)"

fun is_regwrite :: "dap_cmd \<Rightarrow> bool" where
  "is_regwrite (AP_WRITE n reg v) = (reg = MEM_AP_REG_CSW \<or> reg = MEM_AP_REG_TAR)"
| "is_regwrite c = False"

definition calm :: "adiv5_dap \<Rightarrow> bool" where
  "calm d = ((\<forall>n. replies d n = ERROR_OK) \<and> t_mem (tgt d) = rom_all3
             \<and> list_all is_regwrite (cmd_journal d))"

text \<open>A ROM table at address 0 with two present entries, naming the components at
  \<open>0x1000\<close> and \<open>0x2000\<close>; the second has device type \<open>0x15\<close>; the table's own CID is that
  of a ROM table. \<open>cant_read\<close> is the message both walks print for a component they cannot
  read. Then the read of entry 0 and of the first component's identification registers,
  over a link that fails once: at its fourth call for the display loop, at its sixth for
  the lookup.\<close>

definition rom_two :: "u32 \<Rightarrow> u8" where
  "rom_two a =
     (if a = 0x000 then 0x03 else if a = 0x001 then 0x10
      else if a = 0x004 then 0x03 else if a = 0x005 then 0x20
      else if a = 0x2FCC then 0x15
      else if a = 0xFF0 then 0x0D else if a = 0xFF4 then 0x10
      else if a = 0xFF8 then 0x05 else if a = 0xFFC then 0xB1
      else 0)"

definition cant_read :: string where
  "cant_read = ''Can't read component, the corresponding core might be turned off''"

definition entry0_read :: "int \<times> u32 \<times> adiv5_ap \<times> adiv5_dap" where
  "entry0_read = mem_ap_read_atomic_u32 ap_default (dap_over (fail_at 3) rom_two) (0 OR ucast (0 :: u16)) 0"

definition child_ids :: "int \<times> u32 \<times> u64 \<times> adiv5_ap \<times> adiv5_dap" where
  "child_ids =
     dap_read_part_id (fst (snd (snd entry0_read)))
       (log_msg ''Component base address'' (log_msg ''ROMTABLE'' (snd (snd (snd entry0_read)))))
       ((0 + (fst (snd entry0_read) AND 0xFFFFF000)) AND 0xFFFFF000) 0 0"

definition entry0_lookup :: "int \<times> u32 \<times> adiv5_ap \<times> adiv5_dap" where
  "entry0_lookup = mem_ap_read_atomic_u32 ap_default (dap_over (fail_at 5) rom_two) ((0 AND 0xFFFFF000) OR 0) 0"

definition child_cid1 :: "int \<times> u32 \<times> adiv5_ap \<times> adiv5_dap" where
  "child_cid1 =
     mem_ap_read_atomic_u32 (fst (snd (snd entry0_lookup))) (snd (snd (snd entry0_lookup)))
       (((0 AND 0xFFFFF000) + (fst (snd entry0_lookup) AND 0xFFFFF000)) OR 0xff4) 0"

section \<open>Properties of the register layer\<close>

lemma next_reply_all_ok:
  "\<forall>n. replies d n = ERROR_OK \<Longrightarrow> next_reply d = ERROR_OK"
  by (simp add: next_reply_def)

lemma setup_tar_ok:
  "next_reply d = ERROR_OK \<Longrightarrow>
   mem_ap_setup_tar ap d tar =
     (ERROR_OK, ap\<lparr>tar_value := tar\<rparr>,
      if tar_write_due ap tar
      then d\<lparr>cmd_journal := cmd_journal d @ [AP_WRITE (ap_num ap) MEM_AP_REG_TAR tar],
             trace := trace d @ [(Queue (AP_WRITE (ap_num ap) MEM_AP_REG_TAR tar), ERROR_OK)]\<rparr>
      else d)"
  by (auto simp: mem_ap_setup_tar_def tar_write_due_def dap_queue_ap_write_def dap_queue_def)

lemma replay_zero: "replay addrinc ap quirks sz ws 0 address = Some []"
  by (cases ws) simp_all

section \<open>Properties of the block engine\<close>

text \<open>
  C8. A block transfer whose size is not 1, 2 or 4, or whose address is not a multiple of
  the size while the AP has \<open>unaligned_access_bad\<close> set, returns
  \<open>ERROR_TARGET_UNALIGNED_ACCESS\<close> at once: the AP record and the DAP with its journal and
  its trace of vtable calls are returned as they were, so nothing was enqueued. This
  holds for \<open>mem_ap_write\<close> and for \<open>mem_ap_read\<close>, with and without address increment.
\<close>

theorem unaligned_access_rejected:
  "(sz \<noteq> 4 \<and> sz \<noteq> 2 \<and> sz \<noteq> 1) \<or> (unaligned_access_bad ap \<and> address mod sz \<noteq> 0) \<Longrightarrow>
     mem_ap_write ap d buffer sz count address addrinc = Some (ERROR_TARGET_UNALIGNED_ACCESS, ap, d)
   \<and> mem_ap_read ap d sz count address addrinc = Some (ERROR_TARGET_UNALIGNED_ACCESS, [], ap, d)"
proof (erule disjE)
  assume "sz \<noteq> 4 \<and> sz \<noteq> 2 \<and> sz \<noteq> 1"
  then show ?thesis
    by (simp add: mem_ap_write_def mem_ap_read_def)
next
  assume "unaligned_access_bad ap \<and> address mod sz \<noteq> 0"
  then have c: "(unaligned_access_bad ap \<and> address mod sz \<noteq> 0) = True"
    by simp
  show ?thesis
    unfolding mem_ap_write_def mem_ap_read_def c by simp
qed

theorem unaligned_access_rejected_witness:
  "mem_ap_write (ap_default\<lparr>unaligned_access_bad := True\<rparr>) (dap_link all_ok) [0xAA, 0xBB] 2 1 0x101 True
     = Some (ERROR_TARGET_UNALIGNED_ACCESS, ap_default\<lparr>unaligned_access_bad := True\<rparr>, dap_link all_ok)
   \<and> mem_ap_read (ap_default\<lparr>unaligned_access_bad := True\<rparr>) (dap_link all_ok) 2 1 0x101 True
     = Some (ERROR_TARGET_UNALIGNED_ACCESS, [], ap_default\<lparr>unaligned_access_bad := True\<rparr>, dap_link all_ok)
   \<and> mem_ap_write ap_default (dap_link all_ok) [0xAA, 0xBB, 0xCC] 3 1 0x100 True
     = Some (ERROR_TARGET_UNALIGNED_ACCESS, ap_default, dap_link all_ok)"
proof -
  have odd: "(0x101 :: u32) mod 2 \<noteq> 0" by simp
  have bad: "unaligned_access_bad (ap_default\<lparr>unaligned_access_bad := True\<rparr>)" by simp
  have three: "(3::u32) \<noteq> 4 \<and> (3::u32) \<noteq> 2 \<and> (3::u32) \<noteq> 1" by simp
  show ?thesis
    using unaligned_access_rejected [of 2 "ap_default\<lparr>unaligned_access_bad := True\<rparr>" "0x101"
            "dap_link all_ok" "[0xAA, 0xBB]" 1 True]
          unaligned_access_rejected [of 3 ap_default "0x100"
            "dap_link all_ok" "[0xAA, 0xBB, 0xCC]" 1 True]
          odd bad three
    by blast
qed

lemma write_loop_zero:
  "write_loop addrinc sz csw_size addr_xor ap d buffer 0 address = Some (ERROR_OK, ap, d)"
  by (simp add: write_loop.simps)

lemma read_loop_zero:
  "read_loop addrinc sz csw_size ap d k 0 address = Some (ERROR_OK, ap, d)"
  by (simp add: read_loop.simps)

lemma setup_tar_general:
  "mem_ap_setup_tar ap d tar =
     (if tar_write_due ap tar
      then (next_reply d, (if next_reply d = ERROR_OK then ap\<lparr>tar_value := tar\<rparr> else ap),
            d\<lparr>cmd_journal := (if next_reply d = ERROR_OK
                               then cmd_journal d @ [AP_WRITE (ap_num ap) MEM_AP_REG_TAR tar]
                               else cmd_journal d),
              trace := trace d @ [(Queue (AP_WRITE (ap_num ap) MEM_AP_REG_TAR tar), next_reply d)]\<rparr>)
      else (ERROR_OK, ap, d))"
  by (simp add: mem_ap_setup_tar_def tar_write_due_def dap_queue_ap_write_def dap_queue_def)

lemma write_outcome_Some: "write_outcome (Some (r, ap, d)) = Some (r, ap, trace d)"
  by (simp add: write_outcome_def)

lemma read_outcome_Some: "read_outcome (Some (r, bs, ap, d)) = Some (r, bs, ap, trace d)"
  by (simp add: read_outcome_def)

lemma write_finish_outcome:
  "replies d = rs \<Longrightarrow>
   write_outcome (Some (write_finish ERROR_OK ap d))
     = Some (rs (length (trace d)), ap, trace d @ flush_calls (ap_num ap) rs (length (trace d)))"
  by (auto simp: write_outcome_def write_finish_def dap_run_def flush_def dap_queue_ap_read_def
        dap_queue_def next_reply_def log_msg_def flush_calls_def tar_readback_calls_def
        split: prod.splits)

lemma read_finish_outcome:
  "replies d = rs \<Longrightarrow>
   read_outcome (read_finish addrinc sz 0 adr ERROR_OK ap d)
     = Some (rs (length (trace d)), [], ap, trace d @ flush_calls (ap_num ap) rs (length (trace d)))"
  by (auto simp: read_outcome_def read_finish_def dap_run_def flush_def dap_queue_ap_read_def
        dap_queue_def next_reply_def log_msg_def flush_calls_def tar_readback_calls_def
        replay_zero Let_def
        split: prod.splits)

text \<open>
  C7, as the code has it. A transfer of \<open>count = 0\<close> units with a legal size and an address
  the alignment policy admits queues no CSW and no DRW access on any link, but it is not
  free of transport traffic. A read whose scratch allocation fails returns \<open>ERROR_FAIL\<close>
  with nothing queued. Otherwise \<open>mem_ap_setup_tar\<close> runs before the loop and queues one TAR
  write exactly when it has to write (the wanted TAR differs from the cached one, or the
  cached CSW has an auto-increment mode). When the link refuses that write the transfer
  returns its status and does not flush. Otherwise the queue is flushed and the transfer
  returns the status of that flush, \<open>ERROR_OK\<close> exactly when the flush succeeds; after a
  failed flush it queues a read of TAR and, when that is accepted, flushes once more.
\<close>

theorem zero_count_transfer:
  assumes sz: "sz = 4 \<or> sz = 2 \<or> sz = 1"
    and al: "\<not> (unaligned_access_bad ap \<and> address mod sz \<noteq> 0)"
  shows "write_outcome (mem_ap_write ap d buffer sz 0 address addrinc)
           = Some (zero_count_outcome ap d (address XOR addr_xor_of (ti_be_32_quirks d) sz))
       \<and> read_outcome (mem_ap_read ap d sz 0 address addrinc)
           = (if malloc_ok d
              then (case zero_count_outcome ap d address of (r, ap', tr) \<Rightarrow> Some (r, [], ap', tr))
              else Some (ERROR_FAIL, [], ap, trace d))"
proof -
  have c1: "(sz \<noteq> 4 \<and> sz \<noteq> 2 \<and> sz \<noteq> 1) = False"
    using sz by blast
  have c2: "(unaligned_access_bad ap \<and> address mod sz \<noteq> 0) = False"
    using al by blast
  have w: "mem_ap_write ap d buffer sz 0 address addrinc =
           (case mem_ap_setup_tar ap d (address XOR addr_xor_of (ti_be_32_quirks d) sz) of
              (retval, ap1, d1) \<Rightarrow>
                if retval \<noteq> ERROR_OK then Some (retval, ap1, d1)
                else Some (write_finish ERROR_OK ap1 d1))"
    unfolding mem_ap_write_def c1 c2 by (simp add: write_loop_zero split: prod.splits)
  have r: "mem_ap_read ap d sz 0 address addrinc =
           (if \<not> malloc_ok d
            then Some (ERROR_FAIL, [], ap, log_msg ''Failed to allocate read buffer'' d)
            else case mem_ap_setup_tar ap d address of
              (retval, ap1, d1) \<Rightarrow>
                if retval \<noteq> ERROR_OK then Some (retval, [], ap1, d1)
                else read_finish addrinc sz 0 address ERROR_OK ap1 d1)"
    unfolding mem_ap_read_def c1 c2 by (simp add: read_loop_zero split: prod.splits)
  have same: "\<not> tar_write_due ap t \<Longrightarrow> ap\<lparr>tar_value := t\<rparr> = ap" for t
    by (simp add: tar_write_due_def)
  have W: "write_outcome (mem_ap_write ap d buffer sz 0 address addrinc)
           = Some (zero_count_outcome ap d (address XOR addr_xor_of (ti_be_32_quirks d) sz))"
    unfolding w setup_tar_general
    by (simp add: write_finish_outcome [where rs = "replies d"] zero_count_outcome_def Let_def
          next_reply_def tar_write_call_def write_outcome_Some same)
  have R: "read_outcome (mem_ap_read ap d sz 0 address addrinc)
           = (if malloc_ok d
              then (case zero_count_outcome ap d address of (r, ap', tr) \<Rightarrow> Some (r, [], ap', tr))
              else Some (ERROR_FAIL, [], ap, trace d))"
    unfolding r setup_tar_general
    by (simp add: read_finish_outcome [where rs = "replies d"] zero_count_outcome_def Let_def
          next_reply_def tar_write_call_def read_outcome_Some log_msg_def same)
  from W R show ?thesis ..
qed


theorem zero_count_transfer_witness:
  "write_outcome (mem_ap_write ap_default (dap_link all_ok) [] 4 0 0x100 True)
     = Some (ERROR_OK, ap_default\<lparr>tar_value := 0x100\<rparr>,
             [(Queue (AP_WRITE 0 MEM_AP_REG_TAR 0x100), ERROR_OK), (Run, ERROR_OK)])
   \<and> write_outcome (mem_ap_write ap_default (dap_link (fail_at 0)) [] 4 0 0x100 True)
     = Some (ERROR_FAIL, ap_default, [(Queue (AP_WRITE 0 MEM_AP_REG_TAR 0x100), ERROR_FAIL)])
   \<and> read_outcome (mem_ap_read (ap_default\<lparr>tar_value := 0x100\<rparr>) (dap_link (fail_at 0)) 4 0 0x100 False)
     = Some (ERROR_FAIL, [], ap_default\<lparr>tar_value := 0x100\<rparr>,
             [(Run, ERROR_FAIL), (Queue (AP_READ 0 MEM_AP_REG_TAR (Var 0)), ERROR_OK), (Run, ERROR_OK)])
   \<and> read_outcome (mem_ap_read ap_default ((dap_link all_ok)\<lparr>malloc_ok := False\<rparr>) 4 0 0x100 True)
     = Some (ERROR_FAIL, [], ap_default, [])"
proof -
  have a: "\<not> (unaligned_access_bad ap_default \<and> (0x100 :: u32) mod 4 \<noteq> 0)"
    by (simp add: ap_default_def)
  have a': "\<not> (unaligned_access_bad (ap_default\<lparr>tar_value := 0x100\<rparr>) \<and> (0x100 :: u32) mod 4 \<noteq> 0)"
    by (simp add: ap_default_def)
  have s: "(4 :: u32) = 4 \<or> (4 :: u32) = 2 \<or> (4 :: u32) = 1"
    by simp
  have w: "tar_write_due ap_default 0x100"
    by (simp add: tar_write_due_def ap_default_def)
  have nw: "\<not> tar_write_due (ap_default\<lparr>tar_value := 0x100\<rparr>) 0x100"
    by (simp add: tar_write_due_def ap_default_def)
  have n: "ap_num ap_default = 0"
    by (simp add: ap_default_def)
  have z1: "zero_count_outcome ap_default (dap_link all_ok) 0x100
            = (ERROR_OK, ap_default\<lparr>tar_value := 0x100\<rparr>,
               [(Queue (AP_WRITE 0 MEM_AP_REG_TAR 0x100), ERROR_OK), (Run, ERROR_OK)])"
    by (simp add: zero_count_outcome_def w n tar_write_call_def flush_calls_def dap_link_def all_ok_def)
  have z2: "zero_count_outcome ap_default (dap_link (fail_at 0)) 0x100
            = (ERROR_FAIL, ap_default, [(Queue (AP_WRITE 0 MEM_AP_REG_TAR 0x100), ERROR_FAIL)])"
    by (simp add: zero_count_outcome_def w n tar_write_call_def flush_calls_def dap_link_def fail_at_def
          ERROR_OK_def ERROR_FAIL_def)
  have z3: "zero_count_outcome (ap_default\<lparr>tar_value := 0x100\<rparr>) (dap_link (fail_at 0)) 0x100
            = (ERROR_FAIL, ap_default\<lparr>tar_value := 0x100\<rparr>,
               [(Run, ERROR_FAIL), (Queue (AP_READ 0 MEM_AP_REG_TAR (Var 0)), ERROR_OK), (Run, ERROR_OK)])"
    by (simp add: zero_count_outcome_def nw n tar_readback_calls_def flush_calls_def dap_link_def fail_at_def
          ERROR_OK_def ERROR_FAIL_def)
  have x: "addr_xor_of (ti_be_32_quirks d) 4 = 0" for d
    by (simp add: addr_xor_of_def)
  have m: "malloc_ok (dap_link (fail_at 0))" "\<not> malloc_ok ((dap_link all_ok)\<lparr>malloc_ok := False\<rparr>)"
    "trace ((dap_link all_ok)\<lparr>malloc_ok := False\<rparr>) = []"
    by (simp_all add: dap_link_def)
  show ?thesis
    using zero_count_transfer [OF s a, of "dap_link all_ok" "[]" True]
          zero_count_transfer [OF s a, of "dap_link (fail_at 0)" "[]" True]
          zero_count_transfer [OF s a', of "dap_link (fail_at 0)" "[]" False]
          zero_count_transfer [OF s a, of "(dap_link all_ok)\<lparr>malloc_ok := False\<rparr>" "[]" True]
    by (simp add: x z1 z2 z3 m)
qed

text \<open>
  C7, as the specification words it, fails: with \<open>count = 0\<close> the write below queues a
  TAR write, starts a flush, and when that flush fails returns the failure instead of
  \<open>ERROR_OK\<close> after one more queued read and flush.
\<close>

theorem zero_count_not_a_noop:
  "write_outcome (mem_ap_write_buf ap_default (dap_link (fail_at 1)) [] 4 0 0x100)
     = Some (ERROR_FAIL, ap_default\<lparr>tar_value := 0x100\<rparr>,
             [(Queue (AP_WRITE 0 MEM_AP_REG_TAR 0x100), ERROR_OK), (Run, ERROR_FAIL),
              (Queue (AP_READ 0 MEM_AP_REG_TAR (Var 0)), ERROR_OK), (Run, ERROR_OK)])"
  by (simp add: write_outcome_def mem_ap_write_buf_def mem_ap_write_def mem_ap_setup_tar_def
        dap_queue_ap_write_def dap_queue_ap_read_def dap_queue_def next_reply_def
        write_finish_def dap_run_def flush_def log_msg_def exec_cmd_def write_loop_zero
        ap_default_def dap_link_def fail_at_def addr_xor_of_def csw_size_of_def
        ERROR_OK_def ERROR_FAIL_def CSW_ADDRINC_MASK_def MEM_AP_REG_TAR_def
        MEM_AP_REG_CSW_def MEM_AP_REG_DRW_def target_zero_def)

section \<open>The shadows follow the queue\<close>

lemma last_ap_write_append:
  "last_ap_write n reg (tr @ tr') v0 = last_ap_write n reg tr' (last_ap_write n reg tr v0)"
  by (induction tr arbitrary: v0) auto

lemma tracksI:
  "trace d' = trace d @ tr \<Longrightarrow> ap_num ap' = ap_num ap
   \<Longrightarrow> csw_value ap' = last_ap_write (ap_num ap) MEM_AP_REG_CSW tr (csw_value ap)
   \<Longrightarrow> tar_value ap' = last_ap_write (ap_num ap) MEM_AP_REG_TAR tr (tar_value ap)
   \<Longrightarrow> tracks ap d ap' d'"
  by (simp add: tracks_def)

lemma tracksE:
  assumes "tracks ap d ap' d'"
  obtains tr where "trace d' = trace d @ tr" "ap_num ap' = ap_num ap"
    "csw_value ap' = last_ap_write (ap_num ap) MEM_AP_REG_CSW tr (csw_value ap)"
    "tar_value ap' = last_ap_write (ap_num ap) MEM_AP_REG_TAR tr (tar_value ap)"
proof -
  from assms have "trace d' = trace d @ drop (length (trace d)) (trace d')"
    by (metis append_take_drop_id tracks_def)
  with assms that show thesis
    by (simp add: tracks_def)
qed

lemma tracks_refl: "tracks ap d ap d"
  by (simp add: tracks_def)

lemma tracks_trans:
  assumes "tracks ap d ap1 d1" "tracks ap1 d1 ap2 d2"
  shows "tracks ap d ap2 d2"
proof -
  from assms(1) obtain t1 where 1: "trace d1 = trace d @ t1" "ap_num ap1 = ap_num ap"
    "csw_value ap1 = last_ap_write (ap_num ap) MEM_AP_REG_CSW t1 (csw_value ap)"
    "tar_value ap1 = last_ap_write (ap_num ap) MEM_AP_REG_TAR t1 (tar_value ap)"
    by (rule tracksE)
  from assms(2) obtain t2 where 2: "trace d2 = trace d1 @ t2" "ap_num ap2 = ap_num ap1"
    "csw_value ap2 = last_ap_write (ap_num ap1) MEM_AP_REG_CSW t2 (csw_value ap1)"
    "tar_value ap2 = last_ap_write (ap_num ap1) MEM_AP_REG_TAR t2 (tar_value ap1)"
    by (rule tracksE)
  show ?thesis
    by (rule tracksI [where tr = "t1 @ t2"]) (simp_all add: 1 2 last_ap_write_append)
qed

lemma tracks_log: "tracks ap d ap' d' \<Longrightarrow> tracks ap d ap' (log_msg s d')"
  by (simp add: tracks_def log_msg_def)

lemma tracks_queue_other:
  "dap_queue d c = (r, d') \<Longrightarrow> (\<And>v. c \<noteq> AP_WRITE (ap_num ap) MEM_AP_REG_CSW v)
   \<Longrightarrow> (\<And>v. c \<noteq> AP_WRITE (ap_num ap) MEM_AP_REG_TAR v) \<Longrightarrow> tracks ap d ap d'"
  by (rule tracksI [where tr = "[(Queue c, next_reply d)]"])
     (auto simp: dap_queue_def split: dap_cmd.splits)

lemma tracks_flush: "flush v d = (r, res, d') \<Longrightarrow> v = Run \<or> (\<exists>a b c t. v = Poll a b c t) \<Longrightarrow> tracks ap d ap d'"
  by (rule tracksI [where tr = "[(v, next_reply d)]"])
     (auto simp: flush_def split: prod.splits)

lemma tracks_run: "dap_run d = (r, res, d') \<Longrightarrow> tracks ap d ap d'"
  by (auto simp: dap_run_def intro: tracks_flush)

lemma tracks_setup_csw: "mem_ap_setup_csw ap d csw = (r, ap', d') \<Longrightarrow> tracks ap d ap' d'"
  apply (auto simp: mem_ap_setup_csw_def Let_def dap_queue_ap_write_def dap_queue_def tracks_refl
      split: if_splits prod.splits)
   apply (rule tracksI [where tr = "[(Queue (AP_WRITE (ap_num ap) MEM_AP_REG_CSW (csw OR CSW_DBGSWENABLE OR CSW_MASTER_DEBUG OR CSW_HPROT OR csw_default ap)), next_reply d)]"]; simp add: MEM_AP_REG_CSW_def MEM_AP_REG_TAR_def)
  apply (rule tracksI [where tr = "[(Queue (AP_WRITE (ap_num ap) MEM_AP_REG_CSW (csw OR CSW_DBGSWENABLE OR CSW_MASTER_DEBUG OR CSW_HPROT OR csw_default ap)), next_reply d)]"]; simp add: MEM_AP_REG_CSW_def MEM_AP_REG_TAR_def)
  done

lemma tracks_setup_tar: "mem_ap_setup_tar ap d tar = (r, ap', d') \<Longrightarrow> tracks ap d ap' d'"
  apply (auto simp: mem_ap_setup_tar_def Let_def dap_queue_ap_write_def dap_queue_def tracks_refl
      split: if_splits prod.splits)
   apply (rule tracksI [where tr = "[(Queue (AP_WRITE (ap_num ap) MEM_AP_REG_TAR tar), next_reply d)]"]; simp add: MEM_AP_REG_CSW_def MEM_AP_REG_TAR_def)+
  done


lemma tracks_ap_write_drw:
  "dap_queue_ap_write ap d MEM_AP_REG_DRW v = (r, d') \<Longrightarrow> tracks ap d ap d'"
  unfolding dap_queue_ap_write_def
  by (erule tracks_queue_other) (simp_all add: MEM_AP_REG_DRW_def MEM_AP_REG_CSW_def MEM_AP_REG_TAR_def)

lemma tracks_ap_read:
  "dap_queue_ap_read ap d reg dst = (r, d') \<Longrightarrow> tracks ap d ap d'"
  unfolding dap_queue_ap_read_def
  by (erule tracks_queue_other) simp_all

lemma tracks_write_step:
  "write_step addrinc sz csw_size addr_xor ap d buffer nbytes address = WNext ap' d' b' n' a'
   \<or> write_step addrinc sz csw_size addr_xor ap d buffer nbytes address = WBreak r ap' d'
   \<Longrightarrow> tracks ap d ap' d'"
  unfolding write_step_def Let_def
  by (auto split: prod.splits if_splits
        dest!: tracks_setup_csw tracks_setup_tar tracks_ap_write_drw
        intro: tracks_trans)

lemma tracks_write_loop:
  "write_loop addrinc sz csw_size addr_xor ap d buffer nbytes address = Some (r, ap', d')
   \<Longrightarrow> tracks ap d ap' d'"
proof (induction addrinc sz csw_size addr_xor ap d buffer nbytes address rule: write_loop.induct)
  case (1 addrinc sz csw_size addr_xor ap d buffer nbytes address)
  show ?case
  proof (cases "nbytes = 0")
    case True
    with "1.prems" show ?thesis by (simp add: tracks_refl write_loop.simps)
  next
    case False
    show ?thesis
    proof (cases "write_step addrinc sz csw_size addr_xor ap d buffer nbytes address")
      case (WBreak r1 ap1 d1)
      with False "1.prems" have "r1 = r" "ap1 = ap'" "d1 = d'" by (simp_all add: write_loop.simps)
      with WBreak show ?thesis by (auto intro: tracks_write_step)
    next
      case (WNext ap1 d1 b1 n1 a1)
      with False "1.prems" have "write_loop addrinc sz csw_size addr_xor ap1 d1 b1 n1 a1 = Some (r, ap', d')"
        by (simp add: write_loop.simps)
      with False WNext have "tracks ap1 d1 ap' d'"
        by (rule "1.IH")
      moreover from WNext have "tracks ap d ap1 d1" by (auto intro: tracks_write_step)
      ultimately show ?thesis by (blast intro: tracks_trans)
    next
      case WFault
      with False "1.prems" show ?thesis by (simp add: write_loop.simps)
    qed
  qed
qed

lemma tracks_write_finish:
  "write_finish r0 ap d = (r, ap', d') \<Longrightarrow> tracks ap d ap' d'"
  unfolding write_finish_def
  by (auto split: prod.splits if_splits
        dest!: tracks_run tracks_ap_read
        intro: tracks_trans tracks_log tracks_refl)

lemma tracks_mem_ap_write:
  "mem_ap_write ap d buffer sz count address addrinc = Some (r, ap', d') \<Longrightarrow> tracks ap d ap' d'"
  unfolding mem_ap_write_def
  by (auto split: prod.splits if_splits option.splits
        dest!: tracks_setup_tar tracks_write_loop tracks_write_finish
        intro: tracks_trans tracks_refl)


lemma tracks_read_step:
  "read_step addrinc sz csw_size ap d k nbytes address = RNext ap' d' n' a'
   \<or> read_step addrinc sz csw_size ap d k nbytes address = RBreak r ap' d'
   \<Longrightarrow> tracks ap d ap' d'"
  unfolding read_step_def Let_def
  by (auto split: prod.splits if_splits
        dest!: tracks_setup_csw tracks_setup_tar tracks_ap_read
        intro: tracks_trans)

lemma tracks_read_loop:
  "read_loop addrinc sz csw_size ap d k nbytes address = Some (r, ap', d')
   \<Longrightarrow> tracks ap d ap' d'"
proof (induction addrinc sz csw_size ap d k nbytes address rule: read_loop.induct)
  case (1 addrinc sz csw_size ap d k nbytes address)
  show ?case
  proof (cases "nbytes = 0")
    case True
    with "1.prems" show ?thesis by (simp add: tracks_refl read_loop.simps)
  next
    case False
    show ?thesis
    proof (cases "read_step addrinc sz csw_size ap d k nbytes address")
      case (RBreak r1 ap1 d1)
      with False "1.prems" have "r1 = r" "ap1 = ap'" "d1 = d'"
        by (simp_all add: read_loop.simps)
      with RBreak show ?thesis by (auto intro: tracks_read_step)
    next
      case (RNext ap1 d1 n1 a1)
      with False "1.prems" have "read_loop addrinc sz csw_size ap1 d1 (Suc k) n1 a1 = Some (r, ap', d')"
        by (simp add: read_loop.simps)
      with False RNext have "tracks ap1 d1 ap' d'"
        by (rule "1.IH")
      moreover from RNext have "tracks ap d ap1 d1" by (auto intro: tracks_read_step)
      ultimately show ?thesis by (blast intro: tracks_trans)
    next
      case RFault
      with False "1.prems" show ?thesis by (simp add: read_loop.simps)
    qed
  qed
qed

lemma tracks_read_finish:
  "read_finish addrinc sz count adr r0 ap d = Some (r, bs, ap', d') \<Longrightarrow> tracks ap d ap' d'"
  unfolding read_finish_def Let_def
  by (auto split: prod.splits if_splits option.splits
        dest!: tracks_run tracks_ap_read
        intro: tracks_trans tracks_log tracks_refl)

lemma tracks_mem_ap_read:
  "mem_ap_read ap d sz count address addrinc = Some (r, bs, ap', d') \<Longrightarrow> tracks ap d ap' d'"
  unfolding mem_ap_read_def
  by (auto split: prod.splits if_splits option.splits
        dest!: tracks_setup_tar tracks_read_loop tracks_read_finish
        intro: tracks_trans tracks_refl tracks_log)

lemma exec_cmds_append:
  "fst (exec_cmds (xs @ ys) g) = fst (exec_cmds ys (fst (exec_cmds xs g)))"
  by (induction xs arbitrary: g) (simp_all add: split_beta)

lemma exec_cmd_csw:
  "t_csw (fst (exec_cmd c g)) =
     (case c of AP_WRITE n reg v \<Rightarrow> if reg = MEM_AP_REG_CSW then v else t_csw g | _ \<Rightarrow> t_csw g)"
  by (simp add: exec_cmd_def split: dap_cmd.splits)

lemma observed_queue:
  "dap_queue d c = (r, d') \<Longrightarrow>
   replies d' = replies d \<and> r = next_reply d
   \<and> observed d' = (if next_reply d = ERROR_OK then fst (exec_cmd c (observed d)) else observed d)"
  by (auto simp: dap_queue_def observed_def exec_cmds_append split_beta)

lemma keeps_refl: "keeps_csw ap d ap d"
  by (simp add: keeps_csw_def)

lemma keeps_trans: "keeps_csw ap d ap1 d1 \<Longrightarrow> keeps_csw ap1 d1 ap2 d2 \<Longrightarrow> keeps_csw ap d ap2 d2"
  by (simp add: keeps_csw_def)

lemma keeps_log: "keeps_csw ap d ap' d' \<Longrightarrow> keeps_csw ap d ap' (log_msg s d')"
  by (simp add: keeps_csw_def csw_in_step_def log_msg_def observed_def)

lemma keeps_queue_other:
  "dap_queue d c = (r, d') \<Longrightarrow> (\<And>n v. c \<noteq> AP_WRITE n MEM_AP_REG_CSW v) \<Longrightarrow> keeps_csw ap d ap d'"
  unfolding keeps_csw_def csw_in_step_def
  by (frule observed_queue) (auto simp: exec_cmd_csw dap_queue_def split: dap_cmd.splits)

lemma keeps_flush: "flush v d = (r, res, d') \<Longrightarrow> keeps_csw ap d ap d'"
  by (auto simp: keeps_csw_def csw_in_step_def flush_def observed_def next_reply_def
        split: prod.splits)

lemma keeps_run: "dap_run d = (r, res, d') \<Longrightarrow> keeps_csw ap d ap d'"
  by (auto simp: dap_run_def intro: keeps_flush)

lemma keeps_setup_csw: "mem_ap_setup_csw ap d csw = (r, ap', d') \<Longrightarrow> keeps_csw ap d ap' d'"
  unfolding keeps_csw_def csw_in_step_def mem_ap_setup_csw_def Let_def dap_queue_ap_write_def
  by (auto simp: exec_cmd_csw next_reply_def dest!: observed_queue split: if_splits prod.splits)

lemma keeps_setup_tar: "mem_ap_setup_tar ap d tar = (r, ap', d') \<Longrightarrow> keeps_csw ap d ap' d'"
  unfolding keeps_csw_def csw_in_step_def mem_ap_setup_tar_def dap_queue_ap_write_def
  by (auto simp: exec_cmd_csw next_reply_def MEM_AP_REG_TAR_def MEM_AP_REG_CSW_def
        dest!: observed_queue split: if_splits prod.splits)


lemma keeps_ap_write_drw:
  "dap_queue_ap_write ap d MEM_AP_REG_DRW v = (r, d') \<Longrightarrow> keeps_csw ap d ap d'"
  unfolding dap_queue_ap_write_def
  by (erule keeps_queue_other) (simp add: MEM_AP_REG_DRW_def MEM_AP_REG_CSW_def)

lemma keeps_ap_read:
  "dap_queue_ap_read ap d reg dst = (r, d') \<Longrightarrow> keeps_csw ap d ap d'"
  unfolding dap_queue_ap_read_def
  by (erule keeps_queue_other) simp

lemma keeps_write_step:
  "write_step addrinc sz csw_size addr_xor ap d buffer nbytes address = WNext ap' d' b' n' a'
   \<or> write_step addrinc sz csw_size addr_xor ap d buffer nbytes address = WBreak r ap' d'
   \<Longrightarrow> keeps_csw ap d ap' d'"
  unfolding write_step_def Let_def
  by (auto split: prod.splits if_splits
        dest!: keeps_setup_csw keeps_setup_tar keeps_ap_write_drw
        intro: keeps_trans)

lemma keeps_write_loop:
  "write_loop addrinc sz csw_size addr_xor ap d buffer nbytes address = Some (r, ap', d')
   \<Longrightarrow> keeps_csw ap d ap' d'"
proof (induction addrinc sz csw_size addr_xor ap d buffer nbytes address rule: write_loop.induct)
  case (1 addrinc sz csw_size addr_xor ap d buffer nbytes address)
  show ?case
  proof (cases "nbytes = 0")
    case True
    with "1.prems" show ?thesis by (simp add: keeps_refl write_loop.simps)
  next
    case False
    show ?thesis
    proof (cases "write_step addrinc sz csw_size addr_xor ap d buffer nbytes address")
      case (WBreak r1 ap1 d1)
      with False "1.prems" have "r1 = r" "ap1 = ap'" "d1 = d'" by (simp_all add: write_loop.simps)
      with WBreak show ?thesis by (auto intro: keeps_write_step)
    next
      case (WNext ap1 d1 b1 n1 a1)
      with False "1.prems" have "write_loop addrinc sz csw_size addr_xor ap1 d1 b1 n1 a1 = Some (r, ap', d')"
        by (simp add: write_loop.simps)
      with False WNext have "keeps_csw ap1 d1 ap' d'"
        by (rule "1.IH")
      moreover from WNext have "keeps_csw ap d ap1 d1" by (auto intro: keeps_write_step)
      ultimately show ?thesis by (blast intro: keeps_trans)
    next
      case WFault
      with False "1.prems" show ?thesis by (simp add: write_loop.simps)
    qed
  qed
qed

lemma keeps_write_finish:
  "write_finish r0 ap d = (r, ap', d') \<Longrightarrow> keeps_csw ap d ap' d'"
  unfolding write_finish_def
  by (auto split: prod.splits if_splits
        dest!: keeps_run keeps_ap_read
        intro: keeps_trans keeps_log keeps_refl)

lemma keeps_mem_ap_write:
  "mem_ap_write ap d buffer sz count address addrinc = Some (r, ap', d') \<Longrightarrow> keeps_csw ap d ap' d'"
  unfolding mem_ap_write_def
  by (auto split: prod.splits if_splits option.splits
        dest!: keeps_setup_tar keeps_write_loop keeps_write_finish
        intro: keeps_trans keeps_refl)

lemma keeps_read_step:
  "read_step addrinc sz csw_size ap d k nbytes address = RNext ap' d' n' a'
   \<or> read_step addrinc sz csw_size ap d k nbytes address = RBreak r ap' d'
   \<Longrightarrow> keeps_csw ap d ap' d'"
  unfolding read_step_def Let_def
  by (auto split: prod.splits if_splits
        dest!: keeps_setup_csw keeps_setup_tar keeps_ap_read
        intro: keeps_trans)

lemma keeps_read_loop:
  "read_loop addrinc sz csw_size ap d k nbytes address = Some (r, ap', d')
   \<Longrightarrow> keeps_csw ap d ap' d'"
proof (induction addrinc sz csw_size ap d k nbytes address rule: read_loop.induct)
  case (1 addrinc sz csw_size ap d k nbytes address)
  show ?case
  proof (cases "nbytes = 0")
    case True
    with "1.prems" show ?thesis by (simp add: keeps_refl read_loop.simps)
  next
    case False
    show ?thesis
    proof (cases "read_step addrinc sz csw_size ap d k nbytes address")
      case (RBreak r1 ap1 d1)
      with False "1.prems" have "r1 = r" "ap1 = ap'" "d1 = d'"
        by (simp_all add: read_loop.simps)
      with RBreak show ?thesis by (auto intro: keeps_read_step)
    next
      case (RNext ap1 d1 n1 a1)
      with False "1.prems" have "read_loop addrinc sz csw_size ap1 d1 (Suc k) n1 a1 = Some (r, ap', d')"
        by (simp add: read_loop.simps)
      with False RNext have "keeps_csw ap1 d1 ap' d'"
        by (rule "1.IH")
      moreover from RNext have "keeps_csw ap d ap1 d1" by (auto intro: keeps_read_step)
      ultimately show ?thesis by (blast intro: keeps_trans)
    next
      case RFault
      with False "1.prems" show ?thesis by (simp add: read_loop.simps)
    qed
  qed
qed

lemma keeps_read_finish:
  "read_finish addrinc sz count adr r0 ap d = Some (r, bs, ap', d') \<Longrightarrow> keeps_csw ap d ap' d'"
  unfolding read_finish_def Let_def
  by (auto split: prod.splits if_splits option.splits
        dest!: keeps_run keeps_ap_read
        intro: keeps_trans keeps_log keeps_refl)

lemma keeps_mem_ap_read:
  "mem_ap_read ap d sz count address addrinc = Some (r, bs, ap', d') \<Longrightarrow> keeps_csw ap d ap' d'"
  unfolding mem_ap_read_def
  by (auto split: prod.splits if_splits option.splits
        dest!: keeps_setup_tar keeps_read_loop keeps_read_finish
        intro: keeps_trans keeps_refl keeps_log)

lemma setup_csw_elided:
  "csw_effective ap csw = csw_value ap \<Longrightarrow> mem_ap_setup_csw ap d csw = (ERROR_OK, ap, d)"
  by (simp add: mem_ap_setup_csw_def csw_effective_def)

lemma setup_tar_elided:
  "tar = tar_value ap \<Longrightarrow> csw_value ap AND CSW_ADDRINC_MASK = 0
   \<Longrightarrow> mem_ap_setup_tar ap d tar = (ERROR_OK, ap, d)"
  by (simp add: mem_ap_setup_tar_def)

lemma setup_tar_not_elided:
  "csw_value ap AND CSW_ADDRINC_MASK \<noteq> 0 \<Longrightarrow>
   trace (snd (snd (mem_ap_setup_tar ap d tar)))
     = trace d @ [(Queue (AP_WRITE (ap_num ap) MEM_AP_REG_TAR tar), next_reply d)]"
  by (simp add: mem_ap_setup_tar_def dap_queue_ap_write_def dap_queue_def)

lemma setup_tar_observed:
  assumes "\<forall>n. replies d n = ERROR_OK"
    and "csw_value ap AND CSW_ADDRINC_MASK = 0 \<longrightarrow> t_tar (observed d) = tar_value ap"
    and "mem_ap_setup_tar ap d tar = (r, ap', d')"
  shows "r = ERROR_OK \<and> t_tar (observed d') = tar_value ap'"
  using assms
  unfolding mem_ap_setup_tar_def dap_queue_ap_write_def
  by (auto simp: exec_cmd_def next_reply_def MEM_AP_REG_TAR_def MEM_AP_REG_CSW_def
        dest!: observed_queue split: if_splits prod.splits)

text \<open>
  C2, as the code has it. Nothing in the MEM-AP layer invalidates the shadows. Whatever a
  block transfer, \<open>mem_ap_setup_csw\<close>, \<open>mem_ap_setup_tar\<close> or \<open>dap_run\<close> returns, and so
  also when a flush fails, the AP's \<open>csw_value\<close> and \<open>tar_value\<close> are the last values the
  transport queue accepted for CSW and TAR during the call (and are unchanged when it
  accepted none). In every state, and so also after a failed flush, \<open>mem_ap_setup_csw\<close>
  makes no call when the wanted CSW with the default bits equals the shadow, and
  \<open>mem_ap_setup_tar\<close> makes no call when the wanted TAR equals the shadow and the CSW
  shadow has no auto-increment mode; with an auto-increment mode in the CSW shadow it
  queues the TAR write whatever the TAR shadow is. On a link that never fails, a CSW
  shadow that equals the CSW the target will observe still does so after each of these
  calls; and after \<open>mem_ap_setup_tar\<close> the TAR the target will observe is the TAR shadow,
  provided it was so before the call or the CSW shadow has an auto-increment mode.
\<close>

theorem shadows_track_queue:
  "(mem_ap_write ap d buffer sz count address addrinc = Some (r, ap', d') \<longrightarrow> tracks ap d ap' d')
   \<and> (mem_ap_read ap d sz count address addrinc = Some (r, bs, ap', d') \<longrightarrow> tracks ap d ap' d')
   \<and> (mem_ap_setup_csw ap d csw = (r, ap', d') \<longrightarrow> tracks ap d ap' d')
   \<and> (mem_ap_setup_tar ap d tar = (r, ap', d') \<longrightarrow> tracks ap d ap' d')
   \<and> (dap_run d = (r, res, d') \<longrightarrow> tracks ap d ap d')
   \<and> (csw_effective ap csw = csw_value ap \<longrightarrow> mem_ap_setup_csw ap d csw = (ERROR_OK, ap, d))
   \<and> (tar = tar_value ap \<and> csw_value ap AND CSW_ADDRINC_MASK = 0
        \<longrightarrow> mem_ap_setup_tar ap d tar = (ERROR_OK, ap, d))
   \<and> (csw_value ap AND CSW_ADDRINC_MASK \<noteq> 0
        \<longrightarrow> trace (snd (snd (mem_ap_setup_tar ap d tar)))
            = trace d @ [(Queue (AP_WRITE (ap_num ap) MEM_AP_REG_TAR tar), next_reply d)])
   \<and> ((\<forall>n. replies d n = ERROR_OK) \<and> t_csw (observed d) = csw_value ap
        \<longrightarrow> (mem_ap_write ap d buffer sz count address addrinc = Some (r, ap', d')
               \<longrightarrow> t_csw (observed d') = csw_value ap')
          \<and> (mem_ap_read ap d sz count address addrinc = Some (r, bs, ap', d')
               \<longrightarrow> t_csw (observed d') = csw_value ap')
          \<and> (mem_ap_setup_csw ap d csw = (r, ap', d') \<longrightarrow> t_csw (observed d') = csw_value ap')
          \<and> (mem_ap_setup_tar ap d tar = (r, ap', d') \<longrightarrow> t_csw (observed d') = csw_value ap')
          \<and> (dap_run d = (r, res, d') \<longrightarrow> t_csw (observed d') = csw_value ap))
   \<and> ((\<forall>n. replies d n = ERROR_OK)
        \<and> (csw_value ap AND CSW_ADDRINC_MASK = 0 \<longrightarrow> t_tar (observed d) = tar_value ap)
        \<and> mem_ap_setup_tar ap d tar = (r, ap', d')
        \<longrightarrow> r = ERROR_OK \<and> t_tar (observed d') = tar_value ap')"
proof -
  have t: "(mem_ap_write ap d buffer sz count address addrinc = Some (r, ap', d') \<longrightarrow> tracks ap d ap' d')
   \<and> (mem_ap_read ap d sz count address addrinc = Some (r, bs, ap', d') \<longrightarrow> tracks ap d ap' d')
   \<and> (mem_ap_setup_csw ap d csw = (r, ap', d') \<longrightarrow> tracks ap d ap' d')
   \<and> (mem_ap_setup_tar ap d tar = (r, ap', d') \<longrightarrow> tracks ap d ap' d')
   \<and> (dap_run d = (r, res, d') \<longrightarrow> tracks ap d ap d')"
    by (blast intro: tracks_mem_ap_write tracks_mem_ap_read tracks_setup_csw tracks_setup_tar tracks_run)
  have e1: "csw_effective ap csw = csw_value ap \<longrightarrow> mem_ap_setup_csw ap d csw = (ERROR_OK, ap, d)"
    by (simp add: setup_csw_elided)
  have e2: "tar = tar_value ap \<and> csw_value ap AND CSW_ADDRINC_MASK = 0
        \<longrightarrow> mem_ap_setup_tar ap d tar = (ERROR_OK, ap, d)"
    by (simp add: setup_tar_elided)
  have e3: "csw_value ap AND CSW_ADDRINC_MASK \<noteq> 0
        \<longrightarrow> trace (snd (snd (mem_ap_setup_tar ap d tar)))
            = trace d @ [(Queue (AP_WRITE (ap_num ap) MEM_AP_REG_TAR tar), next_reply d)]"
    by (simp add: setup_tar_not_elided)
  have k: "csw_in_step ap d \<Longrightarrow> keeps_csw ap d a1 d1 \<Longrightarrow> t_csw (observed d1) = csw_value a1" for a1 d1
    by (simp add: keeps_csw_def csw_in_step_def)
  have c: "(\<forall>n. replies d n = ERROR_OK) \<and> t_csw (observed d) = csw_value ap
        \<longrightarrow> (mem_ap_write ap d buffer sz count address addrinc = Some (r, ap', d')
               \<longrightarrow> t_csw (observed d') = csw_value ap')
          \<and> (mem_ap_read ap d sz count address addrinc = Some (r, bs, ap', d')
               \<longrightarrow> t_csw (observed d') = csw_value ap')
          \<and> (mem_ap_setup_csw ap d csw = (r, ap', d') \<longrightarrow> t_csw (observed d') = csw_value ap')
          \<and> (mem_ap_setup_tar ap d tar = (r, ap', d') \<longrightarrow> t_csw (observed d') = csw_value ap')
          \<and> (dap_run d = (r, res, d') \<longrightarrow> t_csw (observed d') = csw_value ap)"
  proof
    assume "(\<forall>n. replies d n = ERROR_OK) \<and> t_csw (observed d) = csw_value ap"
    then have s: "csw_in_step ap d"
      by (simp add: csw_in_step_def)
    show "(mem_ap_write ap d buffer sz count address addrinc = Some (r, ap', d')
               \<longrightarrow> t_csw (observed d') = csw_value ap')
          \<and> (mem_ap_read ap d sz count address addrinc = Some (r, bs, ap', d')
               \<longrightarrow> t_csw (observed d') = csw_value ap')
          \<and> (mem_ap_setup_csw ap d csw = (r, ap', d') \<longrightarrow> t_csw (observed d') = csw_value ap')
          \<and> (mem_ap_setup_tar ap d tar = (r, ap', d') \<longrightarrow> t_csw (observed d') = csw_value ap')
          \<and> (dap_run d = (r, res, d') \<longrightarrow> t_csw (observed d') = csw_value ap)"
      by (blast intro: k [OF s] keeps_mem_ap_write keeps_mem_ap_read keeps_setup_csw
            keeps_setup_tar keeps_run)
  qed
  have o: "(\<forall>n. replies d n = ERROR_OK)
        \<and> (csw_value ap AND CSW_ADDRINC_MASK = 0 \<longrightarrow> t_tar (observed d) = tar_value ap)
        \<and> mem_ap_setup_tar ap d tar = (r, ap', d')
        \<longrightarrow> r = ERROR_OK \<and> t_tar (observed d') = tar_value ap'"
    using setup_tar_observed [of d ap tar r ap' d'] by blast
  from t e1 e2 e3 c o show ?thesis
    by blast
qed


theorem shadows_track_queue_witness:
  "mem_ap_write ap_default (dap_link (fail_at 3)) [0xAA] 1 1 0x100 False \<noteq> None
   \<and> fst after_failed_flush = ERROR_FAIL
   \<and> tracks ap_default (dap_link (fail_at 3))
        (fst (snd after_failed_flush)) (snd (snd after_failed_flush))
   \<and> mem_ap_setup_csw (fst (snd after_failed_flush)) (snd (snd after_failed_flush))
        (CSW_8BIT OR CSW_ADDRINC_OFF)
       = (ERROR_OK, fst (snd after_failed_flush), snd (snd after_failed_flush))
   \<and> mem_ap_setup_tar (fst (snd after_failed_flush)) (snd (snd after_failed_flush)) 0x100
       = (ERROR_OK, fst (snd after_failed_flush), snd (snd after_failed_flush))
   \<and> mem_ap_write ap_default (dap_link all_ok) [0x11, 0x22, 0x33, 0x44] 4 1 0x100 True \<noteq> None
   \<and> fst after_block_write = ERROR_OK
   \<and> t_csw (observed (snd (snd after_block_write))) = csw_value (fst (snd after_block_write))
   \<and> trace (snd (snd (mem_ap_setup_tar (fst (snd after_block_write)) (snd (snd after_block_write)) 0x100)))
       = trace (snd (snd after_block_write))
         @ [(Queue (AP_WRITE 0 MEM_AP_REG_TAR 0x100), ERROR_OK)]
   \<and> t_tar (observed (snd (snd (mem_ap_setup_tar ap_default (dap_link all_ok) 0x100))))
       = tar_value (fst (snd (mem_ap_setup_tar ap_default (dap_link all_ok) 0x100)))"
proof -
  have ne: "mem_ap_write ap_default (dap_link (fail_at 3)) [0xAA] 1 1 0x100 False \<noteq> None"
    by code_simp
  then obtain r ap' d' where
    x: "mem_ap_write ap_default (dap_link (fail_at 3)) [0xAA] 1 1 0x100 False = Some (r, ap', d')"
    by auto
  then have aff: "after_failed_flush = (r, ap', d')"
    by (simp add: after_failed_flush_def mem_ap_write_buf_noincr_def)
  have f: "fst after_failed_flush = ERROR_FAIL"
    by code_simp
  have e: "csw_effective (fst (snd after_failed_flush)) (CSW_8BIT OR CSW_ADDRINC_OFF)
             = csw_value (fst (snd after_failed_flush))"
    "tar_value (fst (snd after_failed_flush)) = 0x100"
    "csw_value (fst (snd after_failed_flush)) AND CSW_ADDRINC_MASK = 0"
    by code_simp+
  note inst1 = shadows_track_queue [of ap_default "dap_link (fail_at 3)" "[0xAA]" 1 1 "0x100" False r ap' d']
  note inst2 = shadows_track_queue [of ap' d' "[]" 1 0 0 False 0 ap' d' "[]" "CSW_8BIT OR CSW_ADDRINC_OFF"
      "0x100" "[]"]
  from inst1 x have "tracks ap_default (dap_link (fail_at 3)) ap' d'"
    by simp
  then have t: "tracks ap_default (dap_link (fail_at 3))
                  (fst (snd after_failed_flush)) (snd (snd after_failed_flush))"
    by (simp add: aff)
  from e have e': "csw_effective ap' (CSW_8BIT OR CSW_ADDRINC_OFF) = csw_value ap'"
    "0x100 = tar_value ap'" "csw_value ap' AND CSW_ADDRINC_MASK = 0"
    by (simp_all add: aff)
  from inst2 e' have "mem_ap_setup_csw ap' d' (CSW_8BIT OR CSW_ADDRINC_OFF) = (ERROR_OK, ap', d')"
    "mem_ap_setup_tar ap' d' 0x100 = (ERROR_OK, ap', d')"
    by blast+
  then have el: "mem_ap_setup_csw (fst (snd after_failed_flush)) (snd (snd after_failed_flush))
        (CSW_8BIT OR CSW_ADDRINC_OFF)
       = (ERROR_OK, fst (snd after_failed_flush), snd (snd after_failed_flush))"
    "mem_ap_setup_tar (fst (snd after_failed_flush)) (snd (snd after_failed_flush)) 0x100
       = (ERROR_OK, fst (snd after_failed_flush), snd (snd after_failed_flush))"
    by (simp_all add: aff)
  have ne2: "mem_ap_write ap_default (dap_link all_ok) [0x11, 0x22, 0x33, 0x44] 4 1 0x100 True \<noteq> None"
    by code_simp
  then obtain r2 ap2 d2 where
    y: "mem_ap_write ap_default (dap_link all_ok) [0x11, 0x22, 0x33, 0x44] 4 1 0x100 True = Some (r2, ap2, d2)"
    by auto
  then have abw: "after_block_write = (r2, ap2, d2)"
    by (simp add: after_block_write_def mem_ap_write_buf_def)
  have f2: "fst after_block_write = ERROR_OK"
    by code_simp
  have h: "\<forall>n. replies (dap_link all_ok) n = ERROR_OK"
    "t_csw (observed (dap_link all_ok)) = csw_value ap_default"
    "csw_value ap_default AND CSW_ADDRINC_MASK = 0 \<longrightarrow> t_tar (observed (dap_link all_ok)) = tar_value ap_default"
    by (simp_all add: dap_link_def all_ok_def observed_def target_zero_def ap_default_def)
  note inst3 = shadows_track_queue [of ap_default "dap_link all_ok" "[0x11, 0x22, 0x33, 0x44]" 4 1 "0x100" True
      r2 ap2 d2]
  from inst3 y h have "t_csw (observed d2) = csw_value ap2"
    by blast
  then have c: "t_csw (observed (snd (snd after_block_write))) = csw_value (fst (snd after_block_write))"
    by (simp add: abw)
  have inc: "csw_value (fst (snd after_block_write)) AND CSW_ADDRINC_MASK \<noteq> 0"
    "ap_num (fst (snd after_block_write)) = 0"
    "next_reply (snd (snd after_block_write)) = ERROR_OK"
    by code_simp+
  note inst4 = shadows_track_queue [of ap2 d2 "[]" 1 0 0 False 0 ap2 d2 "[]" 0 "0x100" "[]"]
  from inc have inc': "csw_value ap2 AND CSW_ADDRINC_MASK \<noteq> 0" "ap_num ap2 = 0" "next_reply d2 = ERROR_OK"
    by (simp_all add: abw)
  from inst4 inc' have "trace (snd (snd (mem_ap_setup_tar ap2 d2 0x100)))
       = trace d2 @ [(Queue (AP_WRITE 0 MEM_AP_REG_TAR 0x100), ERROR_OK)]"
    by simp
  then have ne3: "trace (snd (snd (mem_ap_setup_tar (fst (snd after_block_write)) (snd (snd after_block_write)) 0x100)))
       = trace (snd (snd after_block_write))
         @ [(Queue (AP_WRITE 0 MEM_AP_REG_TAR 0x100), ERROR_OK)]"
    by (simp add: abw)
  obtain r5 ap5 d5 where z: "mem_ap_setup_tar ap_default (dap_link all_ok) 0x100 = (r5, ap5, d5)"
    by (cases "mem_ap_setup_tar ap_default (dap_link all_ok) 0x100") auto
  note inst5 = shadows_track_queue [of ap_default "dap_link all_ok" "[]" 1 0 0 False r5 ap5 d5 "[]" 0
      "0x100" "[]"]
  from inst5 z h have "t_tar (observed d5) = tar_value ap5"
    by blast
  then have o: "t_tar (observed (snd (snd (mem_ap_setup_tar ap_default (dap_link all_ok) 0x100))))
       = tar_value (fst (snd (mem_ap_setup_tar ap_default (dap_link all_ok) 0x100)))"
    by (simp add: z)
  from ne f t el ne2 f2 c ne3 o show ?thesis
    by blast
qed

text \<open>
  C2, as the specification words it, fails in both halves. After the failed flush of
  \<open>after_failed_flush\<close> the shadows hold the legal values just queued (CSW \<open>0xA2000000\<close>,
  TAR \<open>0x100\<close>), and the next \<open>mem_ap_setup_csw\<close> and \<open>mem_ap_setup_tar\<close> with these values
  make no vtable call: both register writes are elided. After the successful four-byte
  write of \<open>after_block_write\<close>, flushed with nothing left in the journal, the TAR shadow
  is \<open>0x100\<close> while the target's TAR has advanced to \<open>0x104\<close>.
\<close>

theorem failed_flush_keeps_shadows:
  "fst after_failed_flush = ERROR_FAIL
   \<and> csw_value (fst (snd after_failed_flush)) = 0xA2000000
   \<and> tar_value (fst (snd after_failed_flush)) = 0x100
   \<and> trace (snd (snd (mem_ap_setup_csw (fst (snd after_failed_flush)) (snd (snd after_failed_flush))
                (CSW_8BIT OR CSW_ADDRINC_OFF))))
       = trace (snd (snd after_failed_flush))
   \<and> trace (snd (snd (mem_ap_setup_tar (fst (snd after_failed_flush)) (snd (snd after_failed_flush)) 0x100)))
       = trace (snd (snd after_failed_flush))
   \<and> fst after_block_write = ERROR_OK
   \<and> cmd_journal (snd (snd after_block_write)) = []
   \<and> tar_value (fst (snd after_block_write)) = 0x100
   \<and> t_tar (tgt (snd (snd after_block_write))) = 0x104"
  by code_simp

section \<open>Byte lanes and bit fields\<close>

lemma lane_of_zero: "lane_of 0 k = 0"
  by (simp add: lane_of_def)

lemma lane_of_or: "lane_of (x OR y) k = lane_of x k OR lane_of y k"
  by (simp add: lane_of_def bit_eq_iff bit_simps)

lemma lane_of_to_lane_same:
  "k < 4 \<Longrightarrow> lane_of (to_lane b k) k = b"
  apply (simp add: lane_of_def to_lane_def)
  apply (rule bit_word_eqI)
  apply (auto simp: bit_simps)
  done

lemma lane_of_to_lane_other:
  "k < 4 \<Longrightarrow> j < 4 \<Longrightarrow> j \<noteq> k \<Longrightarrow> lane_of (to_lane b j) k = 0"
  apply (simp add: lane_of_def to_lane_def)
  apply (rule bit_word_eqI)
  apply (auto simp: bit_simps dest!: bit_imp_le_length)
  done

lemma and3_take_bit: "(a :: u32) AND 3 = take_bit 2 a"
  by (simp add: take_bit_eq_mask mask_eq_exp_minus_1)

lemma and3_cases: "(a :: u32) AND 3 = 0 \<or> a AND 3 = 1 \<or> a AND 3 = 2 \<or> a AND 3 = 3"
proof -
  have "unat (a AND 3) < 4"
    using word_and_le1 [of a 3] by (simp add: word_le_nat_alt)
  then have "unat (a AND 3) = 0 \<or> unat (a AND 3) = 1 \<or> unat (a AND 3) = 2 \<or> unat (a AND 3) = 3"
    by arith
  then show ?thesis
    by (simp add: word_unat_eq_iff)
qed

lemma and3_mod: "(a :: u32) AND 3 = a mod 4"
  using word_mod_2p_is_mask [of 2 a] by (simp add: mask_eq_exp_minus_1)

lemma unat_and3: "unat ((a :: u32) AND 3) = unat a mod 4"
  by (simp add: and3_mod unat_mod)

lemma and3_add: "((a :: u32) + n) AND 3 = ((a AND 3) + (n AND 3)) AND 3"
proof -
  have "unat ((a + n) AND 3) = (unat a + unat n) mod 4"
    by (simp add: unat_and3 unat_word_ariths mod_mod_cancel)
  moreover have "unat (((a AND 3) + (n AND 3)) AND 3) = (unat a mod 4 + unat n mod 4) mod 4"
    by (simp add: unat_and3 unat_word_ariths mod_mod_cancel)
  ultimately show ?thesis
    by (simp add: word_unat_eq_iff mod_add_eq)
qed

lemma bit4: "bit w 4 \<or> bit w 5 \<Longrightarrow> (w :: u32) AND 0x30 \<noteq> 0"
  by (auto simp: bit_eq_iff bit_simps intro: exI[of _ 4] exI[of _ 5])


section \<open>The calls of one pass of the block loops\<close>

lemma setup_csw_okD:
  "mem_ap_setup_csw ap d csw0 = (ERROR_OK, ap1, d1) \<Longrightarrow>
   ap1 = ap\<lparr>csw_value := csw_effective ap csw0\<rparr> \<and> trace d1 = trace d @ csw_calls ap csw0"
  by (auto simp: mem_ap_setup_csw_def csw_effective_def csw_calls_def Let_def
        dap_queue_ap_write_def dap_queue_def split: if_splits)

lemma setup_tar_okD:
  "mem_ap_setup_tar ap d tar = (ERROR_OK, ap1, d1) \<Longrightarrow>
   ap1 = ap\<lparr>tar_value := tar\<rparr>
   \<and> trace d1 = trace d @ (if tar_write_due ap tar
                            then [(Queue (AP_WRITE (ap_num ap) MEM_AP_REG_TAR tar), ERROR_OK)]
                            else [])"
  by (auto simp: mem_ap_setup_tar_def tar_write_due_def
        dap_queue_ap_write_def dap_queue_def split: if_splits)

lemma queue_ap_write_okD:
  "dap_queue_ap_write ap d reg v = (ERROR_OK, d1) \<Longrightarrow>
   trace d1 = trace d @ [(Queue (AP_WRITE (ap_num ap) reg v), ERROR_OK)]"
  by (auto simp: dap_queue_ap_write_def dap_queue_def)

lemma queue_ap_read_okD:
  "dap_queue_ap_read ap d reg dst = (ERROR_OK, d1) \<Longrightarrow>
   trace d1 = trace d @ [(Queue (AP_READ (ap_num ap) reg dst), ERROR_OK)]"
  by (auto simp: dap_queue_ap_read_def dap_queue_def)

lemma addrinc_bits:
  "m = CSW_ADDRINC_SINGLE \<or> m = CSW_ADDRINC_PACKED \<Longrightarrow>
   ((csz OR m) OR rest) AND CSW_ADDRINC_MASK \<noteq> 0"
  unfolding CSW_ADDRINC_MASK_def CSW_ADDRINC_SINGLE_def CSW_ADDRINC_PACKED_def
  by (rule bit4) (auto simp: bit_simps)

lemma tar_due_when_addrinc:
  "tar_write_due (ap\<lparr>csw_value := csw_effective ap (csz OR pass_mode True ap nbytes address)\<rparr>) tar"
  unfolding tar_write_due_def csw_effective_def pass_mode_def csw_addrincr_def
  by (simp add: addrinc_bits)

lemma write_step_calls:
  assumes "write_step addrinc sz csw_size addr_xor ap d buffer nbytes address
             = WNext ap' d' buffer' nbytes' address'"
  shows "trace d' = trace d
           @ csw_calls ap (csw_size OR pass_mode addrinc ap nbytes address)
           @ [(Queue (AP_WRITE (ap_num ap) MEM_AP_REG_DRW
                 (write_outvalue (ti_be_32_quirks d) (pass_size addrinc ap sz nbytes address)
                    addr_xor buffer address)), ERROR_OK)]
           @ (if addrinc \<and> (addr_xor \<noteq> 0
                              \<or> (address' mod tar_autoincr_block ap < sz \<and> 0 < nbytes'))
              then [(Queue (AP_WRITE (ap_num ap) MEM_AP_REG_TAR (address' XOR addr_xor)), ERROR_OK)]
              else [])"
  using assms tar_due_when_addrinc [of ap csw_size nbytes address]
  unfolding write_step_def Let_def pass_mode_def pass_size_def
  by (auto split: prod.splits if_splits
        dest!: setup_csw_okD setup_tar_okD queue_ap_write_okD)

lemma read_step_calls:
  assumes "read_step addrinc sz csw_size ap d k nbytes address = RNext ap' d' nbytes' address'"
  shows "trace d' = trace d
           @ csw_calls ap (csw_size OR pass_mode addrinc ap nbytes address)
           @ [(Queue (AP_READ (ap_num ap) MEM_AP_REG_DRW (Buf k)), ERROR_OK)]
           @ (if addrinc \<and> address' mod tar_autoincr_block ap < sz \<and> 0 < nbytes'
              then [(Queue (AP_WRITE (ap_num ap) MEM_AP_REG_TAR address'), ERROR_OK)]
              else [])"
  using assms tar_due_when_addrinc [of ap csw_size nbytes address]
  unfolding read_step_def Let_def pass_mode_def pass_size_def
  by (auto split: prod.splits if_splits
        dest!: setup_csw_okD setup_tar_okD queue_ap_read_okD)


text \<open>
  C5, as the code has it. Take a pass of the transfer loop that runs to its end (every
  queue call accepted). In \<open>mem_ap_write\<close> the calls of the pass are the CSW write when
  the CSW changes, the DRW write, and then one TAR write exactly when \<open>addrinc\<close> is on and
  either \<open>addr_xor\<close> is non-zero or the advanced address is within \<open>size\<close> bytes after a
  \<open>tar_autoincr_block\<close> boundary while bytes remain. In \<open>mem_ap_read\<close> they are the CSW
  write, the DRW read, and one TAR write exactly when \<open>addrinc\<close> is on, the advanced
  address is within \<open>size\<close> bytes after a boundary and bytes remain; \<open>addr_xor\<close> plays no
  part in reads. No other TAR write is queued.
\<close>

theorem tar_rewrite_policy:
  "(write_step addrinc sz csw_size addr_xor ap d buffer nbytes address
      = WNext ap' d' buffer' nbytes' address' \<longrightarrow>
    trace d' = trace d
      @ csw_calls ap (csw_size OR pass_mode addrinc ap nbytes address)
      @ [(Queue (AP_WRITE (ap_num ap) MEM_AP_REG_DRW
            (write_outvalue (ti_be_32_quirks d) (pass_size addrinc ap sz nbytes address)
               addr_xor buffer address)), ERROR_OK)]
      @ (if addrinc \<and> (addr_xor \<noteq> 0
                         \<or> (address' mod tar_autoincr_block ap < sz \<and> 0 < nbytes'))
         then [(Queue (AP_WRITE (ap_num ap) MEM_AP_REG_TAR (address' XOR addr_xor)), ERROR_OK)]
         else []))
   \<and> (read_step addrinc sz csw_size ap d k nbytes address = RNext ap' d' nbytes' address' \<longrightarrow>
    trace d' = trace d
      @ csw_calls ap (csw_size OR pass_mode addrinc ap nbytes address)
      @ [(Queue (AP_READ (ap_num ap) MEM_AP_REG_DRW (Buf k)), ERROR_OK)]
      @ (if addrinc \<and> address' mod tar_autoincr_block ap < sz \<and> 0 < nbytes'
         then [(Queue (AP_WRITE (ap_num ap) MEM_AP_REG_TAR address'), ERROR_OK)]
         else []))"
  by (intro conjI impI) (erule write_step_calls, erule read_step_calls)

theorem tar_rewrite_policy_witness:
  "wstep_trace (write_step True 1 CSW_8BIT 0 ap_default (dap_link all_ok) [0xAA, 0xBB] 2 0x3FF)
     = Some [(Queue (AP_WRITE 0 MEM_AP_REG_CSW 0xA2000010), ERROR_OK),
             (Queue (AP_WRITE 0 MEM_AP_REG_DRW 0xAA000000), ERROR_OK),
             (Queue (AP_WRITE 0 MEM_AP_REG_TAR 0x400), ERROR_OK)]
   \<and> rstep_trace (read_step True 1 CSW_8BIT ap_default (dap_link all_ok) 0 2 0x100)
     = Some [(Queue (AP_WRITE 0 MEM_AP_REG_CSW 0xA2000010), ERROR_OK),
             (Queue (AP_READ 0 MEM_AP_REG_DRW (Buf 0)), ERROR_OK)]"
proof -
  have "wstep_trace (write_step True 1 CSW_8BIT 0 ap_default (dap_link all_ok) [0xAA, 0xBB] 2 0x3FF)
          \<noteq> None"
    by code_simp
  then obtain ap' d' b' n' a' where
    w: "write_step True 1 CSW_8BIT 0 ap_default (dap_link all_ok) [0xAA, 0xBB] 2 0x3FF
          = WNext ap' d' b' n' a'"
    by (auto simp: wstep_trace_def split: wstep.splits)
  have wn: "n' = 1 \<and> a' = 0x400"
    using w by (auto simp: write_step_def Let_def select_packed_def ap_default_def switch_bytes_def
          split: prod.splits if_splits)
  have "rstep_trace (read_step True 1 CSW_8BIT ap_default (dap_link all_ok) 0 2 0x100) \<noteq> None"
    by code_simp
  then obtain ap2 d2 n2 a2 where
    r: "read_step True 1 CSW_8BIT ap_default (dap_link all_ok) 0 2 0x100 = RNext ap2 d2 n2 a2"
    by (auto simp: rstep_trace_def split: rstep.splits)
  have rn: "n2 = 1 \<and> a2 = 0x101"
    using r by (auto simp: read_step_def Let_def select_packed_def ap_default_def
          split: prod.splits if_splits)
  have c: "csw_calls ap_default (CSW_8BIT OR pass_mode True ap_default 2 a)
             = [(Queue (AP_WRITE 0 MEM_AP_REG_CSW 0xA2000010), ERROR_OK)]" for a
    by (simp add: csw_calls_def csw_effective_def pass_mode_def select_packed_def ap_default_def
          csw_addrincr_def CSW_8BIT_def CSW_ADDRINC_SINGLE_def CSW_DBGSWENABLE_def
          CSW_MASTER_DEBUG_def CSW_HPROT_def)
  have o: "write_outvalue False (pass_size True ap_default 1 2 0x3FF) 0 [0xAA, 0xBB] 0x3FF = 0xAA000000"
    by (simp add: write_outvalue_def pass_size_def select_packed_def ap_default_def
          switch_bytes_def lane_le_def)
  have t: "trace (dap_link all_ok) = []" "ti_be_32_quirks (dap_link all_ok) = False"
    "ap_num ap_default = 0" "tar_autoincr_block ap_default = 0x400"
    by (simp_all add: dap_link_def ap_default_def)
  from tar_rewrite_policy [of True 1 CSW_8BIT 0 ap_default "dap_link all_ok" "[0xAA, 0xBB]" 2 "0x3FF"
         ap' d' b' n' a' 0, THEN conjunct1] w
  have 1: "trace d' = [(Queue (AP_WRITE 0 MEM_AP_REG_CSW 0xA2000010), ERROR_OK),
             (Queue (AP_WRITE 0 MEM_AP_REG_DRW 0xAA000000), ERROR_OK),
             (Queue (AP_WRITE 0 MEM_AP_REG_TAR 0x400), ERROR_OK)]"
    by (simp add: c o t wn)
  from tar_rewrite_policy [of True 1 CSW_8BIT 0 ap_default "dap_link all_ok" "[]" 2 "0x100"
         ap2 d2 "[]" n2 a2 0, THEN conjunct2] r
  have 2: "trace d2 = [(Queue (AP_WRITE 0 MEM_AP_REG_CSW 0xA2000010), ERROR_OK),
             (Queue (AP_READ 0 MEM_AP_REG_DRW (Buf 0)), ERROR_OK)]"
    by (simp add: c t rn)
  show ?thesis
    by (simp add: w r 1 2 wstep_trace_def rstep_trace_def)
qed


text \<open>
  C5, as the specification words it, fails twice. A 4-byte write at \<open>0x3FC\<close> ends on the
  boundary \<open>0x400\<close> with auto-increment on, and no TAR write follows its DRW write: no
  bytes remain. A write without address increment under the BE-32 quirk has
  \<open>addr_xor = 3\<close>, and no TAR write follows its DRW writes either.
\<close>

theorem tar_rewrite_counterexample:
  "write_outcome (mem_ap_write_buf ap_default (dap_link all_ok) [1, 2, 3, 4] 4 1 0x3FC)
     = Some (ERROR_OK, ap_default\<lparr>csw_value := 0xA2000012, tar_value := 0x3FC\<rparr>,
             [(Queue (AP_WRITE 0 MEM_AP_REG_TAR 0x3FC), ERROR_OK),
              (Queue (AP_WRITE 0 MEM_AP_REG_CSW 0xA2000012), ERROR_OK),
              (Queue (AP_WRITE 0 MEM_AP_REG_DRW 0x04030201), ERROR_OK),
              (Run, ERROR_OK)])
   \<and> (0x3FC + 4) mod tar_autoincr_block ap_default < (4 :: u32)
   \<and> write_outcome (mem_ap_write_buf_noincr ap_default
                       ((dap_link all_ok)\<lparr>ti_be_32_quirks := True\<rparr>) [0xAA, 0xBB] 1 2 0x100)
     = Some (ERROR_OK, ap_default\<lparr>csw_value := 0xA2000000, tar_value := 0x103\<rparr>,
             [(Queue (AP_WRITE 0 MEM_AP_REG_TAR 0x103), ERROR_OK),
              (Queue (AP_WRITE 0 MEM_AP_REG_CSW 0xA2000000), ERROR_OK),
              (Queue (AP_WRITE 0 MEM_AP_REG_DRW 0xAA000000), ERROR_OK),
              (Queue (AP_WRITE 0 MEM_AP_REG_DRW 0x00BB0000), ERROR_OK),
              (Run, ERROR_OK)])
   \<and> addr_xor_of True 1 \<noteq> 0"
  by code_simp

section \<open>Lanes of the BE-32 write path\<close>

lemma lane_of_push_bit:
  "lane_of (ucast b) 0 = b"
  "lane_of (ucast b) (Suc 0) = 0"
  "lane_of (ucast b) 2 = 0"
  "lane_of (ucast b) 3 = 0"
  "lane_of (push_bit 8 (ucast b)) 0 = 0"
  "lane_of (push_bit 8 (ucast b)) (Suc 0) = b"
  "lane_of (push_bit 8 (ucast b)) 2 = 0"
  "lane_of (push_bit 8 (ucast b)) 3 = 0"
  "lane_of (push_bit 16 (ucast b)) 0 = 0"
  "lane_of (push_bit 16 (ucast b)) (Suc 0) = 0"
  "lane_of (push_bit 16 (ucast b)) 2 = b"
  "lane_of (push_bit 16 (ucast b)) 3 = 0"
  "lane_of (push_bit 24 (ucast b)) 0 = 0"
  "lane_of (push_bit 24 (ucast b)) (Suc 0) = 0"
  "lane_of (push_bit 24 (ucast b)) 2 = 0"
  "lane_of (push_bit 24 (ucast b)) 3 = b"
  using lane_of_to_lane_same [of 0 b] lane_of_to_lane_same [of 1 b]
    lane_of_to_lane_same [of 2 b] lane_of_to_lane_same [of 3 b]
    lane_of_to_lane_other [of 0 1 b] lane_of_to_lane_other [of 0 2 b] lane_of_to_lane_other [of 0 3 b]
    lane_of_to_lane_other [of 1 0 b] lane_of_to_lane_other [of 1 2 b] lane_of_to_lane_other [of 1 3 b]
    lane_of_to_lane_other [of 2 0 b] lane_of_to_lane_other [of 2 1 b] lane_of_to_lane_other [of 2 3 b]
    lane_of_to_lane_other [of 3 0 b] lane_of_to_lane_other [of 3 1 b] lane_of_to_lane_other [of 3 2 b]
  by (simp_all add: to_lane_def)

lemma and3_succ:
  "(a :: u32) AND 3 = c \<Longrightarrow> (a + 1) AND 3 = (c + 1) AND 3"
  "(a :: u32) AND 3 = c \<Longrightarrow> (a + 2) AND 3 = (c + 2) AND 3"
  "(a :: u32) AND 3 = c \<Longrightarrow> (a + 3) AND 3 = (c + 3) AND 3"
  using and3_add [of a 1] and3_add [of a 2] and3_add [of a 3] by simp_all

lemma be32_lane_1:
  "lane_of (write_outvalue True 1 3 (b0 # rest) a) (unat (0 XOR (a AND 3) XOR 3)) = b0"
  using and3_cases [of a]
  by (elim disjE)
     (simp_all add: write_outvalue_def lane_be32_def lane_of_or lane_of_zero lane_of_push_bit)


lemma be32_lane_2:
  "lane_of (write_outvalue True 2 2 (b0 # b1 # rest) a) (unat (1 XOR (a AND 3) XOR 2)) = b0"
  "lane_of (write_outvalue True 2 2 (b0 # b1 # rest) a) (unat (1 XOR ((a + 1) AND 3) XOR 2)) = b1"
proof -
  note s = write_outvalue_def lane_be32_def lane_of_or lane_of_zero lane_of_push_bit
  consider "a AND 3 = 0" | "a AND 3 = 1" | "a AND 3 = 2" | "a AND 3 = 3"
    using and3_cases [of a] by blast
  then show "lane_of (write_outvalue True 2 2 (b0 # b1 # rest) a) (unat (1 XOR (a AND 3) XOR 2)) = b0"
    by cases (simp_all add: s and3_succ)
  consider "a AND 3 = 0" | "a AND 3 = 1" | "a AND 3 = 2" | "a AND 3 = 3"
    using and3_cases [of a] by blast
  then show "lane_of (write_outvalue True 2 2 (b0 # b1 # rest) a) (unat (1 XOR ((a + 1) AND 3) XOR 2)) = b1"
    by cases (simp_all add: s and3_succ)
qed


lemma be32_lane_4:
  "lane_of (write_outvalue True 4 0 (b0 # b1 # b2 # b3 # rest) a) (unat (3 XOR (a AND 3) XOR 0)) = b0"
  "lane_of (write_outvalue True 4 0 (b0 # b1 # b2 # b3 # rest) a) (unat (3 XOR ((a + 1) AND 3) XOR 0)) = b1"
  "lane_of (write_outvalue True 4 0 (b0 # b1 # b2 # b3 # rest) a) (unat (3 XOR ((a + 2) AND 3) XOR 0)) = b2"
  "lane_of (write_outvalue True 4 0 (b0 # b1 # b2 # b3 # rest) a) (unat (3 XOR ((a + 3) AND 3) XOR 0)) = b3"
proof -
  note s = write_outvalue_def lane_be32_def lane_of_or lane_of_zero lane_of_push_bit
  have c: "a AND 3 = 0 \<or> a AND 3 = 1 \<or> a AND 3 = 2 \<or> a AND 3 = 3"
    by (rule and3_cases)
  have n: "(a + 1 + 1) = a + 2" "(a + 2 + 1) = a + 3"
    by simp_all
  from c show "lane_of (write_outvalue True 4 0 (b0 # b1 # b2 # b3 # rest) a) (unat (3 XOR (a AND 3) XOR 0)) = b0"
    by (elim disjE) (simp_all add: s and3_succ n)
  from c show "lane_of (write_outvalue True 4 0 (b0 # b1 # b2 # b3 # rest) a) (unat (3 XOR ((a + 1) AND 3) XOR 0)) = b1"
    by (elim disjE) (simp_all add: s and3_succ n)
  from c show "lane_of (write_outvalue True 4 0 (b0 # b1 # b2 # b3 # rest) a) (unat (3 XOR ((a + 2) AND 3) XOR 0)) = b2"
    by (elim disjE) (simp_all add: s and3_succ n)
  from c show "lane_of (write_outvalue True 4 0 (b0 # b1 # b2 # b3 # rest) a) (unat (3 XOR ((a + 3) AND 3) XOR 0)) = b3"
    by (elim disjE) (simp_all add: s and3_succ n)
qed

lemma list_ge1: "1 \<le> length xs \<Longrightarrow> \<exists>b0 rest. xs = b0 # rest"
  by (cases xs) auto

lemma list_ge2: "2 \<le> length xs \<Longrightarrow> \<exists>b0 b1 rest. xs = b0 # b1 # rest"
  by (cases xs; cases "tl xs") auto

lemma list_ge4: "4 \<le> length xs \<Longrightarrow> \<exists>b0 b1 b2 b3 rest. xs = b0 # b1 # b2 # b3 # rest"
  by (cases xs; cases "tl xs"; cases "tl (tl xs)"; cases "tl (tl (tl xs))") auto

lemma be32_lanes:
  assumes sz: "sz = 4 \<or> sz = 2 \<or> sz = 1"
    and len: "unat sz \<le> length buffer"
    and i: "i < unat sz"
  shows "lane_of (write_outvalue True sz (addr_xor_of True sz) buffer address)
           (unat ((sz - 1) XOR ((address + of_nat i) AND 3) XOR addr_xor_of True sz))
         = buffer ! i"
proof -
  consider "sz = 4" | "sz = 2" | "sz = 1"
    using sz by blast
  then show ?thesis
  proof cases
    case 1
    with len obtain b0 b1 b2 b3 rest where b: "buffer = b0 # b1 # b2 # b3 # rest"
      using list_ge4 [of buffer] by auto
    from 1 i have "i = 0 \<or> i = 1 \<or> i = 2 \<or> i = 3"
      by auto
    then show ?thesis
      using be32_lane_4 [of b0 b1 b2 b3 rest address]
      by (elim disjE) (simp_all add: 1 b addr_xor_of_def)
  next
    case 2
    with len obtain b0 b1 rest where b: "buffer = b0 # b1 # rest"
      using list_ge2 [of buffer] by auto
    from 2 i have "i = 0 \<or> i = 1"
      by auto
    then show ?thesis
      using be32_lane_2 [of b0 b1 rest address]
      by (elim disjE) (simp_all add: 2 b addr_xor_of_def)
  next
    case 3
    with len obtain b0 rest where b: "buffer = b0 # rest"
      using list_ge1 [of buffer] by auto
    from 3 i have "i = 0"
      by auto
    then show ?thesis
      using be32_lane_1 [of b0 rest address]
      by (simp add: 3 b addr_xor_of_def)
  qed
qed


section \<open>The head of a block transfer\<close>

lemma setup_tar_trace:
  "mem_ap_setup_tar ap d tar = (r, ap1, d1) \<Longrightarrow> tar_write_due ap tar \<Longrightarrow>
   trace d1 = trace d @ [(Queue (AP_WRITE (ap_num ap) MEM_AP_REG_TAR tar), next_reply d)]"
  by (auto simp: mem_ap_setup_tar_def tar_write_due_def dap_queue_ap_write_def dap_queue_def
        split: if_splits)

lemma tracks_trace: "tracks ap d ap' d' \<Longrightarrow> \<exists>tr. trace d' = trace d @ tr"
  by (erule tracksE) blast

lemma mem_ap_write_admitted:
  assumes sz: "sz = 4 \<or> sz = 2 \<or> sz = 1"
    and al: "\<not> (unaligned_access_bad ap \<and> address mod sz \<noteq> 0)"
  shows "mem_ap_write ap d buffer sz count address addrinc =
     (case mem_ap_setup_tar ap d (address XOR addr_xor_of (ti_be_32_quirks d) sz) of
        (retval, ap1, d1) \<Rightarrow>
          if retval \<noteq> ERROR_OK then Some (retval, ap1, d1)
          else
            (case write_loop addrinc sz (csw_size_of sz) (addr_xor_of (ti_be_32_quirks d) sz)
                    ap1 d1 buffer (unat (sz * count)) address of
               None \<Rightarrow> None
             | Some (retval2, ap2, d2) \<Rightarrow> Some (write_finish retval2 ap2 d2)))"
proof -
  have c1: "(sz \<noteq> 4 \<and> sz \<noteq> 2 \<and> sz \<noteq> 1) = False"
    using sz by blast
  have c2: "(unaligned_access_bad ap \<and> address mod sz \<noteq> 0) = False"
    using al by blast
  show ?thesis
    unfolding mem_ap_write_def c1 c2 by (simp only: if_False)
qed

lemma mem_ap_read_admitted:
  assumes sz: "sz = 4 \<or> sz = 2 \<or> sz = 1"
    and al: "\<not> (unaligned_access_bad ap \<and> adr mod sz \<noteq> 0)"
    and m: "malloc_ok d"
  shows "mem_ap_read ap d sz count adr addrinc =
     (case mem_ap_setup_tar ap d adr of
        (retval, ap1, d1) \<Rightarrow>
          if retval \<noteq> ERROR_OK then Some (retval, [], ap1, d1)
          else
            (case read_loop addrinc sz (csw_size_of sz) ap1 d1 0 (unat (sz * count)) adr of
               None \<Rightarrow> None
             | Some (retval2, ap2, d2) \<Rightarrow> read_finish addrinc sz count adr retval2 ap2 d2))"
proof -
  have c1: "(sz \<noteq> 4 \<and> sz \<noteq> 2 \<and> sz \<noteq> 1) = False"
    using sz by blast
  have c2: "(unaligned_access_bad ap \<and> adr mod sz \<noteq> 0) = False"
    using al by blast
  have c3: "(\<not> malloc_ok d) = False"
    using m by blast
  show ?thesis
    unfolding mem_ap_read_def c1 c2 c3 by (simp only: if_False)
qed

lemma write_first_call:
  assumes sz: "sz = 4 \<or> sz = 2 \<or> sz = 1"
    and al: "\<not> (unaligned_access_bad ap \<and> address mod sz \<noteq> 0)"
    and w: "mem_ap_write ap d buffer sz count address addrinc = Some (r, ap', d')"
    and due: "tar_write_due ap (address XOR addr_xor_of (ti_be_32_quirks d) sz)"
  shows "take 1 (drop (length (trace d)) (trace d'))
         = [(Queue (AP_WRITE (ap_num ap) MEM_AP_REG_TAR
               (address XOR addr_xor_of (ti_be_32_quirks d) sz)), next_reply d)]"
proof -
  obtain r1 ap1 d1 where
    st: "mem_ap_setup_tar ap d (address XOR addr_xor_of (ti_be_32_quirks d) sz) = (r1, ap1, d1)"
    by (metis prod_cases3)
  have t1: "trace d1 = trace d @ [(Queue (AP_WRITE (ap_num ap) MEM_AP_REG_TAR
               (address XOR addr_xor_of (ti_be_32_quirks d) sz)), next_reply d)]"
    using st due by (rule setup_tar_trace)
  have "\<exists>tr. trace d' = trace d1 @ tr"
  proof (cases "r1 = ERROR_OK")
    case False
    with w st have "d' = d1"
      by (simp add: mem_ap_write_admitted [OF sz al])
    then show ?thesis by simp
  next
    case True
    with w st obtain r2 ap2 d2 where
      l: "write_loop addrinc sz (csw_size_of sz) (addr_xor_of (ti_be_32_quirks d) sz) ap1 d1 buffer
            (unat (sz * count)) address = Some (r2, ap2, d2)"
      and f: "write_finish r2 ap2 d2 = (r, ap', d')"
      by (auto simp: mem_ap_write_admitted [OF sz al] split: option.splits)
    from l have "tracks ap1 d1 ap2 d2" by (rule tracks_write_loop)
    moreover from f have "tracks ap2 d2 ap' d'" by (rule tracks_write_finish)
    ultimately have "tracks ap1 d1 ap' d'" by (rule tracks_trans)
    then show ?thesis by (rule tracks_trace)
  qed
  then obtain tr where "trace d' = trace d1 @ tr" ..
  with t1 show ?thesis by simp
qed

text \<open>
  C6, as the code has it. With \<open>ti_be_32_quirks\<close> set and a size of 4, 2 or 1,
  \<open>mem_ap_write\<close> uses \<open>addr_xor\<close> 0, 2 or 3; the first call of a transfer that has to
  write TAR writes \<open>address XOR addr_xor\<close>; a pass of size \<open>size\<close> places the byte at host
  offset \<open>i\<close> into byte lane \<open>(size - 1) XOR ((address + i) AND 3) XOR addr_xor\<close> of its
  DRW word; and a pass that runs to its end queues, after its DRW write, a TAR write of
  \<open>address XOR addr_xor\<close> for the advanced address whenever \<open>addrinc\<close> is on and the size
  is 2 or 1. For size 4, where \<open>addr_xor\<close> is 0, TAR is rewritten only after a
  \<open>tar_autoincr_block\<close> boundary while bytes remain, as without the quirk, and with
  \<open>addrinc\<close> off it is never rewritten.
\<close>

theorem be32_quirk_write:
  assumes q: "ti_be_32_quirks d"
    and sz: "sz = 4 \<or> sz = 2 \<or> sz = 1"
  shows "addr_xor_of (ti_be_32_quirks d) sz = (if sz = 4 then 0 else if sz = 2 then 2 else 3)
    \<and> (mem_ap_write ap d buffer sz count address addrinc = Some (r, ap', d')
        \<and> \<not> (unaligned_access_bad ap \<and> address mod sz \<noteq> 0)
        \<and> tar_write_due ap (address XOR addr_xor_of True sz) \<longrightarrow>
        take 1 (drop (length (trace d)) (trace d'))
        = [(Queue (AP_WRITE (ap_num ap) MEM_AP_REG_TAR (address XOR addr_xor_of True sz)),
            next_reply d)])
    \<and> (unat sz \<le> length buffer \<and> i < unat sz \<longrightarrow>
        lane_of (write_outvalue True sz (addr_xor_of True sz) buffer address)
          (unat ((sz - 1) XOR ((address + of_nat i) AND 3) XOR addr_xor_of True sz))
        = buffer ! i)
    \<and> (write_step addrinc sz (csw_size_of sz) (addr_xor_of True sz) ap d buffer nbytes address
          = WNext ap1 d1 buffer1 nbytes1 address1 \<longrightarrow>
        trace d1 = trace d
          @ csw_calls ap (csw_size_of sz OR pass_mode addrinc ap nbytes address)
          @ [(Queue (AP_WRITE (ap_num ap) MEM_AP_REG_DRW
                (write_outvalue True (pass_size addrinc ap sz nbytes address)
                   (addr_xor_of True sz) buffer address)), ERROR_OK)]
          @ (if addrinc \<and> (sz \<noteq> 4 \<or> (address1 mod tar_autoincr_block ap < sz \<and> 0 < nbytes1))
             then [(Queue (AP_WRITE (ap_num ap) MEM_AP_REG_TAR (address1 XOR addr_xor_of True sz)),
                    ERROR_OK)]
             else []))"
proof (intro conjI impI)
  show "addr_xor_of (ti_be_32_quirks d) sz = (if sz = 4 then 0 else if sz = 2 then 2 else 3)"
    using q sz by (auto simp: addr_xor_of_def)
next
  assume a: "mem_ap_write ap d buffer sz count address addrinc = Some (r, ap', d')
        \<and> \<not> (unaligned_access_bad ap \<and> address mod sz \<noteq> 0)
        \<and> tar_write_due ap (address XOR addr_xor_of True sz)"
  then show "take 1 (drop (length (trace d)) (trace d'))
        = [(Queue (AP_WRITE (ap_num ap) MEM_AP_REG_TAR (address XOR addr_xor_of True sz)),
            next_reply d)]"
    using write_first_call [of sz ap address d buffer count addrinc r ap' d'] sz q
    by simp
next
  assume "unat sz \<le> length buffer \<and> i < unat sz"
  then show "lane_of (write_outvalue True sz (addr_xor_of True sz) buffer address)
          (unat ((sz - 1) XOR ((address + of_nat i) AND 3) XOR addr_xor_of True sz))
        = buffer ! i"
    using be32_lanes [OF sz, of buffer i address] by simp
next
  assume w: "write_step addrinc sz (csw_size_of sz) (addr_xor_of True sz) ap d buffer nbytes address
          = WNext ap1 d1 buffer1 nbytes1 address1"
  have x: "(addr_xor_of True sz \<noteq> 0) = (sz \<noteq> 4)"
    using sz by (auto simp: addr_xor_of_def)
  show "trace d1 = trace d
          @ csw_calls ap (csw_size_of sz OR pass_mode addrinc ap nbytes address)
          @ [(Queue (AP_WRITE (ap_num ap) MEM_AP_REG_DRW
                (write_outvalue True (pass_size addrinc ap sz nbytes address)
                   (addr_xor_of True sz) buffer address)), ERROR_OK)]
          @ (if addrinc \<and> (sz \<noteq> 4 \<or> (address1 mod tar_autoincr_block ap < sz \<and> 0 < nbytes1))
             then [(Queue (AP_WRITE (ap_num ap) MEM_AP_REG_TAR (address1 XOR addr_xor_of True sz)),
                    ERROR_OK)]
             else [])"
    using write_step_calls [OF w] q by (simp add: x)
qed

text \<open>
  C6, as the specification words it, fails for size 4: with the quirk set, two word
  writes at \<open>0x100\<close> queue TAR once, then CSW and the two DRW writes; TAR is not set
  again between or after the DRW transfers.
\<close>

theorem be32_write_size4_counterexample:
  "write_outcome (mem_ap_write_buf ap_default dap_be32 [1, 2, 3, 4, 5, 6, 7, 8] 4 2 0x100)
     = Some (ERROR_OK, ap_default\<lparr>csw_value := 0xA2000012, tar_value := 0x100\<rparr>,
             [(Queue (AP_WRITE 0 MEM_AP_REG_TAR 0x100), ERROR_OK),
              (Queue (AP_WRITE 0 MEM_AP_REG_CSW 0xA2000012), ERROR_OK),
              (Queue (AP_WRITE 0 MEM_AP_REG_DRW 0x01020304), ERROR_OK),
              (Queue (AP_WRITE 0 MEM_AP_REG_DRW 0x05060708), ERROR_OK),
              (Run, ERROR_OK)])
   \<and> ti_be_32_quirks dap_be32"
  by code_simp


theorem be32_quirk_write_witness:
  "addr_xor_of (ti_be_32_quirks dap_be32) 1 = 3
   \<and> first_calls 1 (mem_ap_write ap_default dap_be32 [0xAA, 0xBB, 0xCC] 1 3 0x100 True)
       = [(Queue (AP_WRITE 0 MEM_AP_REG_TAR 0x103), ERROR_OK)]
   \<and> lane_of (write_outvalue True 1 3 [0xAA, 0xBB, 0xCC] 0x100) 3 = 0xAA
   \<and> wstep_trace (write_step True 1 CSW_8BIT 3 ap_default dap_be32 [0xAA, 0xBB, 0xCC] 3 0x100)
       = Some [(Queue (AP_WRITE 0 MEM_AP_REG_CSW 0xA2000010), ERROR_OK),
               (Queue (AP_WRITE 0 MEM_AP_REG_DRW 0xAA000000), ERROR_OK),
               (Queue (AP_WRITE 0 MEM_AP_REG_TAR 0x102), ERROR_OK)]"
proof -
  have q: "ti_be_32_quirks dap_be32"
    by (simp add: dap_be32_def)
  have one: "(1 :: u32) = 4 \<or> (1 :: u32) = 2 \<or> (1 :: u32) = 1"
    by simp
  have "mem_ap_write ap_default dap_be32 [0xAA, 0xBB, 0xCC] 1 3 0x100 True \<noteq> None"
    by code_simp
  then obtain r ap' d' where
    m: "mem_ap_write ap_default dap_be32 [0xAA, 0xBB, 0xCC] 1 3 0x100 True = Some (r, ap', d')"
    by auto
  have "wstep_trace (write_step True 1 CSW_8BIT 3 ap_default dap_be32 [0xAA, 0xBB, 0xCC] 3 0x100)
          \<noteq> None"
    by code_simp
  then obtain ap1 d1 b1 n1 a1 where
    w: "write_step True 1 CSW_8BIT 3 ap_default dap_be32 [0xAA, 0xBB, 0xCC] 3 0x100
          = WNext ap1 d1 b1 n1 a1"
    by (auto simp: wstep_trace_def split: wstep.splits)
  have wn: "a1 = 0x101"
    using w by (auto simp: write_step_def Let_def select_packed_def ap_default_def switch_bytes_def
          split: prod.splits if_splits)
  have x: "addr_xor_of True 1 = 3" "csw_size_of 1 = CSW_8BIT"
    by (simp_all add: addr_xor_of_def csw_size_of_def CSW_8BIT_def)
  have al: "\<not> (unaligned_access_bad ap_default \<and> (0x100 :: u32) mod 1 \<noteq> 0)"
    by (simp add: ap_default_def)
  have due: "tar_write_due ap_default (0x100 XOR 3)"
    by (simp add: tar_write_due_def ap_default_def)
  have t: "trace dap_be32 = []" "next_reply dap_be32 = ERROR_OK" "ap_num ap_default = 0"
    by (simp_all add: dap_be32_def dap_link_def next_reply_def all_ok_def ap_default_def)
  have c: "csw_calls ap_default (CSW_8BIT OR pass_mode True ap_default 3 0x100)
             = [(Queue (AP_WRITE 0 MEM_AP_REG_CSW 0xA2000010), ERROR_OK)]"
    by (simp add: csw_calls_def csw_effective_def pass_mode_def select_packed_def ap_default_def
          csw_addrincr_def CSW_8BIT_def CSW_ADDRINC_SINGLE_def CSW_DBGSWENABLE_def
          CSW_MASTER_DEBUG_def CSW_HPROT_def)
  have o: "write_outvalue True (pass_size True ap_default 1 3 0x100) 3 [0xAA, 0xBB, 0xCC] 0x100
             = 0xAA000000"
    by (simp add: write_outvalue_def pass_size_def select_packed_def ap_default_def lane_be32_def)
  note inst = be32_quirk_write [OF q one, where ap = ap_default and buffer = "[0xAA, 0xBB, 0xCC]"
      and count = 3 and address = "0x100" and addrinc = True and r = r and ap' = ap' and d' = d'
      and i = 0 and nbytes = 3 and ?ap1.0 = ap1 and ?d1.0 = d1 and ?buffer1.0 = b1
      and ?nbytes1.0 = n1 and ?address1.0 = a1]
  from inst have 1: "addr_xor_of (ti_be_32_quirks dap_be32) 1 = 3"
    by simp
  from inst m al due have 2: "take 1 (trace d') = [(Queue (AP_WRITE 0 MEM_AP_REG_TAR 0x103), ERROR_OK)]"
    by (simp add: x t)
  from inst have 3: "lane_of (write_outvalue True 1 3 [0xAA, 0xBB, 0xCC] 0x100) 3 = 0xAA"
    by (simp add: x)
  from inst w have 4: "trace d1 = [(Queue (AP_WRITE 0 MEM_AP_REG_CSW 0xA2000010), ERROR_OK),
               (Queue (AP_WRITE 0 MEM_AP_REG_DRW 0xAA000000), ERROR_OK),
               (Queue (AP_WRITE 0 MEM_AP_REG_TAR 0x102), ERROR_OK)]"
    by (simp add: x t c o wn)
  show ?thesis
    using 1 2 3 4 by (simp add: first_calls_def wstep_trace_def m w)
qed

section \<open>The retry loop of the DP initialisation\<close>

lemma dp_init_for_step:
  "i < 10 \<Longrightarrow> dp_init_for i rv d =
     (case dp_init_attempt d of
        (r, d1) \<Rightarrow> if r \<noteq> ERROR_OK then dp_init_for (i + 1) r d1 else (r, d1))"
  by (simp add: dp_init_for.simps [of i])

lemma dp_init_for_done: "10 \<le> i \<Longrightarrow> dp_init_for i rv d = (rv, d)"
  by (simp add: dp_init_for.simps [of i])

lemma dp_init_for_first_success:
  "i + k < 10 \<Longrightarrow> \<forall>j<k. fst (dp_init_attempt (after_attempts j d)) \<noteq> ERROR_OK
   \<Longrightarrow> fst (dp_init_attempt (after_attempts k d)) = ERROR_OK
   \<Longrightarrow> dp_init_for i rv d = dp_init_attempt (after_attempts k d)"
proof (induction k arbitrary: i rv d)
  case 0
  then show ?case
    by (cases "dp_init_attempt d") (simp add: dp_init_for_step)
next
  case (Suc k)
  from Suc.prems(2) have f0: "fst (dp_init_attempt d) \<noteq> ERROR_OK"
    by (metis after_attempts.simps(1) zero_less_Suc)
  obtain r d1 where a: "dp_init_attempt d = (r, d1)"
    by (cases "dp_init_attempt d")
  from Suc.prems(2) have 1: "\<forall>j<k. fst (dp_init_attempt (after_attempts j d1)) \<noteq> ERROR_OK"
    using a by (metis Suc_less_eq after_attempts.simps(2) snd_conv)
  from Suc.prems(3) have 2: "fst (dp_init_attempt (after_attempts k d1)) = ERROR_OK"
    using a by simp
  from Suc.prems(1) have 3: "Suc i + k < 10"
    by simp
  have "dp_init_for (Suc i) r d1 = dp_init_attempt (after_attempts k d1)"
    using 3 1 2 by (rule Suc.IH)
  moreover from Suc.prems(1) have "i < 10"
    by simp
  ultimately show ?case
    using a f0 by (simp add: dp_init_for_step)
qed

lemma dp_init_for_all_fail:
  "i + Suc k = 10 \<Longrightarrow> \<forall>j<Suc k. fst (dp_init_attempt (after_attempts j d)) \<noteq> ERROR_OK
   \<Longrightarrow> dp_init_for i rv d = dp_init_attempt (after_attempts k d)"
proof (induction k arbitrary: i rv d)
  case 0
  then have f: "fst (dp_init_attempt d) \<noteq> ERROR_OK" and i: "i < 10" "10 \<le> i + 1"
    by simp_all
  then show ?case
    by (cases "dp_init_attempt d") (simp add: dp_init_for_step dp_init_for_done)
next
  case (Suc k)
  from Suc.prems(2) have f0: "fst (dp_init_attempt d) \<noteq> ERROR_OK"
    by (metis after_attempts.simps(1) zero_less_Suc)
  obtain r d1 where a: "dp_init_attempt d = (r, d1)"
    by (cases "dp_init_attempt d")
  from Suc.prems(2) have 1: "\<forall>j<Suc k. fst (dp_init_attempt (after_attempts j d1)) \<noteq> ERROR_OK"
    using a by (metis Suc_less_eq after_attempts.simps(2) snd_conv)
  from Suc.prems(1) have 3: "Suc i + Suc k = 10"
    by simp
  have "dp_init_for (Suc i) r d1 = dp_init_attempt (after_attempts k d1)"
    using 3 1 by (rule Suc.IH)
  moreover from Suc.prems(1) have "i < 10"
    by simp
  ultimately show ?case
    using a f0 by (simp add: dp_init_for_step)
qed

lemma then_ok_fst: "fst (then_ok x g) = ERROR_OK \<longleftrightarrow> fst x = ERROR_OK \<and> fst (g (snd x)) = ERROR_OK"
  by (cases x) (simp add: then_ok_def)

lemma then_ok_snd: "fst x = ERROR_OK \<Longrightarrow> snd (then_ok x g) = snd (g (snd x))"
  by (cases x) (simp add: then_ok_def)

lemma dp_init_attempt_alt:
  "dp_init_attempt d =
     then_ok (dap_queue_dp_read d DP_CTRL_STAT NoSlot) (\<lambda>d1.
     then_ok (dap_queue_dp_write d1 DP_CTRL_STAT SSTICKYERR) (\<lambda>d2.
     then_ok (dap_queue_dp_read d2 DP_CTRL_STAT NoSlot) (\<lambda>d3.
     then_ok (dap_queue_dp_write (d3\<lparr>dp_ctrl_stat := CDBGPWRUPREQ OR CSYSPWRUPREQ\<rparr>)
                DP_CTRL_STAT (CDBGPWRUPREQ OR CSYSPWRUPREQ)) (\<lambda>d4.
     then_ok (dap_dp_poll_register d4 DP_CTRL_STAT CDBGPWRUPACK CDBGPWRUPACK
                DAP_POWER_DOMAIN_TIMEOUT) (\<lambda>d5.
     then_ok (dap_dp_poll_register d5 DP_CTRL_STAT CSYSPWRUPACK CSYSPWRUPACK
                DAP_POWER_DOMAIN_TIMEOUT) (\<lambda>d6.
     then_ok (dap_queue_dp_read d6 DP_CTRL_STAT NoSlot) (\<lambda>d7.
     then_ok (dap_queue_dp_write
                (d7\<lparr>dp_ctrl_stat := CDBGPWRUPREQ OR CSYSPWRUPREQ OR CORUNDETECT\<rparr>)
                DP_CTRL_STAT (CDBGPWRUPREQ OR CSYSPWRUPREQ OR CORUNDETECT)) (\<lambda>d8.
     then_ok (dap_queue_dp_read d8 DP_CTRL_STAT NoSlot) (\<lambda>d9.
     (fst (dap_run d9), snd (snd (dap_run d9))))))))))))"
  unfolding dp_init_attempt_def then_ok_def
  by (simp add: split_beta)

lemma queue_proj:
  "trace (snd (dap_queue d c)) = trace d @ [(Queue c, fst (dap_queue d c))]"
  "dp_ctrl_stat (snd (dap_queue d c)) = dp_ctrl_stat d"
  by (simp_all add: dap_queue_def)

lemma flush_proj:
  "trace (snd (snd (flush v d))) = trace d @ [(v, fst (flush v d))]"
  "dp_ctrl_stat (snd (snd (flush v d))) = dp_ctrl_stat d"
  by (simp_all add: flush_def split: prod.splits)

lemma poll_proj:
  "trace (snd (dap_dp_poll_register d reg msk v t))
     = trace d @ [(Poll reg msk v t, fst (dap_dp_poll_register d reg msk v t))]"
  "dp_ctrl_stat (snd (dap_dp_poll_register d reg msk v t)) = dp_ctrl_stat d"
  by (simp_all add: dap_dp_poll_register_def flush_def split: prod.splits)

lemma dp_init_attempt_success:
  assumes "fst (dp_init_attempt d) = ERROR_OK"
  shows "dp_ctrl_stat (snd (dp_init_attempt d)) = CDBGPWRUPREQ OR CSYSPWRUPREQ OR CORUNDETECT
       \<and> last_calls 3 (snd (dp_init_attempt d))
         = [(Queue (DP_WRITE DP_CTRL_STAT (CDBGPWRUPREQ OR CSYSPWRUPREQ OR CORUNDETECT)), ERROR_OK),
            (Queue (DP_READ DP_CTRL_STAT NoSlot), ERROR_OK),
            (Run, ERROR_OK)]"
  using assms
  unfolding dp_init_attempt_alt
  by (simp add: then_ok_fst then_ok_snd last_calls_def queue_proj flush_proj poll_proj
        dap_queue_dp_read_def dap_queue_dp_write_def dap_run_def)


text \<open>
  C9. \<open>dap_dp_init\<close> runs its initialisation sequence at most ten times. There is a pass
  \<open>k < 10\<close> such that every pass before it failed, the result of \<open>dap_dp_init\<close> is the
  result of pass \<open>k\<close> (status and state: nothing runs after it), and pass \<open>k\<close> either
  succeeded or was the tenth: a failure is returned only when all ten passes failed. When
  the result is \<open>ERROR_OK\<close>, the CTRL/STAT shadow is
  \<open>CDBGPWRUPREQ | CSYSPWRUPREQ | CORUNDETECT\<close>, and the last vtable calls were the write of
  that value to CTRL/STAT, a CTRL/STAT read and the flush, all accepted.
\<close>

theorem dap_dp_init_retries:
  "(\<exists>k<10. (\<forall>j<k. fst (dp_init_attempt (after_attempts j (d\<lparr>select := DP_SELECT_INVALID\<rparr>)))
                   \<noteq> ERROR_OK)
           \<and> dap_dp_init d = dp_init_attempt (after_attempts k (d\<lparr>select := DP_SELECT_INVALID\<rparr>))
           \<and> (fst (dap_dp_init d) = ERROR_OK \<or> k = 9))
   \<and> (fst (dap_dp_init d) = ERROR_OK \<longrightarrow>
        dp_ctrl_stat (snd (dap_dp_init d)) = CDBGPWRUPREQ OR CSYSPWRUPREQ OR CORUNDETECT
        \<and> last_calls 3 (snd (dap_dp_init d))
          = [(Queue (DP_WRITE DP_CTRL_STAT (CDBGPWRUPREQ OR CSYSPWRUPREQ OR CORUNDETECT)), ERROR_OK),
             (Queue (DP_READ DP_CTRL_STAT NoSlot), ERROR_OK),
             (Run, ERROR_OK)])"
proof -
  define d0 where "d0 = d\<lparr>select := DP_SELECT_INVALID\<rparr>"
  define F where "F j \<longleftrightarrow> fst (dp_init_attempt (after_attempts j d0)) \<noteq> ERROR_OK" for j
  have init: "dap_dp_init d = dp_init_for 0 ERROR_OK d0"
    by (simp add: dap_dp_init_def d0_def)
  have first: "\<exists>k<10. (\<forall>j<k. F j) \<and> dap_dp_init d = dp_init_attempt (after_attempts k d0)
                 \<and> (fst (dap_dp_init d) = ERROR_OK \<or> k = 9)"
  proof (cases "\<exists>k<10. \<not> F k")
    case True
    then obtain k where k: "k < 10 \<and> \<not> F k" and least: "\<forall>j<k. \<not> (j < 10 \<and> \<not> F j)"
      using exists_least_iff [of "\<lambda>k. k < 10 \<and> \<not> F k"] by blast
    from k least have all: "\<forall>j<k. F j"
      by auto
    from k have ok: "fst (dp_init_attempt (after_attempts k d0)) = ERROR_OK"
      by (simp add: F_def)
    have "dp_init_for 0 ERROR_OK d0 = dp_init_attempt (after_attempts k d0)"
      using k all ok by (intro dp_init_for_first_success) (simp_all add: F_def)
    with init k all ok show ?thesis
      by auto
  next
    case False
    then have all: "\<forall>j<Suc 9. F j"
      by auto
    have "dp_init_for 0 ERROR_OK d0 = dp_init_attempt (after_attempts 9 d0)"
      using all by (intro dp_init_for_all_fail) (simp_all add: F_def)
    with init all show ?thesis
      by (intro exI [of _ 9]) auto
  qed
  then obtain k where k: "dap_dp_init d = dp_init_attempt (after_attempts k d0)"
    by blast
  have second: "fst (dap_dp_init d) = ERROR_OK \<longrightarrow>
        dp_ctrl_stat (snd (dap_dp_init d)) = CDBGPWRUPREQ OR CSYSPWRUPREQ OR CORUNDETECT
        \<and> last_calls 3 (snd (dap_dp_init d))
          = [(Queue (DP_WRITE DP_CTRL_STAT (CDBGPWRUPREQ OR CSYSPWRUPREQ OR CORUNDETECT)), ERROR_OK),
             (Queue (DP_READ DP_CTRL_STAT NoSlot), ERROR_OK),
             (Run, ERROR_OK)]"
    unfolding k by (rule impI) (rule dp_init_attempt_success)
  from first second show ?thesis
    unfolding F_def d0_def by blast
qed

theorem dap_dp_init_retries_witness:
  "fst (dap_dp_init (dap_link (fail_at 1))) = ERROR_OK
   \<and> dp_ctrl_stat (snd (dap_dp_init (dap_link (fail_at 1)))) = 0x50000001
   \<and> last_calls 3 (snd (dap_dp_init (dap_link (fail_at 1))))
     = [(Queue (DP_WRITE DP_CTRL_STAT 0x50000001), ERROR_OK),
        (Queue (DP_READ DP_CTRL_STAT NoSlot), ERROR_OK),
        (Run, ERROR_OK)]
   \<and> length (trace (snd (dap_dp_init (dap_link (fail_at 1))))) = 12
   \<and> fst (dap_dp_init (dap_link all_fail)) = ERROR_FAIL
   \<and> length (trace (snd (dap_dp_init (dap_link all_fail)))) = 10"
proof -
  have ok: "fst (dap_dp_init (dap_link (fail_at 1))) = ERROR_OK"
    by code_simp
  have c: "CDBGPWRUPREQ OR CSYSPWRUPREQ OR CORUNDETECT = 0x50000001"
    by (simp add: CDBGPWRUPREQ_def CSYSPWRUPREQ_def CORUNDETECT_def)
  have n: "length (trace (snd (dap_dp_init (dap_link (fail_at 1))))) = 12"
    "fst (dap_dp_init (dap_link all_fail)) = ERROR_FAIL"
    "length (trace (snd (dap_dp_init (dap_link all_fail)))) = 10"
    by code_simp+
  from dap_dp_init_retries [of "dap_link (fail_at 1)", THEN conjunct2] ok
  have a: "dp_ctrl_stat (snd (dap_dp_init (dap_link (fail_at 1))))
             = CDBGPWRUPREQ OR CSYSPWRUPREQ OR CORUNDETECT
           \<and> last_calls 3 (snd (dap_dp_init (dap_link (fail_at 1))))
             = [(Queue (DP_WRITE DP_CTRL_STAT (CDBGPWRUPREQ OR CSYSPWRUPREQ OR CORUNDETECT)), ERROR_OK),
                (Queue (DP_READ DP_CTRL_STAT NoSlot), ERROR_OK),
                (Run, ERROR_OK)]"
    by blast
  from ok n a [unfolded c] show ?thesis
    by blast
qed

section \<open>The address result of the ROM table lookup\<close>

lemma lookup_addr_invariant:
  "(\<forall>ap d dbgbase dtype idx r addr idx' ap' d'.
      dap_lookup_cs_component f ap d dbgbase dtype idx = Some (r, addr, idx', ap', d')
      \<longrightarrow> (r = ERROR_OK \<longleftrightarrow> addr \<noteq> 0))
   \<and> (\<forall>ap d dbgbase dtype entry_offset idx x addr idx' ap' d'.
      lookup_loop f ap d dbgbase dtype entry_offset 0 idx = Some (x, addr, idx', ap', d')
      \<longrightarrow> ret_ok x addr)
   \<and> (\<forall>ap d component_base dtype idx y addr idx' ap' d'.
      lookup_present f ap d component_base dtype 0 idx = Some (y, addr, idx', ap', d')
      \<longrightarrow> pass_ok y addr)"
proof (induction f)
  case 0
  show ?case by simp
next
  case (Suc f)
  note C = Suc [THEN conjunct1, rule_format]
  note L = Suc [THEN conjunct2, THEN conjunct1, rule_format]
  note P = Suc [THEN conjunct2, THEN conjunct2, rule_format]
  have c: "\<And>ap d dbgbase dtype idx r addr idx' ap' d'.
      dap_lookup_cs_component (Suc f) ap d dbgbase dtype idx = Some (r, addr, idx', ap', d')
      \<Longrightarrow> (r = ERROR_OK \<longleftrightarrow> addr \<noteq> 0)"
    by (auto simp: ret_ok_def ERROR_OK_def ERROR_TARGET_RESOURCE_NOT_AVAILABLE_def
          split: option.splits prod.splits lexit.splits if_splits dest!: L)
  have l: "\<And>ap d dbgbase dtype entry_offset idx x addr idx' ap' d'.
      lookup_loop (Suc f) ap d dbgbase dtype entry_offset 0 idx = Some (x, addr, idx', ap', d')
      \<Longrightarrow> ret_ok x addr"
    by (auto simp: ret_ok_def pass_ok_def
          split: option.splits prod.splits lexit.splits lpass.splits if_splits dest!: L P)
  have p: "\<And>ap d component_base dtype idx y addr idx' ap' d'.
      lookup_present (Suc f) ap d component_base dtype 0 idx = Some (y, addr, idx', ap', d')
      \<Longrightarrow> pass_ok y addr"
    by (auto simp: ret_ok_def pass_ok_def
          split: option.splits prod.splits lexit.splits lpass.splits if_splits dest!: C)
  from c l p show ?case by simp
qed


text \<open>
  C10. \<open>dap_lookup_cs_component\<close> starts by storing 0 in \<open>*addr\<close> (the model takes no
  previous content: the loop starts from 0), so the content of \<open>*addr\<close> at return depends
  on the walk alone. Whenever the function returns, its status is \<open>ERROR_OK\<close> exactly when
  \<open>*addr\<close> is not 0. A \<open>return\<close> inside the loop carries a failing status and leaves
  \<open>*addr\<close> at 0; when the loop is left otherwise, the status is
  \<open>ERROR_TARGET_RESOURCE_NOT_AVAILABLE\<close> exactly when \<open>*addr\<close> is 0. The witness is a
  matching component with base address 0: it is reported as not available.
\<close>

theorem lookup_result_addr:
  "(dap_lookup_cs_component f ap d dbgbase dtype idx = Some (r, addr, idx', ap', d')
      \<longrightarrow> (r = ERROR_OK \<longleftrightarrow> addr \<noteq> 0))
   \<and> (lookup_loop f ap d dbgbase dtype 0 0 idx = Some (Return r, addr, idx', ap', d')
      \<longrightarrow> r \<noteq> ERROR_OK \<and> addr = 0
          \<and> dap_lookup_cs_component (Suc f) ap d dbgbase dtype idx = Some (r, 0, idx', ap', d'))
   \<and> (lookup_loop f ap d dbgbase dtype 0 0 idx = Some (Leave, addr, idx', ap', d')
      \<longrightarrow> dap_lookup_cs_component (Suc f) ap d dbgbase dtype idx
          = Some (if addr = 0 then ERROR_TARGET_RESOURCE_NOT_AVAILABLE else ERROR_OK,
                  addr, idx', ap', d'))"
proof -
  have 1: "dap_lookup_cs_component f ap d dbgbase dtype idx = Some (r, addr, idx', ap', d')
      \<longrightarrow> (r = ERROR_OK \<longleftrightarrow> addr \<noteq> 0)"
    by (rule lookup_addr_invariant [THEN conjunct1, rule_format, THEN impI])
  have 2: "lookup_loop f ap d dbgbase dtype 0 0 idx = Some (Return r, addr, idx', ap', d')
      \<longrightarrow> r \<noteq> ERROR_OK \<and> addr = 0
          \<and> dap_lookup_cs_component (Suc f) ap d dbgbase dtype idx = Some (r, 0, idx', ap', d')"
  proof
    assume a: "lookup_loop f ap d dbgbase dtype 0 0 idx = Some (Return r, addr, idx', ap', d')"
    then have "ret_ok (Return r) addr"
      by (rule lookup_addr_invariant [THEN conjunct2, THEN conjunct1, rule_format])
    then have b: "r \<noteq> ERROR_OK \<and> addr = 0"
      by (simp add: ret_ok_def)
    with a show "r \<noteq> ERROR_OK \<and> addr = 0
          \<and> dap_lookup_cs_component (Suc f) ap d dbgbase dtype idx = Some (r, 0, idx', ap', d')"
      by simp
  qed
  have 3: "lookup_loop f ap d dbgbase dtype 0 0 idx = Some (Leave, addr, idx', ap', d')
      \<longrightarrow> dap_lookup_cs_component (Suc f) ap d dbgbase dtype idx
          = Some (if addr = 0 then ERROR_TARGET_RESOURCE_NOT_AVAILABLE else ERROR_OK,
                  addr, idx', ap', d')"
    by simp
  from 1 2 3 show ?thesis
    by (intro conjI)
qed

theorem lookup_result_addr_witness:
  "lookup_outcome (dap_lookup_cs_component 4 ap_default (dap_over all_ok rom_self) 0 0x15 0)
     = Some (ERROR_TARGET_RESOURCE_NOT_AVAILABLE, 0, 0)"
proof -
  have "dap_lookup_cs_component 4 ap_default (dap_over all_ok rom_self) 0 0x15 0 \<noteq> None"
    by code_simp
  then obtain r addr idx' ap' d' where
    x: "dap_lookup_cs_component 4 ap_default (dap_over all_ok rom_self) 0 0x15 0
          = Some (r, addr, idx', ap', d')"
    by auto
  have "map_option fst (dap_lookup_cs_component 4 ap_default (dap_over all_ok rom_self) 0 0x15 0)
          = Some ERROR_TARGET_RESOURCE_NOT_AVAILABLE"
    by code_simp
  with x have r: "r = ERROR_TARGET_RESOURCE_NOT_AVAILABLE"
    by simp
  have "map_option (fst \<circ> snd \<circ> snd) (dap_lookup_cs_component 4 ap_default (dap_over all_ok rom_self) 0 0x15 0)
          = Some 0"
    by code_simp
  with x have i: "idx' = 0"
    by simp
  from lookup_result_addr [of 4 ap_default "dap_over all_ok rom_self" 0 "0x15" 0 r addr idx' ap' d',
      THEN conjunct1] x r
  have "addr = 0"
    by (simp add: ERROR_OK_def ERROR_TARGET_RESOURCE_NOT_AVAILABLE_def)
  with x r i show ?thesis
    by (simp add: lookup_outcome_def)
qed

section \<open>The lookup loop has no bound on the entry offset\<close>

lemma andC_cases: "(a :: u32) AND 0xC = 0 \<or> a AND 0xC = 4 \<or> a AND 0xC = 8 \<or> a AND 0xC = 0xC"
proof -
  have "(a AND 0xC) AND 3 = a AND (0xC AND 3)"
    by (simp only: and.assoc)
  then have "unat (a AND 0xC) mod 4 = 0"
    using unat_and3 [of "a AND 0xC"] by simp
  moreover have "unat (a AND 0xC) \<le> 12"
    using word_and_le1 [of a "0xC"] by (simp add: word_le_nat_alt)
  ultimately have "unat (a AND 0xC) = 0 \<or> unat (a AND 0xC) = 4 \<or> unat (a AND 0xC) = 8
                   \<or> unat (a AND 0xC) = 12"
    by presburger
  then show ?thesis
    by (simp add: word_unat_eq_iff)
qed

lemma bd_reg_facts:
  "MEM_AP_REG_BD0 OR (a AND 0xC) \<noteq> MEM_AP_REG_CSW"
  "MEM_AP_REG_BD0 OR (a AND 0xC) \<noteq> MEM_AP_REG_TAR"
  "MEM_AP_REG_BD0 OR (a AND 0xC) \<noteq> MEM_AP_REG_DRW"
  "is_bd (MEM_AP_REG_BD0 OR (a AND 0xC))"
  using andC_cases [of a]
  by (auto simp: MEM_AP_REG_BD0_def MEM_AP_REG_CSW_def MEM_AP_REG_TAR_def MEM_AP_REG_DRW_def is_bd_def)

lemma bd_addr_aligned: "bd_addr g reg AND 3 = 0"
proof -
  have "((t_tar g AND 0xFFFFFFF0) OR (reg AND 0xC)) AND 3
        = (t_tar g AND (0xFFFFFFF0 AND 3)) OR (reg AND (0xC AND 3))"
    by (simp only: bit.conj_disj_distrib2 and.assoc)
  then show ?thesis
    by (simp add: bd_addr_def)
qed

lemma mem_load_all3: "a AND 3 = 0 \<Longrightarrow> mem_load rom_all3 a 4 = 3"
proof -
  assume a: "a AND 3 = 0"
  have four: "(4 :: nat) = Suc (Suc (Suc (Suc 0)))"
    by simp
  from a have "mem_load rom_all3 a (Suc (Suc (Suc (Suc 0)))) = 3"
    by (simp add: rom_all3_def to_lane_def and3_succ)
  then show ?thesis
    unfolding four .
qed

lemma steady_calm: "steady rom_all3 d \<Longrightarrow> calm d"
  by (simp add: steady_def calm_def)

lemma exec_read_bd:
  assumes "t_mem g = rom_all3"
  shows "exec_cmd (AP_READ n (MEM_AP_REG_BD0 OR (a AND 0xC)) dst) g = (g, [(dst, 3)])"
  using assms by (simp add: exec_cmd_def bd_reg_facts mem_load_all3 bd_addr_aligned)

lemma exec_regwrite:
  "is_regwrite c \<Longrightarrow> t_mem (fst (exec_cmd c g)) = t_mem g \<and> snd (exec_cmd c g) = []"
  by (cases c) (auto simp: exec_cmd_def MEM_AP_REG_CSW_def MEM_AP_REG_TAR_def)

lemma exec_regwrites_read:
  "list_all is_regwrite cs \<Longrightarrow> t_mem g = rom_all3 \<Longrightarrow>
   t_mem (fst (exec_cmds (cs @ [AP_READ n (MEM_AP_REG_BD0 OR (a AND 0xC)) dst]) g)) = rom_all3
   \<and> snd (exec_cmds (cs @ [AP_READ n (MEM_AP_REG_BD0 OR (a AND 0xC)) dst]) g) = [(dst, 3)]"
proof (induction cs arbitrary: g)
  case Nil
  then show ?case
    by (simp add: exec_read_bd)
next
  case (Cons c cs)
  from Cons.prems have c: "is_regwrite c" and cs: "list_all is_regwrite cs"
    by simp_all
  from c Cons.prems(2) have g1: "t_mem (fst (exec_cmd c g)) = rom_all3" "snd (exec_cmd c g) = []"
    using exec_regwrite [of c g] by simp_all
  from Cons.IH [OF cs g1(1)] g1(2) show ?case
    by (simp add: split_beta)
qed

lemma calm_setup_csw:
  "calm d \<Longrightarrow> fst (mem_ap_setup_csw ap d csw) = ERROR_OK \<and> calm (snd (snd (mem_ap_setup_csw ap d csw)))"
  by (simp add: calm_def mem_ap_setup_csw_def Let_def dap_queue_ap_write_def dap_queue_def
        next_reply_def)

lemma calm_setup_tar:
  "calm d \<Longrightarrow> fst (mem_ap_setup_tar ap d tar) = ERROR_OK \<and> calm (snd (snd (mem_ap_setup_tar ap d tar)))"
  by (simp add: calm_def mem_ap_setup_tar_def dap_queue_ap_write_def dap_queue_def
        next_reply_def)

lemma calm_setup_transfer:
  assumes "calm d"
  shows "fst (mem_ap_setup_transfer ap d csw tar) = ERROR_OK
         \<and> calm (snd (snd (mem_ap_setup_transfer ap d csw tar)))"
proof -
  obtain r1 ap1 d1 where a: "mem_ap_setup_csw ap d csw = (r1, ap1, d1)"
    by (metis prod_cases3)
  with calm_setup_csw [OF assms, of ap csw] have 1: "r1 = ERROR_OK" "calm d1"
    by simp_all
  obtain r2 ap2 d2 where b: "mem_ap_setup_tar ap1 d1 tar = (r2, ap2, d2)"
    by (metis prod_cases3)
  with calm_setup_tar [OF 1(2), of ap1 tar] have 2: "r2 = ERROR_OK" "calm d2"
    by simp_all
  show ?thesis
    by (simp add: mem_ap_setup_transfer_def a b 1 2)
qed

lemma read_atomic_steady:
  assumes "steady rom_all3 d"
  shows "\<exists>ap' d'. mem_ap_read_atomic_u32 ap d address old = (ERROR_OK, 3, ap', d')
                  \<and> steady rom_all3 d'"
proof -
  obtain r1 ap1 d1 where
    a: "mem_ap_setup_transfer ap d (CSW_32BIT OR CSW_ADDRINC_OFF) (address AND 0xFFFFFFF0) = (r1, ap1, d1)"
    by (metis prod_cases3)
  with calm_setup_transfer [OF steady_calm [OF assms], of ap "CSW_32BIT OR CSW_ADDRINC_OFF" "address AND 0xFFFFFFF0"]
  have 1: "r1 = ERROR_OK" "calm d1"
    by simp_all
  from 1(2) have h: "\<And>n. replies d1 n = ERROR_OK" and m: "t_mem (tgt d1) = rom_all3"
    and j: "list_all is_regwrite (cmd_journal d1)"
    by (simp_all add: calm_def)
  note e = exec_regwrites_read [OF j m, of "ap_num ap1" address "Var 0"]
  show ?thesis
    using e
    by (simp add: mem_ap_read_atomic_u32_def mem_ap_read_u32_def a 1 dap_queue_ap_read_def
          dap_queue_def dap_run_def flush_def next_reply_def h steady_def split_beta)
qed


lemma present_all3:
  assumes "steady rom_all3 d"
  shows "lookup_present f ap d component_base 0x15 addr idx = None
         \<or> (\<exists>ap' d'. lookup_present f ap d component_base 0x15 addr idx
                         = Some (PNext, addr, idx, ap', d') \<and> steady rom_all3 d')"
proof (cases f)
  case 0
  then show ?thesis by simp
next
  case (Suc f')
  obtain ap1 d1 where
    1: "mem_ap_read_atomic_u32 ap d (component_base OR 0xff4) (heap_junk d) = (ERROR_OK, 3, ap1, d1)"
    and s1: "steady rom_all3 d1"
    using read_atomic_steady [OF assms] by blast
  obtain ap2 d2 where
    2: "mem_ap_read_atomic_u32 ap1 d1 ((component_base AND 0xfffff000) OR 0xfcc) (heap_junk d1)
          = (ERROR_OK, 3, ap2, d2)"
    and s2: "steady rom_all3 d2"
    using read_atomic_steady [OF s1] by blast
  show ?thesis
    by (simp add: Suc 1 2 s2)
qed

lemma loop_all3:
  "steady rom_all3 d \<Longrightarrow> lookup_loop f ap d dbgbase 0x15 entry_offset addr idx = None"
proof (induction f arbitrary: ap d entry_offset addr idx)
  case 0
  show ?case by simp
next
  case (Suc f)
  obtain ap1 d1 where
    1: "mem_ap_read_atomic_u32 ap d ((dbgbase AND 0xFFFFF000) OR entry_offset) (heap_junk d)
          = (ERROR_OK, 3, ap1, d1)"
    and s1: "steady rom_all3 d1"
    using read_atomic_steady [OF Suc.prems] by blast
  from present_all3 [OF s1, of f ap1 "dbgbase AND 0xFFFFF000" addr idx]
  show ?case
  proof
    assume "lookup_present f ap1 d1 (dbgbase AND 0xFFFFF000) 0x15 addr idx = None"
    then show ?thesis
      by (simp add: 1)
  next
    assume "\<exists>ap' d'. lookup_present f ap1 d1 (dbgbase AND 0xFFFFF000) 0x15 addr idx
                       = Some (PNext, addr, idx, ap', d') \<and> steady rom_all3 d'"
    then obtain ap2 d2 where
      2: "lookup_present f ap1 d1 (dbgbase AND 0xFFFFF000) 0x15 addr idx
            = Some (PNext, addr, idx, ap2, d2)"
      and s2: "steady rom_all3 d2"
      by blast
    from Suc.IH [OF s2] show ?thesis
      by (simp add: 1 2)
  qed
qed

text \<open>
  C4 does not hold of the code. The loop of \<open>dap_lookup_cs_component\<close> is
  \<open>do ... while (romentry > 0)\<close>: it has no test of \<open>entry_offset\<close> against \<open>0xF00\<close>,
  unlike the loop of \<open>dap_rom_display\<close>. Over a ROM table in which every entry reads
  \<open>0x00000003\<close> (present, non-zero, naming a component that is no ROM table and has
  another device type) the lookup reads the entry at every offset, so also at \<open>0xF00\<close> and
  beyond, and never returns: whatever the number \<open>f\<close> of steps allowed, they are used up.
\<close>

theorem lookup_runs_past_0xF00:
  "dap_lookup_cs_component f ap_default (dap_over all_ok rom_all3) 0 0x15 0 = None"
proof (cases f)
  case 0
  then show ?thesis by simp
next
  case (Suc f')
  have "steady rom_all3 (dap_over all_ok rom_all3)"
    by (simp add: steady_def dap_over_def dap_link_def all_ok_def)
  then show ?thesis
    by (simp add: Suc loop_all3)
qed

section \<open>Unreadable components in the ROM table walks\<close>

lemma display_tolerates:
  assumes "depth \<le> 16"
    and "dap_read_part_id ap (log_msg ''Component base address'' d) (dbgbase AND 0xFFFFF000)
           (heap_junk d) (ucast (heap_junk d)) = (r, cid, pid, ap1, d1)"
    and "r \<noteq> ERROR_OK"
  shows "dap_rom_display ap d dbgbase depth = (ERROR_OK, ap1, log_msg cant_read d1)"
  using assms by (subst dap_rom_display.simps) (simp add: cant_read_def)

lemma entries_continue:
  assumes "entry_offset < 0xF00"
    and "mem_ap_read_atomic_u32 ap d (base_addr OR ucast entry_offset) (heap_junk d)
           = (ERROR_OK, romentry, ap1, d1)"
    and "romentry AND 1 \<noteq> 0"
    and "dap_rom_display ap1 (log_msg ''ROMTABLE'' d1) (base_addr + (romentry AND 0xFFFFF000)) (depth + 1)
           = (ERROR_OK, ap2, d2)"
  shows "rom_entries ap d base_addr depth entry_offset
           = rom_entries ap2 d2 base_addr depth (entry_offset + 4)"
  using assms by (subst rom_entries.simps) simp

lemma lookup_cid1_fatal:
  assumes "mem_ap_read_atomic_u32 ap d (component_base OR 0xff4) (heap_junk d) = (r, c_cid1, ap1, d1)"
    and "r \<noteq> ERROR_OK"
  shows "lookup_present (Suc f) ap d component_base dtype addr idx
           = Some (PReturn r, addr, idx, ap1, log_msg cant_read d1)"
  using assms by (simp add: cant_read_def)

lemma lookup_loop_returns:
  assumes "mem_ap_read_atomic_u32 ap d ((dbgbase AND 0xFFFFF000) OR entry_offset) (heap_junk d)
             = (ERROR_OK, romentry, ap1, d1)"
    and "romentry AND 1 \<noteq> 0"
    and "lookup_present f ap1 d1 ((dbgbase AND 0xFFFFF000) + (romentry AND 0xFFFFF000)) dtype addr idx
             = Some (PReturn r, addr2, idx2, ap2, d2)"
  shows "lookup_loop (Suc f) ap d dbgbase dtype entry_offset addr idx
           = Some (Return r, addr2, idx2, ap2, d2)"
  using assms by simp

lemma lookup_returns:
  assumes "lookup_loop f ap d dbgbase dtype 0 0 idx = Some (Return r, addr2, idx2, ap2, d2)"
  shows "dap_lookup_cs_component (Suc f) ap d dbgbase dtype idx = Some (r, addr2, idx2, ap2, d2)"
  using assms by simp


text \<open>
  C3, as the code has it. The two walks differ. In \<open>dap_rom_display\<close> a failure of
  \<open>dap_read_part_id\<close> on a component is reported and not fatal: the call for that
  component returns \<open>ERROR_OK\<close>, and the loop over the entries of the parent table goes on
  with the next entry. In \<open>dap_lookup_cs_component\<close> a failure to read CID1 of the
  component an entry names is logged and fatal: the loop returns the status of that read
  at once, with \<open>*addr\<close> and \<open>*idx\<close> as they were, and the lookup returns what its loop
  returns.
\<close>

theorem component_read_failure:
  "(depth \<le> 16
      \<and> dap_read_part_id ap (log_msg ''Component base address'' d) (dbgbase AND 0xFFFFF000)
            (heap_junk d) (ucast (heap_junk d)) = (r, cid, pid, ap1, d1)
      \<and> r \<noteq> ERROR_OK
      \<longrightarrow> dap_rom_display ap d dbgbase depth = (ERROR_OK, ap1, log_msg cant_read d1))
   \<and> (entry_offset < 0xF00
      \<and> mem_ap_read_atomic_u32 ap d (base_addr OR ucast entry_offset) (heap_junk d)
            = (ERROR_OK, romentry, ap2, d2)
      \<and> romentry AND 1 \<noteq> 0
      \<and> depth < 16
      \<and> dap_read_part_id ap2 (log_msg ''Component base address'' (log_msg ''ROMTABLE'' d2))
            ((base_addr + (romentry AND 0xFFFFF000)) AND 0xFFFFF000)
            (heap_junk d2) (ucast (heap_junk d2)) = (r, cid, pid, ap3, d3)
      \<and> r \<noteq> ERROR_OK
      \<longrightarrow> rom_entries ap d base_addr depth entry_offset
            = rom_entries ap3 (log_msg cant_read d3) base_addr depth (entry_offset + 4))
   \<and> (mem_ap_read_atomic_u32 ap d ((dbgbase AND 0xFFFFF000) OR offs) (heap_junk d)
            = (ERROR_OK, romentry, ap2, d2)
      \<and> romentry AND 1 \<noteq> 0
      \<and> mem_ap_read_atomic_u32 ap2 d2
            (((dbgbase AND 0xFFFFF000) + (romentry AND 0xFFFFF000)) OR 0xff4) (heap_junk d2)
            = (r, c_cid1, ap4, d4)
      \<and> r \<noteq> ERROR_OK
      \<longrightarrow> lookup_loop (Suc (Suc f)) ap d dbgbase dtype offs addr idx
            = Some (Return r, addr, idx, ap4, log_msg cant_read d4))
   \<and> (lookup_loop f ap d dbgbase dtype 0 0 idx = Some (Return r, addr5, idx5, ap5, d5)
      \<longrightarrow> dap_lookup_cs_component (Suc f) ap d dbgbase dtype idx = Some (r, addr5, idx5, ap5, d5))"
proof -
  have a: "depth \<le> 16
      \<and> dap_read_part_id ap (log_msg ''Component base address'' d) (dbgbase AND 0xFFFFF000)
            (heap_junk d) (ucast (heap_junk d)) = (r, cid, pid, ap1, d1)
      \<and> r \<noteq> ERROR_OK
      \<longrightarrow> dap_rom_display ap d dbgbase depth = (ERROR_OK, ap1, log_msg cant_read d1)"
    using display_tolerates [of depth ap d dbgbase r cid pid ap1 d1] by blast
  have b: "entry_offset < 0xF00
      \<and> mem_ap_read_atomic_u32 ap d (base_addr OR ucast entry_offset) (heap_junk d)
            = (ERROR_OK, romentry, ap2, d2)
      \<and> romentry AND 1 \<noteq> 0
      \<and> depth < 16
      \<and> dap_read_part_id ap2 (log_msg ''Component base address'' (log_msg ''ROMTABLE'' d2))
            ((base_addr + (romentry AND 0xFFFFF000)) AND 0xFFFFF000)
            (heap_junk d2) (ucast (heap_junk d2)) = (r, cid, pid, ap3, d3)
      \<and> r \<noteq> ERROR_OK
      \<longrightarrow> rom_entries ap d base_addr depth entry_offset
            = rom_entries ap3 (log_msg cant_read d3) base_addr depth (entry_offset + 4)"
  proof
    assume h: "entry_offset < 0xF00
      \<and> mem_ap_read_atomic_u32 ap d (base_addr OR ucast entry_offset) (heap_junk d)
            = (ERROR_OK, romentry, ap2, d2)
      \<and> romentry AND 1 \<noteq> 0
      \<and> depth < 16
      \<and> dap_read_part_id ap2 (log_msg ''Component base address'' (log_msg ''ROMTABLE'' d2))
            ((base_addr + (romentry AND 0xFFFFF000)) AND 0xFFFFF000)
            (heap_junk d2) (ucast (heap_junk d2)) = (r, cid, pid, ap3, d3)
      \<and> r \<noteq> ERROR_OK"
    then have "dap_rom_display ap2 (log_msg ''ROMTABLE'' d2)
                 (base_addr + (romentry AND 0xFFFFF000)) (depth + 1)
               = (ERROR_OK, ap3, log_msg cant_read d3)"
      by (intro display_tolerates [where r = r and cid = cid and pid = pid])
         (simp_all add: log_msg_def)
    with h show "rom_entries ap d base_addr depth entry_offset
            = rom_entries ap3 (log_msg cant_read d3) base_addr depth (entry_offset + 4)"
      by (intro entries_continue [where romentry = romentry and ?ap1.0 = ap2 and ?d1.0 = d2]) simp_all
  qed
  have c: "mem_ap_read_atomic_u32 ap d ((dbgbase AND 0xFFFFF000) OR offs) (heap_junk d)
            = (ERROR_OK, romentry, ap2, d2)
      \<and> romentry AND 1 \<noteq> 0
      \<and> mem_ap_read_atomic_u32 ap2 d2
            (((dbgbase AND 0xFFFFF000) + (romentry AND 0xFFFFF000)) OR 0xff4) (heap_junk d2)
            = (r, c_cid1, ap4, d4)
      \<and> r \<noteq> ERROR_OK
      \<longrightarrow> lookup_loop (Suc (Suc f)) ap d dbgbase dtype offs addr idx
            = Some (Return r, addr, idx, ap4, log_msg cant_read d4)"
    by (simp add: cant_read_def)
  have e: "lookup_loop f ap d dbgbase dtype 0 0 idx = Some (Return r, addr5, idx5, ap5, d5)
      \<longrightarrow> dap_lookup_cs_component (Suc f) ap d dbgbase dtype idx = Some (r, addr5, idx5, ap5, d5)"
    by simp
  from a b c e show ?thesis
    by blast
qed

theorem component_read_failure_witness:
  "fst entry0_read = ERROR_OK \<and> fst (snd entry0_read) AND 1 \<noteq> 0 \<and> fst child_ids = ERROR_FAIL
   \<and> rom_entries ap_default (dap_over (fail_at 3) rom_two) 0 0 0
       = rom_entries (fst (snd (snd (snd child_ids))))
           (log_msg cant_read (snd (snd (snd (snd child_ids))))) 0 0 4
   \<and> fst entry0_lookup = ERROR_OK \<and> fst (snd entry0_lookup) AND 1 \<noteq> 0 \<and> fst child_cid1 = ERROR_FAIL
   \<and> lookup_outcome (dap_lookup_cs_component (Suc (Suc (Suc 0))) ap_default
          (dap_over (fail_at 5) rom_two) 0 0x15 0)
       = Some (ERROR_FAIL, 0, 0)"
proof -
  have ne: "ERROR_FAIL \<noteq> ERROR_OK"
    by (simp add: ERROR_FAIL_def ERROR_OK_def)
  have hj: "heap_junk (dap_over rs m) = 0" for rs m
    by (simp add: dap_over_def dap_link_def)
  have k1: "fst entry0_read = ERROR_OK" "fst (snd entry0_read) AND 1 \<noteq> 0"
    "heap_junk (snd (snd (snd entry0_read))) = 0" "fst child_ids = ERROR_FAIL"
    by code_simp+
  define e ap2 d2 where "e = fst (snd entry0_read)" and "ap2 = fst (snd (snd entry0_read))"
    and "d2 = snd (snd (snd entry0_read))"
  have x: "entry0_read = (ERROR_OK, e, ap2, d2)"
    by (simp add: prod_eq_iff k1(1) e_def ap2_def d2_def)
  define r cid pid ap3 d3 where "r = fst child_ids" and "cid = fst (snd child_ids)"
    and "pid = fst (snd (snd child_ids))" and "ap3 = fst (snd (snd (snd child_ids)))"
    and "d3 = snd (snd (snd (snd child_ids)))"
  have y: "child_ids = (r, cid, pid, ap3, d3)"
    by (simp add: prod_eq_iff r_def cid_def pid_def ap3_def d3_def)
  have f1: "e AND 1 \<noteq> 0" "heap_junk d2 = 0" "r \<noteq> ERROR_OK"
    using k1 ne unfolding e_def d2_def r_def by simp_all
  have o: "(0 :: u16) < 0xF00" "(0 :: nat) < 16"
    by simp_all
  note inst1 = component_read_failure [of 0 ap_default "dap_over (fail_at 3) rom_two" 0 r cid pid
      ap3 d3 0 0 e ap2 d2 ap3 d3]
  from x have x': "mem_ap_read_atomic_u32 ap_default (dap_over (fail_at 3) rom_two) (0 OR ucast (0 :: u16))
                     (heap_junk (dap_over (fail_at 3) rom_two)) = (ERROR_OK, e, ap2, d2)"
    by (simp only: entry0_read_def hj)
  from y f1 have y': "dap_read_part_id ap2 (log_msg ''Component base address'' (log_msg ''ROMTABLE'' d2))
            ((0 + (e AND 0xFFFFF000)) AND 0xFFFFF000)
            (heap_junk d2) (ucast (heap_junk d2)) = (r, cid, pid, ap3, d3)"
    by (simp add: child_ids_def e_def ap2_def d2_def)
  from inst1 o x' y' f1 have
    "rom_entries ap_default (dap_over (fail_at 3) rom_two) 0 0 0
       = rom_entries ap3 (log_msg cant_read d3) 0 0 (0 + 4)"
    by blast
  then have w1: "rom_entries ap_default (dap_over (fail_at 3) rom_two) 0 0 0
       = rom_entries (fst (snd (snd (snd child_ids))))
           (log_msg cant_read (snd (snd (snd (snd child_ids))))) 0 0 4"
    by (simp add: ap3_def d3_def)
  have k2: "fst entry0_lookup = ERROR_OK" "fst (snd entry0_lookup) AND 1 \<noteq> 0"
    "heap_junk (snd (snd (snd entry0_lookup))) = 0" "fst child_cid1 = ERROR_FAIL"
    by code_simp+
  define e' ap2' d2' where "e' = fst (snd entry0_lookup)" and "ap2' = fst (snd (snd entry0_lookup))"
    and "d2' = snd (snd (snd entry0_lookup))"
  have x2: "entry0_lookup = (ERROR_OK, e', ap2', d2')"
    by (simp add: prod_eq_iff k2(1) e'_def ap2'_def d2'_def)
  define c ap4 d4 where "c = fst (snd child_cid1)" and "ap4 = fst (snd (snd child_cid1))"
    and "d4 = snd (snd (snd child_cid1))"
  have y2: "child_cid1 = (ERROR_FAIL, c, ap4, d4)"
    by (simp add: prod_eq_iff k2(4) c_def ap4_def d4_def)
  have f2: "e' AND 1 \<noteq> 0" "heap_junk d2' = 0"
    using k2 unfolding e'_def d2'_def by simp_all
  from x2 have x2': "mem_ap_read_atomic_u32 ap_default (dap_over (fail_at 5) rom_two)
                      ((0 AND 0xFFFFF000) OR 0) (heap_junk (dap_over (fail_at 5) rom_two))
                     = (ERROR_OK, e', ap2', d2')"
    by (simp only: entry0_lookup_def hj)
  from y2 f2 have y2': "mem_ap_read_atomic_u32 ap2' d2'
            (((0 AND 0xFFFFF000) + (e' AND 0xFFFFF000)) OR 0xff4) (heap_junk d2')
            = (ERROR_FAIL, c, ap4, d4)"
    by (simp add: child_cid1_def e'_def ap2'_def d2'_def)
  note inst2 = component_read_failure [of 0 ap_default "dap_over (fail_at 5) rom_two" 0 ERROR_FAIL 0 0
      ap_default "dap_over (fail_at 5) rom_two" 0 0 e' ap2' d2' ap_default "dap_over (fail_at 5) rom_two"
      0 c ap4 d4 0 "0x15" 0 0]
  from inst2 x2' y2' f2 ne have l:
    "lookup_loop (Suc (Suc 0)) ap_default (dap_over (fail_at 5) rom_two) 0 0x15 0 0 0
       = Some (Return ERROR_FAIL, 0, 0, ap4, log_msg cant_read d4)"
    by blast
  note inst3 = component_read_failure [of 0 ap_default "dap_over (fail_at 5) rom_two" 0 ERROR_FAIL 0 0
      ap_default "dap_over (fail_at 5) rom_two" 0 0 0 ap_default "dap_over (fail_at 5) rom_two"
      ap_default "dap_over (fail_at 5) rom_two"
      0 0 ap_default "dap_over (fail_at 5) rom_two" "Suc (Suc 0)" "0x15" 0 0 0 0 ap4 "log_msg cant_read d4"]
  from inst3 l have
    "dap_lookup_cs_component (Suc (Suc (Suc 0))) ap_default (dap_over (fail_at 5) rom_two) 0 0x15 0
       = Some (ERROR_FAIL, 0, 0, ap4, log_msg cant_read d4)"
    by blast
  then have w2: "lookup_outcome (dap_lookup_cs_component (Suc (Suc (Suc 0))) ap_default
          (dap_over (fail_at 5) rom_two) 0 0x15 0) = Some (ERROR_FAIL, 0, 0)"
    by (simp add: lookup_outcome_def)
  from k1 w1 k2 w2 show ?thesis
    by blast
qed

text \<open>
  C3, as the specification words it, fails for the lookup. Over \<open>rom_two\<close> the component
  of type \<open>0x15\<close> at \<open>0x2000\<close> is found when the link is sound; when the flush of the CID1
  read of the first component fails, the lookup returns \<open>ERROR_FAIL\<close> and never looks at
  the second entry.
\<close>

theorem lookup_aborts_on_unreadable_component:
  "lookup_outcome (dap_lookup_cs_component 10 ap_default (dap_over (fail_at 5) rom_two) 0 0x15 0)
     = Some (ERROR_FAIL, 0, 0)
   \<and> lookup_outcome (dap_lookup_cs_component 10 ap_default (dap_over all_ok rom_two) 0 0x15 0)
     = Some (ERROR_OK, 0x2000, 0)"
  by code_simp

end
